(* ===== verification/Prelude.thy ===== *)
theory Prelude
  imports Complex_Main "HOL-Library.AList" "HOL-Library.Word"
begin

text \<open>
  What every component of the model shares: exceptions as values, the computation type
  \<open>('s, 'a) py\<close> of a Python routine that changes a state and may raise, the text forms
  of integers and UUIDs that the source builds its keys from, JSON values, Python's
  dict and slice, and the generic lemmas about them.

  A Python \<open>dict\<close> is an association list updated with \<open>AList.update\<close>, which replaces in
  place or appends at the end exactly as Python's insertion-ordered dict does. A Python
  \<open>float\<close> is a \<open>rat\<close> or a \<open>real\<close>: rounding is not modelled. Strings are \<open>string\<close>, so
  text outside ASCII counts bytes.
\<close>

named_theorems py_defs "definitions of the computation combinators"
named_theorems key_inj "injectivity of the key builders"

section \<open>Exceptions\<close>

text \<open>
  One constructor per exception class the source raises or catches; \<open>LibraryError\<close> is any
  other exception that a library call raises. The string is the message that \<open>str(exc)\<close> gives.
\<close>

datatype exn =
    HTTPException nat string
  | LockAcquisitionError string
  | InvalidTransitionError string
  | ExecutionAlreadyTerminal string
  | CostLimitExceeded string
  | RateLimitExceeded string
  | AuthError string bool
  | InternalAuthError string
  | WebhookURLError string
  | UnknownEventType string
  | RequestError string
  | ResponseError string
  | PyKeyError string
  | PyValueError string
  | PyTypeError string
  | PyAttributeError string
  | ZeroDivisionError string
  | PyRuntimeError string
  | LibraryError string

fun exn_str :: "exn \<Rightarrow> string" where
  "exn_str (HTTPException _ m) = m"
| "exn_str (LockAcquisitionError m) = m"
| "exn_str (InvalidTransitionError m) = m"
| "exn_str (ExecutionAlreadyTerminal m) = m"
| "exn_str (CostLimitExceeded m) = m"
| "exn_str (RateLimitExceeded m) = m"
| "exn_str (AuthError m _) = m"
| "exn_str (InternalAuthError m) = m"
| "exn_str (WebhookURLError m) = m"
| "exn_str (UnknownEventType m) = m"
| "exn_str (RequestError m) = m"
| "exn_str (ResponseError m) = m"
| "exn_str (PyKeyError m) = m"
| "exn_str (PyValueError m) = m"
| "exn_str (PyTypeError m) = m"
| "exn_str (PyAttributeError m) = m"
| "exn_str (ZeroDivisionError m) = m"
| "exn_str (PyRuntimeError m) = m"
| "exn_str (LibraryError m) = m"

section \<open>Python computations over a state\<close>

text \<open>
  A routine maps a state to its result and the state it leaves. An exception keeps the
  changes made before it was raised, as in Python; undoing them (a rollback) is an explicit
  operation of the model.
\<close>

type_synonym ('s, 'a) py = "'s \<Rightarrow> (exn + 'a) \<times> 's"

definition ret :: "'a \<Rightarrow> ('s, 'a) py" where
  [py_defs]: "ret a = (\<lambda>s. (Inr a, s))"

definition throw :: "exn \<Rightarrow> ('s, 'a) py" where
  [py_defs]: "throw e = (\<lambda>s. (Inl e, s))"

definition andthen :: "('s, 'a) py \<Rightarrow> ('a \<Rightarrow> ('s, 'b) py) \<Rightarrow> ('s, 'b) py" where
  [py_defs]: "andthen m f = (\<lambda>s. case m s of (Inl e, s') \<Rightarrow> (Inl e, s') | (Inr a, s') \<Rightarrow> f a s')"

text \<open>\<open>seq\<close> is \<open>andthen\<close> for a statement whose value is not used.\<close>

definition seq :: "('s, 'a) py \<Rightarrow> ('s, 'b) py \<Rightarrow> ('s, 'b) py" where
  [py_defs]: "seq m n = andthen m (\<lambda>_. n)"

definition tryexcept :: "('s, 'a) py \<Rightarrow> (exn \<Rightarrow> ('s, 'a) py) \<Rightarrow> ('s, 'a) py" where
  [py_defs]: "tryexcept m h = (\<lambda>s. case m s of (Inl e, s') \<Rightarrow> h e s' | (Inr a, s') \<Rightarrow> (Inr a, s'))"

definition gets :: "('s \<Rightarrow> 'a) \<Rightarrow> ('s, 'a) py" where
  [py_defs]: "gets f = (\<lambda>s. (Inr (f s), s))"

definition modify :: "('s \<Rightarrow> 's) \<Rightarrow> ('s, unit) py" where
  [py_defs]: "modify f = (\<lambda>s. (Inr (), f s))"

definition liftsum :: "exn + 'a \<Rightarrow> ('s, 'a) py" where
  [py_defs]: "liftsum r = (\<lambda>s. (r, s))"

lemma ret_apply [simp]: "ret a s = (Inr a, s)"
  and throw_apply [simp]: "throw e s = (Inl e, s)"
  and gets_apply [simp]: "gets f s = (Inr (f s), s)"
  and modify_apply [simp]: "modify g s = (Inr (), g s)"
  and liftsum_apply [simp]: "liftsum r s = (r, s)"
  by (simp_all add: py_defs)

lemma andthen_Inr [simp]: "m s = (Inr a, s') \<Longrightarrow> andthen m f s = f a s'"
  and andthen_Inl [simp]: "m s = (Inl e, s') \<Longrightarrow> andthen m f s = (Inl e, s')"
  by (simp_all add: andthen_def)

lemma seq_Inr [simp]: "m s = (Inr a, s') \<Longrightarrow> seq m n s = n s'"
  and seq_Inl [simp]: "m s = (Inl e, s') \<Longrightarrow> seq m n s = (Inl e, s')"
  by (simp_all add: seq_def)

lemma tryexcept_Inr [simp]: "m s = (Inr a, s') \<Longrightarrow> tryexcept m h s = (Inr a, s')"
  and tryexcept_Inl [simp]: "m s = (Inl e, s') \<Longrightarrow> tryexcept m h s = h e s'"
  by (simp_all add: tryexcept_def)

text \<open>
  \<open>wp m Q X s\<close>: from \<open>s\<close>, a return of \<open>m\<close> satisfies \<open>Q\<close> and an exception satisfies \<open>X\<close>.
  Every combinator has an equation for it, so the simplifier computes what a routine does.
\<close>

definition wp :: "('s, 'a) py \<Rightarrow> ('a \<Rightarrow> 's \<Rightarrow> bool) \<Rightarrow> (exn \<Rightarrow> 's \<Rightarrow> bool) \<Rightarrow> 's \<Rightarrow> bool" where
  "wp m Q X s = (case m s of (Inr a, s') \<Rightarrow> Q a s' | (Inl e, s') \<Rightarrow> X e s')"

named_theorems wp_eqs "weakest-precondition equations"

lemma wp_ret [wp_eqs, simp]: "wp (ret a) Q X s = Q a s"
  by (simp add: wp_def ret_def)

lemma wp_throw [wp_eqs, simp]: "wp (throw e) Q X s = X e s"
  by (simp add: wp_def throw_def)

lemma wp_gets [wp_eqs, simp]: "wp (gets f) Q X s = Q (f s) s"
  by (simp add: wp_def gets_def)

lemma wp_modify [wp_eqs, simp]: "wp (modify f) Q X s = Q () (f s)"
  by (simp add: wp_def modify_def)

lemma wp_liftsum [wp_eqs, simp]:
  "wp (liftsum r) Q X s = (case r of Inl e \<Rightarrow> X e s | Inr a \<Rightarrow> Q a s)"
  by (simp add: wp_def liftsum_def split: sum.splits)

lemma wp_Pair [wp_eqs, simp]:
  "wp (Pair r) Q X s = (case r of Inl e \<Rightarrow> X e s | Inr a \<Rightarrow> Q a s)"
  by (simp add: wp_def split: sum.splits)

lemma wp_andthen [wp_eqs, simp]: "wp (andthen m f) Q X s = wp m (\<lambda>a. wp (f a) Q X) X s"
  by (simp add: wp_def andthen_def split: prod.splits sum.splits)

lemma wp_seq [wp_eqs, simp]: "wp (seq m n) Q X s = wp m (\<lambda>_. wp n Q X) X s"
  by (simp add: seq_def)

lemma wp_tryexcept [wp_eqs, simp]: "wp (tryexcept m h) Q X s = wp m Q (\<lambda>e. wp (h e) Q X) s"
  by (simp add: wp_def tryexcept_def split: prod.splits sum.splits)

lemma wp_if [wp_eqs, simp]: "wp (if b then m else n) Q X s = (if b then wp m Q X s else wp n Q X s)"
  by simp

lemma wp_mono:
  assumes "wp m Q X s" and "\<And>a s'. Q a s' \<Longrightarrow> Q' a s'" and "\<And>e s'. X e s' \<Longrightarrow> X' e s'"
  shows "wp m Q' X' s"
  using assms by (auto simp: wp_def split: prod.splits sum.splits)

lemma wp_bind:
  assumes "wp m Q X s" and "\<And>a s'. Q a s' \<Longrightarrow> wp (f a) Q' X' s'" and "\<And>e s'. X e s' \<Longrightarrow> X' e s'"
  shows "wp (andthen m f) Q' X' s"
  using assms by (auto intro: wp_mono)

lemma wp_result: "wp m Q X s \<Longrightarrow> m s = (res, s') \<Longrightarrow> (case res of Inl e \<Rightarrow> X e s' | Inr a \<Rightarrow> Q a s')"
  by (auto simp: wp_def split: sum.splits)

lemma wp_Inr: "wp m Q (\<lambda>_ _. False) s \<longleftrightarrow> (\<exists>a s'. m s = (Inr a, s') \<and> Q a s')"
  by (auto simp: wp_def split: prod.splits sum.splits)

lemma wp_Inl: "wp m (\<lambda>_ _. False) X s \<longleftrightarrow> (\<exists>e s'. m s = (Inl e, s') \<and> X e s')"
  by (auto simp: wp_def split: prod.splits sum.splits)

lemma wp_state: "wp m (\<lambda>_. P) (\<lambda>_. P) s \<longleftrightarrow> P (snd (m s))"
  by (auto simp: wp_def split: prod.splits sum.splits)

section \<open>Text forms\<close>

type_synonym uuid = "128 word"

definition digit_char :: "nat \<Rightarrow> char" where
  "digit_char d = (if d < 10 then char_of (48 + d) else char_of (87 + d))"

definition digit_val :: "char \<Rightarrow> nat" where
  "digit_val c = (let n = (of_char c :: nat) in if n < 58 then n - 48 else n - 87)"

lemma digit_val_char [simp]: "d < 16 \<Longrightarrow> digit_val (digit_char d) = d"
  by (simp add: digit_val_def digit_char_def Let_def)

lemma digit_char_neq: "d < 16 \<Longrightarrow> digit_char d \<noteq> CHR '':''"
proof
  assume "d < 16" and "digit_char d = CHR '':''"
  then have "(of_char (digit_char d) :: nat) = of_char (CHR '':'')" by simp
  with \<open>d < 16\<close> show False by (simp add: digit_char_def split: if_splits)
qed

text \<open>\<open>str\<close> of a non-negative integer.\<close>

fun str_nat :: "nat \<Rightarrow> string" where
  "str_nat n = (if n < 10 then [digit_char n] else str_nat (n div 10) @ [digit_char (n mod 10)])"

declare str_nat.simps [simp del]

fun dec_val :: "nat \<Rightarrow> string \<Rightarrow> nat" where
  "dec_val a [] = a"
| "dec_val a (c # cs) = dec_val (10 * a + digit_val c) cs"

lemma dec_val_append [simp]: "dec_val a (xs @ [c]) = 10 * dec_val a xs + digit_val c"
  by (induction xs arbitrary: a) auto

lemma dec_val_str_nat [simp]: "dec_val 0 (str_nat n) = n"
proof (induction n rule: str_nat.induct)
  case (1 n)
  then show ?case by (cases "n < 10") (simp_all add: str_nat.simps [of n])
qed

lemma str_nat_inj [key_inj]: "str_nat m = str_nat n \<longleftrightarrow> m = n"
  by (metis dec_val_str_nat)

lemma str_nat_no_colon: "CHR '':'' \<notin> set (str_nat n)"
proof (induction n rule: str_nat.induct)
  case (1 n)
  have "digit_char (n mod 10) \<noteq> CHR '':''" by (rule digit_char_neq) simp
  with 1 show ?case
    by (cases "n < 10") (auto simp: str_nat.simps [of n] dest: digit_char_neq [symmetric, rotated])
qed

text \<open>\<open>str\<close> of a UUID: 32 hexadecimal digits in groups of 8, 4, 4, 4 and 12.\<close>

fun hex_digits :: "nat \<Rightarrow> nat \<Rightarrow> string" where
  "hex_digits 0 x = []"
| "hex_digits (Suc n) x = hex_digits n (x div 16) @ [digit_char (x mod 16)]"

fun hex_val :: "nat \<Rightarrow> string \<Rightarrow> nat" where
  "hex_val a [] = a"
| "hex_val a (c # cs) = hex_val (16 * a + digit_val c) cs"

lemma length_hex_digits [simp]: "length (hex_digits n x) = n"
  by (induction n arbitrary: x) auto

lemma hex_val_append [simp]: "hex_val a (xs @ [c]) = 16 * hex_val a xs + digit_val c"
  by (induction xs arbitrary: a) auto

lemma hex_val_digits: "hex_val 0 (hex_digits n x) = x mod 16 ^ n"
proof (induction n arbitrary: x)
  case 0
  then show ?case by simp
next
  case (Suc n)
  have "16 * (x div 16 mod 16 ^ n) + x mod 16 = x mod (16 * 16 ^ n)"
    by (simp add: mod_mult2_eq add.commute)
  with Suc show ?case by simp
qed

definition uuid_str :: "uuid \<Rightarrow> string" where
  "uuid_str u = (let h = hex_digits 32 (unat u) in
     take 8 h @ ''-'' @ take 4 (drop 8 h) @ ''-'' @ take 4 (drop 12 h) @ ''-'' @
     take 4 (drop 16 h) @ ''-'' @ drop 20 h)"

lemma length_uuid_str [simp]: "length (uuid_str u) = 36"
  by (simp add: uuid_str_def Let_def)

lemma hex_digits_inj:
  fixes u v :: uuid
  assumes "hex_digits 32 (unat u) = hex_digits 32 (unat v)"
  shows "u = v"
proof -
  have bound: "unat w < 16 ^ 32" for w :: uuid
  proof -
    have "unat w < 2 ^ LENGTH(128)" by (rule unsigned_less)
    then show ?thesis by simp
  qed
  have "unat u mod 16 ^ 32 = unat v mod 16 ^ 32"
    using assms hex_val_digits by metis
  with bound [of u] bound [of v] have "unat u = unat v" by simp
  then show ?thesis by (rule unsigned_word_eqI)
qed

text \<open>Dropping the four dashes gives the digits back, so the text form is injective.\<close>

lemma uuid_str_inj [key_inj]: "uuid_str u = uuid_str v \<longleftrightarrow> u = v"
proof
  assume eq: "uuid_str u = uuid_str v"
  have split: "h = take 8 h @ take 4 (drop 8 h) @ take 4 (drop 12 h) @ take 4 (drop 16 h) @ drop 20 h"
    for h :: string
  proof -
    have "drop 16 h = take 4 (drop 16 h) @ drop 20 h"
      using append_take_drop_id [of 4 "drop 16 h"] by simp
    moreover have "drop 12 h = take 4 (drop 12 h) @ drop 16 h"
      using append_take_drop_id [of 4 "drop 12 h"] by simp
    moreover have "drop 8 h = take 4 (drop 8 h) @ drop 12 h"
      using append_take_drop_id [of 4 "drop 8 h"] by simp
    ultimately show ?thesis using append_take_drop_id [of 8 h] by simp
  qed
  have "hex_digits 32 (unat u) = hex_digits 32 (unat v)"
    by (subst split, subst (2) split) (use eq in \<open>simp add: uuid_str_def Let_def\<close>)
  then show "u = v" by (rule hex_digits_inj)
qed simp

text \<open>A text with a fixed-length first part splits uniquely.\<close>

lemma append_eq_same_length:
  "length xs = length ys \<Longrightarrow> xs @ us = ys @ vs \<longleftrightarrow> xs = ys \<and> us = vs"
  by simp

text \<open>A text ending in a part without a separator splits uniquely at its last separator.\<close>

lemma append_sep_inj:
  assumes "c \<notin> set us" and "c \<notin> set vs" and "xs @ c # us = ys @ c # vs"
  shows "xs = ys \<and> us = vs"
proof -
  have "rev us @ c # rev xs = rev vs @ c # rev ys"
    using arg_cong [OF assms(3), of rev] by simp
  moreover have "takeWhile (\<lambda>x. x \<noteq> c) (rev us @ c # rev xs) = rev us"
    using assms(1) by (subst takeWhile_append2) auto
  moreover have "takeWhile (\<lambda>x. x \<noteq> c) (rev vs @ c # rev ys) = rev vs"
    using assms(2) by (subst takeWhile_append2) auto
  ultimately have "rev us = rev vs" by metis
  with assms(3) show ?thesis by simp
qed

section \<open>JSON values, dicts, slices\<close>

datatype json =
    JNull
  | JBool bool
  | JInt int
  | JFloat rat
  | JStr string
  | JList "json list"
  | JObj "(string \<times> json) list"

type_synonym variables = "(string \<times> json) list"

text \<open>The slice \<open>xs[:k]\<close>: a negative bound counts from the end.\<close>

definition slice_to :: "int \<Rightarrow> 'a list \<Rightarrow> 'a list" where
  "slice_to k xs = (if 0 \<le> k then take (nat k) xs else take (nat (int (length xs) + k)) xs)"

lemma length_slice_to_le: "length (slice_to k xs) \<le> length xs"
  by (auto simp: slice_to_def)

lemma set_slice_to_subset: "set (slice_to k xs) \<subseteq> set xs"
  by (simp add: slice_to_def set_take_subset)

section \<open>Tables\<close>

text \<open>
  A table is the list of its rows. \<open>update_rows\<close> is an SQL UPDATE with a condition.
  The primary key makes at most one row answer a lookup by id.
\<close>

definition update_rows :: "('a \<Rightarrow> bool) \<Rightarrow> ('a \<Rightarrow> 'a) \<Rightarrow> 'a list \<Rightarrow> 'a list" where
  "update_rows P f rows = map (\<lambda>r. if P r then f r else r) rows"

lemma length_update_rows [simp]: "length (update_rows P f rows) = length rows"
  by (simp add: update_rows_def)

lemma map_update_rows: "(\<And>r. g (f r) = g r) \<Longrightarrow> map g (update_rows P f rows) = map g rows"
  by (simp add: update_rows_def)

lemma set_update_rows: "set (update_rows P f rows) = (\<lambda>r. if P r then f r else r) ` set rows"
  by (simp add: update_rows_def)

text \<open>\<open>result.scalar_one_or_none()\<close>: None without a row, an exception with several.\<close>

fun scalar_one_or_none :: "'a list \<Rightarrow> exn + 'a option" where
  "scalar_one_or_none [] = Inr None"
| "scalar_one_or_none [x] = Inr (Some x)"
| "scalar_one_or_none (x # y # xs) = Inl (LibraryError ''MultipleResultsFound'')"

lemma scalar_one_or_none_Some: "scalar_one_or_none xs = Inr (Some x) \<Longrightarrow> xs = [x]"
  by (cases xs rule: scalar_one_or_none.cases) auto

lemma scalar_one_or_none_None: "scalar_one_or_none xs = Inr None \<longleftrightarrow> xs = []"
  by (cases xs rule: scalar_one_or_none.cases) auto

lemma filter_key_unique:
  assumes "distinct (map k rows)"
  shows "length (filter (\<lambda>r. k r = i \<and> P r) rows) \<le> 1"
  using assms
proof (induction rows)
  case Nil
  then show ?case by simp
next
  case (Cons r rows)
  then show ?case
  proof (cases "k r = i \<and> P r")
    case True
    with Cons.prems have "filter (\<lambda>r. k r = i \<and> P r) rows = []"
      by (auto simp: filter_empty_conv image_iff)
    then show ?thesis by simp
  qed auto
qed

lemma filter_unique:
  assumes "distinct (map k rows)" and "r \<in> set rows"
  shows "filter (\<lambda>x. k x = k r \<and> P x) rows = (if P r then [r] else [])"
  using assms
proof (induction rows)
  case Nil
  then show ?case by simp
next
  case (Cons x rows)
  show ?case
  proof (cases "k x = k r")
    case True
    with Cons.prems have "x = r" by (auto simp: image_iff)
    moreover from True Cons.prems have "filter (\<lambda>x. k x = k r \<and> P x) rows = []"
      by (auto simp: filter_empty_conv image_iff)
    ultimately show ?thesis by simp
  next
    case False
    with Cons show ?thesis by auto
  qed
qed

lemma scalar_unique:
  assumes "distinct (map k rows)"
  shows "\<exists>res. scalar_one_or_none (filter (\<lambda>r. k r = i \<and> P r) rows) = Inr res"
  using filter_key_unique [OF assms, of i P]
  by (cases "filter (\<lambda>r. k r = i \<and> P r) rows" rule: scalar_one_or_none.cases) auto

end
