(* ===== verification/Core_Models.thy ===== *)
theory Core_Models
  imports Prelude
begin

text \<open>
  The domain models of \<open>packages/core/sutram_core/models\<close>: execution status and context,
  workflow definitions, memory items and summaries, checkpoints with their schema migration,
  tenants. A pydantic model is
  a record with the class's fields; identifiers and timestamps that a default factory draws
  are given by the caller.
\<close>

section \<open>The base of the stored models\<close>

text \<open>
  \<open>SutramBaseModel\<close>: an identifier from \<open>uuid4\<close> and the time of construction, in
  milliseconds. The constructors below take both from the caller and give the other fields
  the defaults of their class.
\<close>

record base_model =
  bm_id :: uuid
  bm_created_at :: nat

section \<open>Executions\<close>

datatype execution_status = PENDING | RUNNING | PAUSED | COMPLETED | FAILED | CANCELLED

fun status_value :: "execution_status \<Rightarrow> string" where
  "status_value PENDING = ''PENDING''"
| "status_value RUNNING = ''RUNNING''"
| "status_value PAUSED = ''PAUSED''"
| "status_value COMPLETED = ''COMPLETED''"
| "status_value FAILED = ''FAILED''"
| "status_value CANCELLED = ''CANCELLED''"

lemma status_value_inj: "status_value s = status_value t \<longleftrightarrow> s = t"
  by (cases s; cases t) simp_all

record execution_context =
  ctx_execution_id :: uuid
  ctx_tenant_id :: uuid
  ctx_workflow_id :: uuid
  ctx_variables :: variables
  ctx_current_step_index :: nat
  ctx_total_cost_usd :: rat
  ctx_llm_calls :: nat

text \<open>\<open>ExecutionContext(...)\<close> with the defaults of the class.\<close>

definition new_context :: "uuid \<Rightarrow> uuid \<Rightarrow> uuid \<Rightarrow> variables \<Rightarrow> execution_context" where
  "new_context eid tid wid vars =
     \<lparr>ctx_execution_id = eid, ctx_tenant_id = tid, ctx_workflow_id = wid, ctx_variables = vars,
      ctx_current_step_index = 0, ctx_total_cost_usd = 0, ctx_llm_calls = 0\<rparr>"

record workflow_execution = base_model +
  we_tenant_id :: uuid
  we_workflow_id :: uuid
  we_status :: execution_status
  we_context :: execution_context
  we_error_message :: "string option"
  we_pause_reason :: "string option"

definition new_workflow_execution ::
  "uuid \<Rightarrow> nat \<Rightarrow> uuid \<Rightarrow> uuid \<Rightarrow> execution_context \<Rightarrow> workflow_execution" where
  "new_workflow_execution i now tid wid ctx =
     \<lparr>bm_id = i, bm_created_at = now, we_tenant_id = tid, we_workflow_id = wid,
      we_status = PENDING, we_context = ctx, we_error_message = None, we_pause_reason = None\<rparr>"

section \<open>Workflow definitions\<close>

datatype retry_backoff = Exponential | Linear | Fixed

record step_config =
  sc_name :: string
  sc_checkpoint_before :: bool
  sc_max_retries :: int
  sc_timeout_seconds :: int
  sc_retry_backoff :: retry_backoff

definition step_config_default :: "string \<Rightarrow> step_config" where
  "step_config_default n =
     \<lparr>sc_name = n, sc_checkpoint_before = False, sc_max_retries = 3, sc_timeout_seconds = 300,
      sc_retry_backoff = Exponential\<rparr>"

record workflow_step =
  ws_config :: step_config
  ws_input_schema :: variables
  ws_output_schema :: variables

record workflow_definition =
  wd_steps :: "workflow_step list"
  wd_version :: int

record workflow_model = base_model +
  wm_tenant_id :: uuid
  wm_name :: string
  wm_description :: string
  wm_definition :: workflow_definition
  wm_version :: int

definition new_workflow_model ::
  "uuid \<Rightarrow> nat \<Rightarrow> uuid \<Rightarrow> string \<Rightarrow> workflow_definition \<Rightarrow> workflow_model" where
  "new_workflow_model i now tid name d =
     \<lparr>bm_id = i, bm_created_at = now, wm_tenant_id = tid, wm_name = name, wm_description = [],
      wm_definition = d, wm_version = 1\<rparr>"

section \<open>Memory types, items and summaries\<close>

datatype memory_type = EPISODIC | SEMANTIC | PROCEDURAL

fun memory_type_value :: "memory_type \<Rightarrow> string" where
  "memory_type_value EPISODIC = ''episodic''"
| "memory_type_value SEMANTIC = ''semantic''"
| "memory_type_value PROCEDURAL = ''procedural''"

lemma memory_type_value_inj: "memory_type_value s = memory_type_value t \<longleftrightarrow> s = t"
  by (cases s; cases t) simp_all

record memory_model = base_model +
  mm_tenant_id :: uuid
  mm_memory_type :: memory_type
  mm_content :: string
  mm_embedding :: "real list"
  mm_embedding_model :: string
  mm_metadata :: variables
  mm_accessed_at :: nat
  mm_access_count :: int
  mm_retention_policy :: string
  mm_compressed :: bool

text \<open>\<open>MemoryItem(...)\<close>: the two timestamps are drawn one after the other.\<close>

definition new_memory_model ::
  "uuid \<Rightarrow> nat \<Rightarrow> nat \<Rightarrow> uuid \<Rightarrow> memory_type \<Rightarrow> string \<Rightarrow> memory_model" where
  "new_memory_model i now accessed tid t content =
     \<lparr>bm_id = i, bm_created_at = now, mm_tenant_id = tid, mm_memory_type = t,
      mm_content = content, mm_embedding = [], mm_embedding_model = [], mm_metadata = [],
      mm_accessed_at = accessed, mm_access_count = 0, mm_retention_policy = ''90d'',
      mm_compressed = False\<rparr>"

record summary_model = base_model +
  sy_tenant_id :: uuid
  sy_summary :: string
  sy_original_ids :: "uuid list"
  sy_embedding :: "real list"
  sy_embedding_model :: string

definition new_summary_model :: "uuid \<Rightarrow> nat \<Rightarrow> uuid \<Rightarrow> string \<Rightarrow> summary_model" where
  "new_summary_model i now tid text =
     \<lparr>bm_id = i, bm_created_at = now, sy_tenant_id = tid, sy_summary = text,
      sy_original_ids = [], sy_embedding = [], sy_embedding_model = []\<rparr>"

section \<open>Tenants\<close>

record tenant_settings =
  ts_max_concurrent_executions :: int
  ts_max_cost_per_execution_usd :: rat
  ts_max_cost_per_day_usd :: rat
  ts_max_storage_gb :: int
  ts_rate_limit_requests_per_minute :: int

definition tenant_settings_default :: tenant_settings where
  "tenant_settings_default =
     \<lparr>ts_max_concurrent_executions = 10, ts_max_cost_per_execution_usd = 10,
      ts_max_cost_per_day_usd = 100, ts_max_storage_gb = 100,
      ts_rate_limit_requests_per_minute = 1000\<rparr>"

record tenant_model = base_model +
  tm_name :: string
  tm_settings :: tenant_settings

definition new_tenant_model :: "uuid \<Rightarrow> nat \<Rightarrow> string \<Rightarrow> tenant_model" where
  "new_tenant_model i now name =
     \<lparr>bm_id = i, bm_created_at = now, tm_name = name, tm_settings = tenant_settings_default\<rparr>"

section \<open>Checkpoints and their migration\<close>

record checkpoint =
  cp_execution_id :: uuid
  cp_tenant_id :: uuid
  cp_step_name :: string
  cp_step_index :: nat
  cp_variables :: variables
  cp_state :: variables
  cp_schema_version :: int

text \<open>
  The registry maps a schema version to the function that lifts variables to the next one.
  A migrator is a callable that may raise.
\<close>

type_synonym migrator_map = "(int \<times> (variables \<Rightarrow> exn + variables)) list"

fun migrate_loop ::
  "migrator_map \<Rightarrow> int list \<Rightarrow> variables \<Rightarrow> int \<Rightarrow> exn + variables \<times> int" where
  "migrate_loop ms [] vars ver = Inr (vars, ver)"
| "migrate_loop ms (v # vs) vars ver =
     (case map_of ms v of
        None \<Rightarrow> Inl (PyKeyError (str_nat (nat v)))
      | Some m \<Rightarrow> (case m vars of Inl e \<Rightarrow> Inl e | Inr vars' \<Rightarrow> migrate_loop ms vs vars' (v + 1)))"

definition migrate_to_current :: "migrator_map \<Rightarrow> checkpoint \<Rightarrow> exn + checkpoint" where
  "migrate_to_current ms c =
     (let sorted_versions = sort (filter (\<lambda>v. v \<ge> cp_schema_version c) (map fst ms))
      in case migrate_loop ms sorted_versions (cp_variables c) (cp_schema_version c) of
           Inl e \<Rightarrow> Inl e
         | Inr (vars, ver) \<Rightarrow> Inr (c\<lparr>cp_variables := vars, cp_schema_version := ver\<rparr>))"

lemma migrate_loop_version:
  "migrate_loop ms vs vars ver = Inr (vars', ver') \<Longrightarrow>
     ver' = (if vs = [] then ver else last vs + 1)"
  by (induction ms vs vars ver arbitrary: vars' ver' rule: migrate_loop.induct)
    (auto split: option.splits sum.splits)

lemma sorted_last_ge: "sorted xs \<Longrightarrow> x \<in> set xs \<Longrightarrow> x \<le> last xs"
  by (induction xs) auto

text \<open>No registered migrator is left that applies to the result.\<close>

lemma migrate_version_past:
  assumes "migrate_to_current ms c = Inr c'" and "v \<in> fst ` set ms"
  shows "v < cp_schema_version c'"
proof -
  let ?vs = "sort (filter (\<lambda>v. v \<ge> cp_schema_version c) (map fst ms))"
  from assms(1) obtain vars ver
    where loop: "migrate_loop ms ?vs (cp_variables c) (cp_schema_version c) = Inr (vars, ver)"
      and c': "cp_schema_version c' = ver"
    by (auto simp: migrate_to_current_def Let_def split: sum.splits)
  show ?thesis
  proof (cases "cp_schema_version c \<le> v")
    case True
    with assms(2) have mem: "v \<in> set ?vs" by auto
    then have "v \<le> last ?vs" by (intro sorted_last_ge) simp_all
    moreover from mem have "?vs \<noteq> []" by (metis empty_iff list.set(1))
    ultimately show ?thesis using migrate_loop_version [OF loop] c' by simp
  next
    case False
    have "cp_schema_version c \<le> ver"
    proof (cases "?vs = []")
      case True
      with migrate_loop_version [OF loop] show ?thesis by simp
    next
      case nonempty: False
      then have "last ?vs \<in> set ?vs" by (rule last_in_set)
      then have "cp_schema_version c \<le> last ?vs" by simp
      with nonempty migrate_loop_version [OF loop] show ?thesis by simp
    qed
    with False c' show ?thesis by simp
  qed
qed

lemma migrate_nothing_registered:
  assumes "\<And>v. v \<in> fst ` set ms \<Longrightarrow> v < cp_schema_version c"
  shows "migrate_to_current ms c = Inr c"
proof -
  have none: "filter (\<lambda>v. v \<ge> cp_schema_version c) (map fst ms) = []"
    using assms by (force simp: filter_empty_conv)
  show ?thesis unfolding migrate_to_current_def none Let_def by simp
qed

section \<open>Properties\<close>

text \<open>
  Migrating a checkpoint is idempotent: the result of a successful migration is at a version
  to which no registered migrator applies any more, so migrating it again gives the same checkpoint.
\<close>

lemma migration_is_idempotent:
  assumes "migrate_to_current ms c = Inr c'"
  shows "migrate_to_current ms c' = Inr c' \<and> (\<forall>v \<in> fst ` set ms. v < cp_schema_version c')"
  using migrate_version_past [OF assms] migrate_nothing_registered by blast

lemma migration_is_idempotent_witness:
  "migrate_to_current [(1, \<lambda>vars. Inr ((''b'', JInt 2) # vars))]
     \<lparr>cp_execution_id = 1, cp_tenant_id = 2, cp_step_name = ''s'', cp_step_index = 0,
      cp_variables = [(''b'', JInt 2), (''a'', JInt 1)], cp_state = [], cp_schema_version = 2\<rparr> =
   Inr \<lparr>cp_execution_id = 1, cp_tenant_id = 2, cp_step_name = ''s'', cp_step_index = 0,
      cp_variables = [(''b'', JInt 2), (''a'', JInt 1)], cp_state = [], cp_schema_version = 2\<rparr>"
  using migration_is_idempotent [of "[(1, \<lambda>vars. Inr ((''b'', JInt 2) # vars))]"
     "\<lparr>cp_execution_id = 1, cp_tenant_id = 2, cp_step_name = ''s'', cp_step_index = 0,
      cp_variables = [(''a'', JInt 1)], cp_state = [], cp_schema_version = 1\<rparr>"]
  by (simp add: migrate_to_current_def)

end
