(* ===== verification/State_Machine.thy ===== *)
theory State_Machine
  imports Core_Models
begin

text \<open>
  \<open>services/workflow-service/app/engine/state_machine.py\<close>: the transition table of an
  execution's status, \<open>ExecutionFSM.transition\<close> and \<open>can_transition\<close>, and the step
  relation it generates with its reachable states.
\<close>

definition TRANSITIONS :: "(execution_status \<times> (string \<times> execution_status) list) list" where
  "TRANSITIONS =
    [(PENDING, [(''submit'', RUNNING)]),
     (RUNNING, [(''all_steps_done'', COMPLETED),
                (''error'', PAUSED),
                (''cost_exceeded'', PAUSED),
                (''manual_pause'', PAUSED),
                (''fatal_error'', FAILED),
                (''max_retries_exceeded'', FAILED),
                (''cancel'', CANCELLED)]),
     (PAUSED, [(''resume'', PENDING),
               (''cancel'', CANCELLED)])]"

text \<open>\<open>_TRANSITIONS.get(status, {})\<close>\<close>

definition valid_triggers :: "execution_status \<Rightarrow> (string \<times> execution_status) list" where
  "valid_triggers st = (case map_of TRANSITIONS st of None \<Rightarrow> [] | Some d \<Rightarrow> d)"

fun py_repr_list :: "string list \<Rightarrow> string" where
  "py_repr_list [] = ''''"
| "py_repr_list [x] = CHR 0x27 # x @ [CHR 0x27]"
| "py_repr_list (x # y # xs) = CHR 0x27 # x @ [CHR 0x27] @ '', '' @ py_repr_list (y # xs)"

definition invalid_transition_message :: "execution_status \<Rightarrow> string \<Rightarrow> string" where
  "invalid_transition_message st trigger =
     ''Cannot apply trigger '' @ CHR 0x27 # trigger @ CHR 0x27 #
     '' to execution in state '' @ CHR 0x27 # status_value st @ CHR 0x27 # ''. Valid triggers: '' @
     (if valid_triggers st = [] then ''none (terminal state)''
      else ''['' @ py_repr_list (map fst (valid_triggers st)) @ '']'')"

definition transition :: "execution_status \<Rightarrow> string \<Rightarrow> exn + execution_status" where
  "transition st trigger =
     (case map_of (valid_triggers st) trigger of
        None \<Rightarrow> Inl (InvalidTransitionError (invalid_transition_message st trigger))
      | Some st' \<Rightarrow> Inr st')"

definition can_transition :: "execution_status \<Rightarrow> string \<Rightarrow> bool" where
  "can_transition st trigger = (trigger \<in> fst ` set (valid_triggers st))"

definition TERMINAL_STATUSES :: "execution_status list" where
  "TERMINAL_STATUSES = [COMPLETED, FAILED, CANCELLED]"

lemma valid_triggers_simps [simp]:
  "valid_triggers PENDING = [(''submit'', RUNNING)]"
  "valid_triggers RUNNING =
     [(''all_steps_done'', COMPLETED), (''error'', PAUSED), (''cost_exceeded'', PAUSED),
      (''manual_pause'', PAUSED), (''fatal_error'', FAILED), (''max_retries_exceeded'', FAILED),
      (''cancel'', CANCELLED)]"
  "valid_triggers PAUSED = [(''resume'', PENDING), (''cancel'', CANCELLED)]"
  "valid_triggers COMPLETED = []"
  "valid_triggers FAILED = []"
  "valid_triggers CANCELLED = []"
  by (simp_all add: valid_triggers_def TRANSITIONS_def)

lemma transition_Inr_iff: "transition st tr = Inr st' \<longleftrightarrow> map_of (valid_triggers st) tr = Some st'"
  by (simp add: transition_def split: option.splits)

lemma transition_Inl: "transition st tr = Inl e \<Longrightarrow> \<exists>m. e = InvalidTransitionError m"
  by (auto simp: transition_def split: option.splits)

lemma can_transition_iff: "can_transition st tr \<longleftrightarrow> (\<exists>st'. transition st tr = Inr st')"
  by (simp add: can_transition_def transition_Inr_iff flip: dom_map_of_conv_image_fst)
    (auto simp: dom_def)

lemma running_transitions [simp]:
  "transition RUNNING ''all_steps_done'' = Inr COMPLETED"
  "transition RUNNING ''error'' = Inr PAUSED"
  "transition RUNNING ''cost_exceeded'' = Inr PAUSED"
  "transition RUNNING ''manual_pause'' = Inr PAUSED"
  "transition RUNNING ''cancel'' = Inr CANCELLED"
  by (simp_all add: transition_def)

lemma transition_submit: "transition st ''submit'' = Inr st' \<longleftrightarrow> st = PENDING \<and> st' = RUNNING"
  by (cases st) (auto simp: transition_Inr_iff)

lemma transition_resume: "transition st ''resume'' = Inr st' \<longleftrightarrow> st = PAUSED \<and> st' = PENDING"
  by (cases st) (auto simp: transition_Inr_iff)

lemma transition_pause: "transition st ''manual_pause'' = Inr st' \<longleftrightarrow> st = RUNNING \<and> st' = PAUSED"
  by (cases st) (auto simp: transition_Inr_iff)

lemma transition_cancel:
  "transition st ''cancel'' = Inr st' \<longleftrightarrow> (st = RUNNING \<or> st = PAUSED) \<and> st' = CANCELLED"
  by (cases st) (auto simp: transition_Inr_iff)

text \<open>The step relation: one status follows another by some trigger.\<close>

inductive fsm_step :: "execution_status \<Rightarrow> execution_status \<Rightarrow> bool" where
  fire: "transition st tr = Inr st' \<Longrightarrow> fsm_step st st'"

inductive_cases fsm_stepE: "fsm_step st st'"

definition fsm_edges :: "(execution_status \<times> execution_status) list" where
  "fsm_edges = concat (map (\<lambda>(st, d). map (\<lambda>(_, st'). (st, st')) d) TRANSITIONS)"

lemma distinct_triggers: "distinct (map fst (valid_triggers st))"
  by (cases st) simp_all

lemma fsm_step_iff: "fsm_step st st' \<longleftrightarrow> st' \<in> snd ` set (valid_triggers st)"
proof
  assume "fsm_step st st'"
  then show "st' \<in> snd ` set (valid_triggers st)"
    by (auto elim!: fsm_stepE simp: transition_Inr_iff dest!: map_of_SomeD intro: rev_image_eqI)
next
  assume "st' \<in> snd ` set (valid_triggers st)"
  then obtain tr where "(tr, st') \<in> set (valid_triggers st)" by auto
  with distinct_triggers have "map_of (valid_triggers st) tr = Some st'" by (rule map_of_is_SomeI)
  then have "transition st tr = Inr st'" by (simp add: transition_Inr_iff)
  then show "fsm_step st st'" by (auto intro: fsm_step.fire)
qed

lemma terminal_no_step: "st \<in> set TERMINAL_STATUSES \<Longrightarrow> \<not> fsm_step st st'"
  by (auto simp: TERMINAL_STATUSES_def fsm_step_iff)

section \<open>Properties\<close>

text \<open>
  A terminal status is final: no sequence of triggers leads from COMPLETED, FAILED or
  CANCELLED to another status.
\<close>

lemma terminal_is_final:
  assumes "fsm_step\<^sup>*\<^sup>* st st'" and "st \<in> set TERMINAL_STATUSES"
  shows "st' = st"
  using assms by (induction rule: converse_rtranclp_induct) (auto dest: terminal_no_step)

end
