(* ===== verification/Cost_Tracker.thy ===== *)
theory Cost_Tracker
  imports Prelude
begin

text \<open>
  \<open>services/workflow-service/app/engine/cost_tracker.py\<close>. The tracker is polymorphic in the
  type of costs and needs of it only an addition and a comparison, with no law about them:
  what is proved holds for the floating-point numbers of the source, rounding and NaN
  included.
\<close>

record 'c cost_tracker =
  ct_max_per_execution :: 'c
  ct_max_per_day :: 'c
  ct_total :: 'c
  ct_daily_total :: 'c

definition new_cost_tracker :: "'c::zero \<Rightarrow> 'c \<Rightarrow> 'c cost_tracker" where
  "new_cost_tracker per_execution per_day =
     \<lparr>ct_max_per_execution = per_execution, ct_max_per_day = per_day, ct_total = 0,
      ct_daily_total = 0\<rparr>"

definition set_daily_total :: "'c \<Rightarrow> 'c cost_tracker \<Rightarrow> 'c cost_tracker" where
  "set_daily_total d t = t\<lparr>ct_daily_total := d\<rparr>"

definition cost_add :: "'c::{plus,ord} \<Rightarrow> 'c cost_tracker \<Rightarrow> exn + 'c cost_tracker" where
  "cost_add cost t =
     (let new_total = ct_total t + cost; new_daily = ct_daily_total t + cost
      in if new_total > ct_max_per_execution t
           then Inl (CostLimitExceeded ''exceeds per-execution limit'')
         else if new_daily > ct_max_per_day t
           then Inl (CostLimitExceeded ''exceeds daily limit'')
         else Inr (t\<lparr>ct_total := new_total, ct_daily_total := new_daily\<rparr>))"

text \<open>Costs added one after another until one is refused.\<close>

fun cost_add_all :: "'c::{plus,ord} list \<Rightarrow> 'c cost_tracker \<Rightarrow> (exn + unit) \<times> 'c cost_tracker" where
  "cost_add_all [] t = (Inr (), t)"
| "cost_add_all (c # cs) t =
     (case cost_add c t of Inl e \<Rightarrow> (Inl e, t) | Inr t' \<Rightarrow> cost_add_all cs t')"

definition within_limits :: "'c::ord cost_tracker \<Rightarrow> bool" where
  "within_limits t \<longleftrightarrow>
     \<not> ct_total t > ct_max_per_execution t \<and> \<not> ct_daily_total t > ct_max_per_day t"

lemma cost_add_within:
  "cost_add c t = Inr t' \<Longrightarrow> within_limits t' \<and> ct_total t' = ct_total t + c \<and>
     ct_daily_total t' = ct_daily_total t + c \<and>
     ct_max_per_execution t' = ct_max_per_execution t \<and> ct_max_per_day t' = ct_max_per_day t"
  by (auto simp: cost_add_def within_limits_def Let_def split: if_splits)

lemma cost_add_Inl: "cost_add c t = Inl e \<Longrightarrow> \<exists>m. e = CostLimitExceeded m"
  by (auto simp: cost_add_def Let_def split: if_splits)

lemma cost_add_all_within:
  "within_limits t \<Longrightarrow> within_limits (snd (cost_add_all cs t))"
  by (induction cs t rule: cost_add_all.induct) (auto split: sum.splits dest: cost_add_within)

lemma cost_add_all_limits:
  "ct_max_per_execution (snd (cost_add_all cs t)) = ct_max_per_execution t \<and>
   ct_max_per_day (snd (cost_add_all cs t)) = ct_max_per_day t"
  by (induction cs t rule: cost_add_all.induct) (auto split: sum.splits dest: cost_add_within)

lemma cost_add_all_total:
  "cost_add_all cs t = (Inr (), t') \<Longrightarrow> ct_total t' = foldl (+) (ct_total t) cs"
  by (induction cs t rule: cost_add_all.induct) (auto split: sum.splits dest: cost_add_within)

section \<open>Properties\<close>

text \<open>
  C12: A tracker that is within its limits stays within them whatever costs are added, up to the
  first one that is refused; a refused cost changes nothing, and the limits themselves never change.
  The proof uses no law of the addition or the comparison, so it holds for floating-point costs.
\<close>

lemma limits_are_kept:
  fixes t :: "'c::{plus,ord} cost_tracker"
  assumes "within_limits t"
  shows "within_limits (snd (cost_add_all cs t)) \<and>
    ct_max_per_execution (snd (cost_add_all cs t)) = ct_max_per_execution t \<and>
    ct_max_per_day (snd (cost_add_all cs t)) = ct_max_per_day t"
  using cost_add_all_within [OF assms] cost_add_all_limits by blast

lemma limits_are_kept_witness:
  "within_limits (snd (cost_add_all [3, 4, 5] (new_cost_tracker (10::rat) 100)))"
  using limits_are_kept [of "new_cost_tracker (10::rat) 100" "[3, 4, 5]"]
  by (simp add: within_limits_def new_cost_tracker_def)

end
