(* ===== verification/Redis.thy ===== *)
theory Redis
  imports Prelude
begin

text \<open>
  The Redis server is not part of the repository. The model takes its commands as a record
  of functions \<open>redis_ops\<close> over an abstract server state; the locale \<open>redis_kv\<close> states the
  documented behaviour of the commands that the source uses on string keys, through the
  observable contents \<open>view\<close> (value and remaining time to live in milliseconds). An
  in-memory keyspace interprets the locale, which shows that the laws can hold and gives
  the witnesses something to run on. A failing connection is not modelled here.
\<close>

record 'r redis_ops =
  r_set_nx_ex :: "string \<Rightarrow> string \<Rightarrow> nat \<Rightarrow> 'r \<Rightarrow> bool \<times> 'r"
  r_setex :: "string \<Rightarrow> nat \<Rightarrow> string \<Rightarrow> 'r \<Rightarrow> 'r"
  r_get :: "string \<Rightarrow> 'r \<Rightarrow> string option"
  r_del :: "string \<Rightarrow> 'r \<Rightarrow> 'r"
  r_expire :: "string \<Rightarrow> nat \<Rightarrow> 'r \<Rightarrow> 'r"
  r_incr :: "string \<Rightarrow> 'r \<Rightarrow> nat \<times> 'r"
  r_elapse :: "nat \<Rightarrow> 'r \<Rightarrow> 'r"

type_synonym keyspace = "string \<Rightarrow> (string \<times> nat option) option"

text \<open>What is left of an entry after \<open>d\<close> milliseconds.\<close>

fun age_entry :: "nat \<Rightarrow> (string \<times> nat option) option \<Rightarrow> (string \<times> nat option) option" where
  "age_entry d None = None"
| "age_entry d (Some (v, None)) = Some (v, None)"
| "age_entry d (Some (v, Some t)) = (if t \<le> d then None else Some (v, Some (t - d)))"

locale redis_kv =
  fixes R :: "'r redis_ops"
    and view :: "'r \<Rightarrow> keyspace"
  assumes set_nx_result: "0 < ttl \<Longrightarrow> fst (r_set_nx_ex R k v ttl r) = (view r k = None)"
    and set_nx_view: "0 < ttl \<Longrightarrow> view (snd (r_set_nx_ex R k v ttl r)) =
      (if view r k = None then (view r)(k \<mapsto> (v, Some (1000 * ttl))) else view r)"
    and setex_view: "0 < ttl \<Longrightarrow>
      view (r_setex R k ttl v r) = (view r)(k \<mapsto> (v, Some (1000 * ttl)))"
    and get_view: "r_get R k r = map_option fst (view r k)"
    and del_view: "view (r_del R k r) = (view r)(k := None)"
    and expire_view: "0 < ttl \<Longrightarrow> view (r_expire R k ttl r) =
      (case view r k of None \<Rightarrow> view r | Some (v, _) \<Rightarrow> (view r)(k \<mapsto> (v, Some (1000 * ttl))))"
    and incr_absent: "view r k = None \<Longrightarrow>
      fst (r_incr R k r) = 1 \<and> view (snd (r_incr R k r)) = (view r)(k \<mapsto> (str_nat 1, None))"
    and incr_present: "view r k = Some (str_nat n, t) \<Longrightarrow>
      fst (r_incr R k r) = Suc n \<and> view (snd (r_incr R k r)) = (view r)(k \<mapsto> (str_nat (Suc n), t))"
    and elapse_view: "view (r_elapse R d r) = (\<lambda>k. age_entry d (view r k))"
begin

lemmas kv_views = set_nx_view setex_view del_view expire_view elapse_view

end

section \<open>The in-memory keyspace\<close>

definition mem_redis :: "keyspace redis_ops" where
  "mem_redis =
     \<lparr>r_set_nx_ex = (\<lambda>k v ttl r. case r k of
         None \<Rightarrow> (True, r(k \<mapsto> (v, Some (1000 * ttl)))) | Some _ \<Rightarrow> (False, r)),
      r_setex = (\<lambda>k ttl v r. r(k \<mapsto> (v, Some (1000 * ttl)))),
      r_get = (\<lambda>k r. map_option fst (r k)),
      r_del = (\<lambda>k r. r(k := None)),
      r_expire = (\<lambda>k ttl r. case r k of
         None \<Rightarrow> r | Some (v, _) \<Rightarrow> r(k \<mapsto> (v, Some (1000 * ttl)))),
      r_incr = (\<lambda>k r. case r k of
         None \<Rightarrow> (1, r(k \<mapsto> (str_nat 1, None)))
       | Some (v, t) \<Rightarrow> (let n = Suc (dec_val 0 v) in (n, r(k \<mapsto> (str_nat n, t))))),
      r_elapse = (\<lambda>d r k. age_entry d (r k))\<rparr>"

interpretation mem: redis_kv mem_redis "\<lambda>r. r"
  by unfold_locales (auto simp: mem_redis_def Let_def fun_eq_iff split: option.splits)

end
