(* ===== verification/Redis_Lock.thy ===== *)
theory Redis_Lock
  imports Redis
begin

text \<open>
  \<open>packages/core/sutram_core/locking/redis_lock.py\<close>: acquiring, renewing and releasing a
  distributed lock. The commands of the Redis server are the argument \<open>R\<close>; the Lua release
  script and the heartbeat are the source's own. The locale \<open>lock_provider\<close> is the contract
  that the executor and the recovery handler rely on, and \<open>redis_kv\<close> provides it.
\<close>

section \<open>The operations\<close>

text \<open>The release script: GET and DEL in one atomic step.\<close>

definition release_script :: "'r redis_ops \<Rightarrow> string \<Rightarrow> string \<Rightarrow> 'r \<Rightarrow> 'r" where
  "release_script R key token r = (if r_get R key r = Some token then r_del R key r else r)"

definition lock_enter :: "'r redis_ops \<Rightarrow> string \<Rightarrow> string \<Rightarrow> nat \<Rightarrow> 'r \<Rightarrow> (exn + string) \<times> 'r" where
  "lock_enter R key token ttl r =
     (case r_set_nx_ex R key token ttl r of
        (False, r') \<Rightarrow> (Inl (LockAcquisitionError (''Could not acquire lock: '' @ key)), r')
      | (True, r') \<Rightarrow> (Inr token, r'))"

definition heartbeat_interval_ms :: "nat \<Rightarrow> nat" where
  "heartbeat_interval_ms ttl = max (500 * ttl) 1000"

text \<open>One round of \<open>_renew_heartbeat\<close> after its sleep: does the loop go on, and the new server state.\<close>

definition heartbeat_round :: "'r redis_ops \<Rightarrow> string \<Rightarrow> string \<Rightarrow> nat \<Rightarrow> 'r \<Rightarrow> bool \<times> 'r" where
  "heartbeat_round R key token ttl r =
     (case r_get R key r of
        None \<Rightarrow> (False, r)
      | Some current \<Rightarrow> if current = token then (True, r_expire R key ttl r) else (False, r))"

text \<open>
  \<open>async with lock.acquire(key, ttl)\<close>: the body runs only with the lock, and the lock is
  released on every exit. \<open>getr\<close> and \<open>putr\<close> say where the caller's state keeps the server.
\<close>

definition with_lock ::
  "('s \<Rightarrow> 'r) \<Rightarrow> ('r \<Rightarrow> 's \<Rightarrow> 's) \<Rightarrow> 'r redis_ops \<Rightarrow> string \<Rightarrow> string \<Rightarrow> nat \<Rightarrow>
     ('s, 'a) py \<Rightarrow> ('s, 'a) py" where
  "with_lock getr putr R key token ttl body =
     (\<lambda>s. case lock_enter R key token ttl (getr s) of
            (Inl e, r') \<Rightarrow> (Inl e, putr r' s)
          | (Inr _, r') \<Rightarrow>
              (case body (putr r' s) of
                 (res, s') \<Rightarrow> (res, putr (release_script R key token (getr s')) s')))"

section \<open>The contract\<close>

locale lock_provider =
  fixes enter :: "string \<Rightarrow> string \<Rightarrow> nat \<Rightarrow> 'r \<Rightarrow> (exn + string) \<times> 'r"
    and leave :: "string \<Rightarrow> string \<Rightarrow> 'r \<Rightarrow> 'r"
    and owner :: "'r \<Rightarrow> string \<Rightarrow> string option"
  assumes enter_free: "0 < ttl \<Longrightarrow> owner r k = None \<Longrightarrow> enter k t ttl r = (res, r') \<Longrightarrow>
      res = Inr t \<and> owner r' = (owner r)(k \<mapsto> t)"
    and enter_held: "0 < ttl \<Longrightarrow> owner r k \<noteq> None \<Longrightarrow> enter k t ttl r = (res, r') \<Longrightarrow>
      res = Inl (LockAcquisitionError (''Could not acquire lock: '' @ k)) \<and> owner r' = owner r"
    and leave_own: "owner r k = Some t \<Longrightarrow> owner (leave k t r) = (owner r)(k := None)"
    and leave_other: "owner r k \<noteq> Some t \<Longrightarrow> owner (leave k t r) = owner r"
begin

lemma leave_never_steals: "owner r k = Some t' \<Longrightarrow> t' \<noteq> t \<Longrightarrow> owner (leave k t r) k = Some t'"
  by (simp add: leave_other)

lemma enter_excludes:
  assumes "0 < ttl" and "enter k t ttl r = (Inr x, r')" and "enter k t' ttl r' = (res, r'')"
  shows "\<exists>m. res = Inl (LockAcquisitionError m)"
proof -
  from assms(1,2) have "owner r k = None" using enter_held by blast
  with assms(1,2) have "owner r' k = Some t" using enter_free by fastforce
  with assms(1,3) show ?thesis using enter_held by blast
qed

lemma enter_leave:
  assumes "0 < ttl" and "enter k t ttl r = (Inr x, r')"
  shows "owner (leave k t r') = owner r"
proof -
  from assms have free: "owner r k = None" using enter_held by blast
  with assms have "owner r' = (owner r)(k \<mapsto> t)" using enter_free by blast
  then have "owner (leave k t r') = (owner r)(k := None)" by (simp add: leave_own)
  with free show ?thesis by (simp add: fun_upd_idem)
qed

end

definition lock_owner :: "'r redis_ops \<Rightarrow> 'r \<Rightarrow> string \<Rightarrow> string option" where
  "lock_owner R r k = r_get R k r"

sublocale redis_kv \<subseteq> lk: lock_provider "lock_enter R" "release_script R" "lock_owner R"
proof unfold_locales
  fix ttl r k t res r'
  assume "0 < ttl" and "lock_owner R r k = None" and "lock_enter R k t ttl r = (res, r')"
  then show "res = Inr t \<and> lock_owner R r' = (lock_owner R r)(k \<mapsto> t)"
    using set_nx_result [of ttl k t r] set_nx_view [of ttl k t r]
    by (auto simp: lock_owner_def lock_enter_def get_view fun_eq_iff split: prod.splits bool.splits)
next
  fix ttl r k t res r'
  assume "0 < ttl" and "lock_owner R r k \<noteq> None" and "lock_enter R k t ttl r = (res, r')"
  then show "res = Inl (LockAcquisitionError (''Could not acquire lock: '' @ k)) \<and>
      lock_owner R r' = lock_owner R r"
    using set_nx_result [of ttl k t r] set_nx_view [of ttl k t r]
    by (auto simp: lock_owner_def lock_enter_def get_view fun_eq_iff split: prod.splits bool.splits)
next
  fix r k t
  assume "lock_owner R r k = Some t"
  then show "lock_owner R (release_script R k t r) = (lock_owner R r)(k := None)"
    by (auto simp: lock_owner_def release_script_def get_view del_view fun_eq_iff)
next
  fix r k t
  assume "lock_owner R r k \<noteq> Some t"
  then show "lock_owner R (release_script R k t r) = lock_owner R r"
    by (auto simp: lock_owner_def release_script_def get_view fun_eq_iff)
qed

section \<open>Running a body under the lock\<close>

context redis_kv
begin

lemmas lock_enter_free = lk.enter_free
lemmas lock_enter_held = lk.enter_held
lemmas lock_leave_own = lk.leave_own
lemmas lock_leave_other = lk.leave_other
lemmas lock_never_stolen = lk.leave_never_steals

text \<open>Giving back a lock that was taken while it was free.\<close>

lemma release_own_lock:
  assumes "lock_owner R r k = None" and "lock_owner R r' = (lock_owner R r)(k \<mapsto> t)"
  shows "lock_owner R (release_script R k t r') = lock_owner R r"
proof -
  have "lock_owner R (release_script R k t r') = (lock_owner R r')(k := None)"
    using assms(2) by (intro lk.leave_own) simp
  with assms show ?thesis by (simp add: fun_upd_idem)
qed

lemma with_lock_held:
  assumes "0 < ttl" and "lock_owner R (getr s) k \<noteq> None"
  shows "\<exists>r'. with_lock getr putr R k token ttl body s =
    (Inl (LockAcquisitionError (''Could not acquire lock: '' @ k)), putr r' s)"
proof -
  obtain res r' where enter: "lock_enter R k token ttl (getr s) = (res, r')" by fastforce
  with assms have "res = Inl (LockAcquisitionError (''Could not acquire lock: '' @ k))"
    using lk.enter_held by blast
  with enter show ?thesis by (auto simp: with_lock_def)
qed

lemma with_lock_free:
  assumes "0 < ttl" and "lock_owner R (getr s) k = None"
  obtains r' where "lock_owner R r' = (lock_owner R (getr s))(k \<mapsto> token)"
    and "with_lock getr putr R k token ttl body s =
      (case body (putr r' s) of
         (res, s') \<Rightarrow> (res, putr (release_script R k token (getr s')) s'))"
proof -
  obtain res r' where enter: "lock_enter R k token ttl (getr s) = (res, r')" by fastforce
  with assms have "res = Inr token \<and> lock_owner R r' = (lock_owner R (getr s))(k \<mapsto> token)"
    using lk.enter_free by blast
  with that [of r'] enter show ?thesis by (simp add: with_lock_def)
qed

text \<open>A body that leaves the server alone gives the lock back as it found it.\<close>

lemma with_lock_released:
  assumes "0 < ttl" and "\<And>s. getr (snd (body s)) = getr s" and "\<And>r s. getr (putr r s) = r"
  shows "lock_owner R (getr (snd (with_lock getr putr R k token ttl body s))) = lock_owner R (getr s)"
proof (cases "lock_enter R k token ttl (getr s)")
  case (Pair res r')
  show ?thesis
  proof (cases res)
    case (Inl e)
    have held: "lock_owner R (getr s) k \<noteq> None"
      using lk.enter_free [OF assms(1) _ Pair] Inl by auto
    have "lock_owner R r' = lock_owner R (getr s)"
      using lk.enter_held [OF assms(1) held Pair] by simp
    with Pair Inl assms(3) show ?thesis by (simp add: with_lock_def)
  next
    case (Inr t)
    then have "lock_owner R (release_script R k token r') = lock_owner R (getr s)"
      using lk.enter_leave [OF assms(1)] Pair by simp
    moreover have "getr (snd (body (putr r' s))) = r'" using assms(2,3) by simp
    ultimately show ?thesis
      using Pair Inr assms(3) by (cases "body (putr r' s)") (simp add: with_lock_def)
  qed
qed

end

end
