(* ===== verification/Events.thy ===== *)
theory Events
  imports Core_Models
begin

text \<open>
  The event classes of \<open>packages/core/sutram_core/events\<close> and their flat form for Redis
  Streams. An event is the record of \<open>BaseEvent\<close>'s fields with one constructor per
  subclass for the fields that the subclass adds, in the order the class declares them.
\<close>

datatype event_body =
    ExecutionStarted uuid uuid
      \<comment> \<open>execution_id, workflow_id\<close>
  | StepCompleted uuid uuid string nat nat rat variables
      \<comment> \<open>execution_id, workflow_id, step_name, step_index, duration_ms, cost_usd, outputs\<close>
  | StepFailed uuid uuid string nat string string bool
      \<comment> \<open>execution_id, workflow_id, step_name, step_index, error_type, error_message, will_retry\<close>
  | ExecutionCompleted uuid uuid execution_status nat rat nat
      \<comment> \<open>execution_id, workflow_id, status, total_duration_ms, total_cost_usd, total_steps\<close>
  | ExecutionPaused uuid uuid string string
      \<comment> \<open>execution_id, workflow_id, pause_reason, paused_at_step\<close>
  | MemoryWritten uuid memory_type
      \<comment> \<open>memory_item_id, memory_type\<close>
  | MemorySearched string nat nat bool
      \<comment> \<open>query_hash, results_count, latency_ms, cache_hit\<close>

record event =
  ev_trace_id :: uuid
  ev_tenant_id :: uuid
  ev_timestamp :: nat
  ev_schema_version :: int
  ev_body :: event_body

fun event_type :: "event_body \<Rightarrow> string" where
  "event_type (ExecutionStarted _ _) = ''execution.started''"
| "event_type (StepCompleted _ _ _ _ _ _ _) = ''execution.step.completed''"
| "event_type (StepFailed _ _ _ _ _ _ _) = ''execution.step.failed''"
| "event_type (ExecutionCompleted _ _ _ _ _ _) = ''execution.completed''"
| "event_type (ExecutionPaused _ _ _ _) = ''execution.paused''"
| "event_type (MemoryWritten _ _) = ''memory.written''"
| "event_type (MemorySearched _ _ _ _) = ''memory.searched''"

section \<open>The flat form\<close>

text \<open>
  What \<open>model_dump\<close> leaves in a field. \<open>str\<close> of a float and of a datetime and
  \<open>json.dumps\<close> are the arguments of the encoding.
\<close>

datatype pyval =
    VStr string | VUuid uuid | VNat nat | VInt int | VFloat rat | VBool bool | VTime nat
  | VStatus execution_status | VMemoryType memory_type | VDict variables

record text_format =
  tf_float :: "rat \<Rightarrow> string"
  tf_time :: "nat \<Rightarrow> string"
  tf_dumps :: "variables \<Rightarrow> string"

definition str_int :: "int \<Rightarrow> string" where
  "str_int i = (if i < 0 then CHR ''-'' # str_nat (nat (- i)) else str_nat (nat i))"

fun flat_value :: "text_format \<Rightarrow> pyval \<Rightarrow> string" where
  "flat_value F (VDict d) = tf_dumps F d"
| "flat_value F (VStr s) = s"
| "flat_value F (VUuid u) = uuid_str u"
| "flat_value F (VNat n) = str_nat n"
| "flat_value F (VInt i) = str_int i"
| "flat_value F (VFloat r) = tf_float F r"
| "flat_value F (VBool b) = (if b then ''True'' else ''False'')"
| "flat_value F (VTime t) = tf_time F t"
| "flat_value F (VStatus s) = status_value s"
| "flat_value F (VMemoryType m) = memory_type_value m"

fun body_fields :: "event_body \<Rightarrow> (string \<times> pyval) list" where
  "body_fields (ExecutionStarted e w) =
     [(''execution_id'', VUuid e), (''workflow_id'', VUuid w)]"
| "body_fields (StepCompleted e w n i d c outs) =
     [(''execution_id'', VUuid e), (''workflow_id'', VUuid w), (''step_name'', VStr n),
      (''step_index'', VNat i), (''duration_ms'', VNat d), (''cost_usd'', VFloat c),
      (''outputs'', VDict outs)]"
| "body_fields (StepFailed e w n i t m r) =
     [(''execution_id'', VUuid e), (''workflow_id'', VUuid w), (''step_name'', VStr n),
      (''step_index'', VNat i), (''error_type'', VStr t), (''error_message'', VStr m),
      (''will_retry'', VBool r)]"
| "body_fields (ExecutionCompleted e w s d c n) =
     [(''execution_id'', VUuid e), (''workflow_id'', VUuid w), (''status'', VStatus s),
      (''total_duration_ms'', VNat d), (''total_cost_usd'', VFloat c), (''total_steps'', VNat n)]"
| "body_fields (ExecutionPaused e w r s) =
     [(''execution_id'', VUuid e), (''workflow_id'', VUuid w), (''pause_reason'', VStr r),
      (''paused_at_step'', VStr s)]"
| "body_fields (MemoryWritten i t) =
     [(''memory_item_id'', VUuid i), (''memory_type'', VMemoryType t)]"
| "body_fields (MemorySearched q n l h) =
     [(''query_hash'', VStr q), (''results_count'', VNat n), (''latency_ms'', VNat l),
      (''cache_hit'', VBool h)]"

definition model_dump :: "event \<Rightarrow> (string \<times> pyval) list" where
  "model_dump ev =
     [(''event_type'', VStr (event_type (ev_body ev))), (''trace_id'', VUuid (ev_trace_id ev)),
      (''tenant_id'', VUuid (ev_tenant_id ev)), (''timestamp'', VTime (ev_timestamp ev)),
      (''schema_version'', VInt (ev_schema_version ev))] @ body_fields (ev_body ev)"

definition to_stream_dict :: "text_format \<Rightarrow> event \<Rightarrow> (string \<times> string) list" where
  "to_stream_dict F ev = map (\<lambda>(k, v). (k, flat_value F v)) (model_dump ev)"

lemma map_of_flat: "map_of (map (\<lambda>(k, v). (k, f v)) xs) k = map_option f (map_of xs k)"
  by (induction xs) auto

lemma stream_dict_lookup:
  "map_of (to_stream_dict F ev) k = map_option (flat_value F) (map_of (model_dump ev) k)"
  unfolding to_stream_dict_def by (rule map_of_flat)

lemma stream_dict_event_type:
  "map_of (to_stream_dict F ev) ''event_type'' = Some (event_type (ev_body ev))"
  by (simp add: stream_dict_lookup model_dump_def)

lemma distinct_body_fields: "distinct (map fst (body_fields b))"
  by (cases b) simp_all

lemma distinct_model_dump: "distinct (map fst (model_dump ev))"
  by (cases "ev_body ev") (simp_all add: model_dump_def)

end
