(* ===== verification/Workflow_Db.thy ===== *)
theory Workflow_Db
  imports Core_Models
begin

text \<open>
  The tables of \<open>services/workflow-service/app/models/orm.py\<close> and their row-level security
  (\<open>alembic/versions/001_initial_schema.py\<close>, \<open>002_force_rls.py\<close>). JSONB columns hold the
  model that the code dumps into them. \<open>created_at\<close> and \<open>updated_at\<close>, which no code of
  the service reads, are left out.
\<close>

section \<open>Row-level security\<close>

text \<open>
  What the policies read of a transaction: whether its role bypasses them (a superuser or
  BYPASSRLS), and the setting \<open>app.current_tenant_id\<close>, NULL when it is not set.
\<close>

record rls_ctx =
  rls_bypass :: bool
  rls_tenant :: "uuid option"

text \<open>\<open>USING (tenant_id = current_setting('app.current_tenant_id', true)::uuid)\<close>\<close>

definition tenant_isolation :: "rls_ctx \<Rightarrow> uuid \<Rightarrow> bool" where
  "tenant_isolation c tid \<longleftrightarrow> rls_bypass c \<or> rls_tenant c = Some tid"

definition set_tenant_context :: "uuid \<Rightarrow> rls_ctx \<Rightarrow> rls_ctx" where
  "set_tenant_context tid c = c\<lparr>rls_tenant := Some tid\<rparr>"

text \<open>\<open>SET LOCAL\<close> lasts until the transaction ends.\<close>

definition end_transaction :: "rls_ctx \<Rightarrow> rls_ctx" where
  "end_transaction c = c\<lparr>rls_tenant := None\<rparr>"

text \<open>The context of a request handler that has called \<open>set_tenant_context\<close>.\<close>

abbreviation tenant_ctx :: "bool \<Rightarrow> uuid \<Rightarrow> rls_ctx" where
  "tenant_ctx byp tid \<equiv> set_tenant_context tid \<lparr>rls_bypass = byp, rls_tenant = None\<rparr>"

definition select_rows :: "rls_ctx \<Rightarrow> ('a \<Rightarrow> uuid) \<Rightarrow> ('a \<Rightarrow> bool) \<Rightarrow> 'a list \<Rightarrow> 'a list" where
  "select_rows c tenant_of P rows = filter (\<lambda>r. tenant_isolation c (tenant_of r) \<and> P r) rows"

lemma tenant_isolation_ctx [simp]:
  "tenant_isolation (tenant_ctx byp tid) t \<longleftrightarrow> byp \<or> t = tid"
  by (auto simp: tenant_isolation_def set_tenant_context_def)

lemma select_rows_subset: "set (select_rows c t P rows) \<subseteq> set rows"
  by (auto simp: select_rows_def)

lemma select_rows_no_context:
  "\<not> rls_bypass c \<Longrightarrow> rls_tenant c = None \<Longrightarrow> select_rows c t P rows = []"
  by (simp add: select_rows_def tenant_isolation_def filter_empty_conv)

lemma select_rows_tenant:
  "\<not> rls_bypass c \<Longrightarrow> rls_tenant c = Some tid \<Longrightarrow> r \<in> set (select_rows c t P rows) \<Longrightarrow> t r = tid"
  by (simp add: select_rows_def tenant_isolation_def)

lemma select_rows_key:
  assumes "distinct (map k rows)" and "r \<in> set rows"
  shows "select_rows c t (\<lambda>x. k x = k r \<and> P x) rows = (if tenant_isolation c (t r) \<and> P r then [r] else [])"
  using filter_unique [OF assms, of "\<lambda>x. tenant_isolation c (t x) \<and> P x"]
  by (simp add: select_rows_def conj_ac)

lemma select_rows_id:
  assumes "distinct (map k rows)" and "r \<in> set rows"
  shows "select_rows c t (\<lambda>x. k x = k r) rows = (if tenant_isolation c (t r) then [r] else [])"
  using select_rows_key [OF assms, of c t "\<lambda>_. True"] by simp

section \<open>Rows\<close>

record tenant_row =
  tn_id :: uuid
  tn_name :: string
  tn_settings :: variables

record workflow_row =
  wf_id :: uuid
  wf_tenant_id :: uuid
  wf_name :: string
  wf_description :: string
  wf_definition :: workflow_definition
  wf_version :: int

record exec_row =
  ex_id :: uuid
  ex_tenant_id :: uuid
  ex_workflow_id :: uuid
  ex_status :: execution_status
  ex_context :: execution_context
  ex_error_message :: "string option"
  ex_pause_reason :: "string option"
  ex_last_heartbeat :: "nat option"
  ex_definition_snapshot :: "workflow_definition option"

record ckpt_row =
  ck_id :: uuid
  ck_execution_id :: uuid
  ck_tenant_id :: uuid
  ck_step_name :: string
  ck_step_index :: nat
  ck_variables :: variables
  ck_state :: variables
  ck_schema_version :: int

record wf_db =
  db_tenants :: "tenant_row list"
  db_workflows :: "workflow_row list"
  db_executions :: "exec_row list"
  db_checkpoints :: "ckpt_row list"

text \<open>The primary keys are unique.\<close>

definition wf_db_ok :: "wf_db \<Rightarrow> bool" where
  "wf_db_ok db \<longleftrightarrow> distinct (map tn_id (db_tenants db)) \<and> distinct (map wf_id (db_workflows db)) \<and>
     distinct (map ex_id (db_executions db)) \<and> distinct (map ck_id (db_checkpoints db))"

definition put_execution :: "exec_row \<Rightarrow> wf_db \<Rightarrow> wf_db" where
  "put_execution ex db = db\<lparr>db_executions :=
     update_rows (\<lambda>r. ex_id r = ex_id ex) (\<lambda>_. ex) (db_executions db)\<rparr>"

lemma put_execution_ids [simp]:
  "map ex_id (db_executions (put_execution ex db)) = map ex_id (db_executions db)"
  by (simp add: put_execution_def update_rows_def)

lemma put_execution_ok: "wf_db_ok db \<Longrightarrow> wf_db_ok (put_execution ex db)"
  by (simp add: wf_db_ok_def) (simp add: put_execution_def)

lemma put_execution_others:
  "r \<in> set (db_executions (put_execution ex db)) \<Longrightarrow> r = ex \<or> r \<in> set (db_executions db)"
  by (auto simp: put_execution_def update_rows_def)

end
