(* ===== verification/Executor.thy ===== *)
theory Executor
  imports State_Machine Cost_Tracker Redis_Lock Events Workflow_Db
begin

text \<open>
  The execution engine: \<open>engine/executor.py\<close> with \<open>engine/checkpoint.py\<close>.

  A run works on one execution row. Its state \<open>exec_world\<close> holds the committed row, the ORM
  instance, the values the instance was last loaded or flushed with, and the version its open
  transaction has written, if any. A flush writes the columns that differ from the loaded
  ones; the open transaction then holds the row's lock until it commits or rolls back, so
  other sessions change the row only while there is none. What other sessions, the clocks,
  \<open>uuid4\<close> and the stream server do is the environment \<open>exec_env\<close>; every interaction with
  it takes the next tick.
\<close>

section \<open>State\<close>

record exec_env =
  ee_wall :: "nat \<Rightarrow> nat"
  ee_mono :: "nat \<Rightarrow> nat"
  ee_uuid :: "nat \<Rightarrow> uuid"
  ee_xadd :: "nat \<Rightarrow> exn option"
    \<comment> \<open>the exception that publishing at this tick raises\<close>
  ee_others :: "nat \<Rightarrow> exec_row \<Rightarrow> exec_row"
    \<comment> \<open>what other sessions have committed to the row by this tick\<close>
  ee_max_per_execution :: rat
  ee_max_per_day :: rat

record 'r exec_world =
  xw_disk :: exec_row
  xw_row :: exec_row
  xw_loaded :: exec_row
  xw_tx :: "exec_row option"
  xw_disk_ckpts :: "ckpt_row list"
  xw_new_ckpts :: "ckpt_row list"
  xw_locks :: 'r
  xw_sent :: "(string \<times> event) list"
  xw_tick :: nat
  xw_ctx :: execution_context
  xw_cost :: "rat cost_tracker"
  xw_step_name :: string

section \<open>The database session\<close>

definition merge_columns :: "exec_row \<Rightarrow> exec_row \<Rightarrow> exec_row \<Rightarrow> exec_row" where
  "merge_columns row loaded base = base
     \<lparr>ex_status := (if ex_status row = ex_status loaded then ex_status base else ex_status row),
      ex_context := (if ex_context row = ex_context loaded then ex_context base else ex_context row),
      ex_error_message := (if ex_error_message row = ex_error_message loaded
                           then ex_error_message base else ex_error_message row),
      ex_pause_reason := (if ex_pause_reason row = ex_pause_reason loaded
                          then ex_pause_reason base else ex_pause_reason row),
      ex_last_heartbeat := (if ex_last_heartbeat row = ex_last_heartbeat loaded
                            then ex_last_heartbeat base else ex_last_heartbeat row)\<rparr>"

definition flush_row :: "exec_env \<Rightarrow> 'r exec_world \<Rightarrow> 'r exec_world" where
  "flush_row E w =
     (if xw_row w = xw_loaded w then w
      else case xw_tx w of
        Some r \<Rightarrow> w\<lparr>xw_tx := Some (merge_columns (xw_row w) (xw_loaded w) r),
                    xw_loaded := xw_row w\<rparr>
      | None \<Rightarrow>
          let d = ee_others E (xw_tick w) (xw_disk w)
          in w\<lparr>xw_disk := d, xw_tx := Some (merge_columns (xw_row w) (xw_loaded w) d),
               xw_loaded := xw_row w, xw_tick := Suc (xw_tick w)\<rparr>)"

definition refresh_row :: "exec_env \<Rightarrow> 'r exec_world \<Rightarrow> 'r exec_world" where
  "refresh_row E w =
     (case xw_tx w of
        Some r \<Rightarrow> w\<lparr>xw_row := r, xw_loaded := r\<rparr>
      | None \<Rightarrow>
          let d = ee_others E (xw_tick w) (xw_disk w)
          in w\<lparr>xw_disk := d, xw_row := d, xw_loaded := d, xw_tick := Suc (xw_tick w)\<rparr>)"

definition commit_tx :: "exec_env \<Rightarrow> 'r exec_world \<Rightarrow> 'r exec_world" where
  "commit_tx E w =
     (let w' = flush_row E w
      in w'\<lparr>xw_disk := (case xw_tx w' of None \<Rightarrow> xw_disk w' | Some r \<Rightarrow> r), xw_tx := None,
            xw_disk_ckpts := xw_disk_ckpts w' @ xw_new_ckpts w', xw_new_ckpts := []\<rparr>)"

definition rollback_tx :: "'r exec_world \<Rightarrow> 'r exec_world" where
  "rollback_tx w = w\<lparr>xw_tx := None, xw_new_ckpts := []\<rparr>"

definition tick_value :: "(nat \<Rightarrow> 'a) \<Rightarrow> ('r exec_world, 'a) py" where
  "tick_value f = (\<lambda>w. (Inr (f (xw_tick w)), w\<lparr>xw_tick := Suc (xw_tick w)\<rparr>))"

section \<open>Checkpoints\<close>

definition should_checkpoint :: "step_config \<Rightarrow> bool" where
  "should_checkpoint c = sc_checkpoint_before c"

definition write_checkpoint :: "exec_env \<Rightarrow> string \<Rightarrow> nat \<Rightarrow> ('r exec_world, unit) py" where
  "write_checkpoint E name i =
     andthen (tick_value (ee_uuid E)) (\<lambda>u.
       modify (\<lambda>w. let w' = flush_row E w in
         w'\<lparr>xw_new_ckpts := xw_new_ckpts w' @
           [\<lparr>ck_id = u, ck_execution_id = ex_id (xw_row w'), ck_tenant_id = ex_tenant_id (xw_row w'),
             ck_step_name = name, ck_step_index = i, ck_variables = ctx_variables (xw_ctx w'),
             ck_state = [], ck_schema_version = 1\<rparr>]\<rparr>))"

text \<open>\<open>ORDER BY step_index DESC LIMIT 1\<close>: the first row with the highest index.\<close>

fun best_checkpoint :: "ckpt_row option \<Rightarrow> ckpt_row list \<Rightarrow> ckpt_row option" where
  "best_checkpoint b [] = b"
| "best_checkpoint None (c # cs) = best_checkpoint (Some c) cs"
| "best_checkpoint (Some b) (c # cs) =
     best_checkpoint (Some (if ck_step_index b < ck_step_index c then c else b)) cs"

definition get_latest :: "uuid \<Rightarrow> ckpt_row list \<Rightarrow> ckpt_row option" where
  "get_latest eid cs = best_checkpoint None (filter (\<lambda>c. ck_execution_id c = eid) cs)"

section \<open>The engine\<close>

definition check_not_terminal :: "execution_status \<Rightarrow> exn + unit" where
  "check_not_terminal st =
     (if st \<in> set TERMINAL_STATUSES
      then Inl (ExecutionAlreadyTerminal
        (''Execution is already in terminal state '' @ CHR 0x27 # status_value st @
         CHR 0x27 # ''. This appears to be a stale Celery redelivery (acks_late). Ignoring.''))
      else Inr ())"

definition lock_key :: "uuid \<Rightarrow> string" where
  "lock_key eid = ''execution:'' @ uuid_str eid @ '':lock''"

definition sse_stream :: "uuid \<Rightarrow> string" where
  "sse_stream eid = ''execution:'' @ uuid_str eid"

definition xadd :: "exec_env \<Rightarrow> string \<Rightarrow> event \<Rightarrow> ('r exec_world, unit) py" where
  "xadd E stream ev = andthen (tick_value (ee_xadd E)) (\<lambda>failure.
     case failure of
       Some e \<Rightarrow> throw e
     | None \<Rightarrow> modify (\<lambda>w. w\<lparr>xw_sent := xw_sent w @ [(stream, ev)]\<rparr>))"

text \<open>An event with the defaults of \<open>BaseEvent\<close>, published to both streams.\<close>

definition publish :: "exec_env \<Rightarrow> event_body \<Rightarrow> ('r exec_world, unit) py" where
  "publish E body =
     andthen (tick_value (ee_uuid E)) (\<lambda>tr.
     andthen (tick_value (ee_wall E)) (\<lambda>now.
     andthen (gets xw_row) (\<lambda>ex.
       let ev = \<lparr>ev_trace_id = tr, ev_tenant_id = ex_tenant_id ex, ev_timestamp = now,
                 ev_schema_version = 1, ev_body = body\<rparr>
       in seq (xadd E ''executions'' ev) (xadd E (sse_stream (ex_id ex)) ev))))"

text \<open>\<open>None\<close> stands for the keyword left out, \<open>Some x\<close> for the column set to \<open>x\<close>.\<close>

definition update_status ::
  "exec_env \<Rightarrow> execution_status \<Rightarrow> string option option \<Rightarrow> string option option \<Rightarrow>
     ('r exec_world, unit) py" where
  "update_status E st err reason =
     andthen (tick_value (ee_wall E)) (\<lambda>now.
       modify (\<lambda>w. flush_row E (w\<lparr>xw_row := (xw_row w)
         \<lparr>ex_status := st, ex_last_heartbeat := Some now,
          ex_error_message := (case err of None \<Rightarrow> ex_error_message (xw_row w) | Some m \<Rightarrow> m),
          ex_pause_reason := (case reason of None \<Rightarrow> ex_pause_reason (xw_row w) | Some m \<Rightarrow> m)\<rparr>\<rparr>)))"

text \<open>The checkpoint before an expensive step, then the simulated step itself.\<close>

definition checkpoint_before_step :: "exec_env \<Rightarrow> nat \<Rightarrow> step_config \<Rightarrow> ('r exec_world, unit) py" where
  "checkpoint_before_step E i cfg =
     (if should_checkpoint cfg
      then seq (write_checkpoint E (sc_name cfg) i) (modify (commit_tx E))
      else ret ())"

definition step_work :: "exec_env \<Rightarrow> nat \<Rightarrow> string \<Rightarrow> ('r exec_world, unit) py" where
  "step_work E i name =
     andthen (tick_value (ee_mono E)) (\<lambda>t0.
       let step_cost = (0::rat);
           step_outputs = [(''simulated'', JBool True), (''step'', JStr name)] in
       andthen (gets xw_cost) (\<lambda>tracker.
       andthen (liftsum (cost_add step_cost tracker)) (\<lambda>tracker'.
       seq (modify (\<lambda>w. w\<lparr>xw_cost := tracker'\<rparr>))
       (andthen (tick_value (ee_mono E)) (\<lambda>t1.
       seq (modify (\<lambda>w. w\<lparr>xw_ctx := (xw_ctx w)
              \<lparr>ctx_current_step_index := i + 1,
               ctx_total_cost_usd := ctx_total_cost_usd (xw_ctx w) + step_cost\<rparr>\<rparr>))
       (seq (modify (\<lambda>w. w\<lparr>xw_row := (xw_row w)\<lparr>ex_context := xw_ctx w\<rparr>\<rparr>))
       (andthen (gets xw_row) (\<lambda>ex.
       seq (publish E (StepCompleted (ex_id ex) (ex_workflow_id ex) name i (t1 - t0)
              step_cost step_outputs))
       (modify (flush_row E))))))))))"

text \<open>One iteration of the step loop; the result says whether the loop goes on.\<close>

definition run_step :: "exec_env \<Rightarrow> nat \<times> workflow_step \<Rightarrow> ('r exec_world, bool) py" where
  "run_step E istep = (case istep of (i, step) \<Rightarrow>
     seq (modify (refresh_row E))
     (andthen (gets (ex_status \<circ> xw_row)) (\<lambda>st.
       if st \<in> {PAUSED, CANCELLED} then ret False
       else
         let name = sc_name (ws_config step) in
         seq (modify (\<lambda>w. w\<lparr>xw_step_name := name\<rparr>))
         (seq (checkpoint_before_step E i (ws_config step))
         (seq (step_work E i name) (ret True))))))"

fun step_loop :: "exec_env \<Rightarrow> (nat \<times> workflow_step) list \<Rightarrow> ('r exec_world, bool) py" where
  "step_loop E [] = ret True"
| "step_loop E (x # xs) = andthen (run_step E x) (\<lambda>go. if go then step_loop E xs else ret False)"

text \<open>The two \<open>except\<close> clauses of the step loop.\<close>

definition pause_run ::
  "exec_env \<Rightarrow> string \<Rightarrow> string option option \<Rightarrow> string option option \<Rightarrow> string \<Rightarrow>
     ('r exec_world, bool) py" where
  "pause_run E trigger err reason event_reason =
     andthen (liftsum (transition RUNNING trigger)) (\<lambda>_.
     seq (update_status E PAUSED err reason)
     (andthen (gets xw_row) (\<lambda>ex.
      andthen (gets xw_step_name) (\<lambda>name.
      seq (publish E (ExecutionPaused (ex_id ex) (ex_workflow_id ex) event_reason name))
      (seq (modify (commit_tx E)) (ret False))))))"

definition loop_exception :: "exec_env \<Rightarrow> exn \<Rightarrow> ('r exec_world, bool) py" where
  "loop_exception E exc =
     (case exc of
        CostLimitExceeded _ \<Rightarrow>
          pause_run E ''cost_exceeded'' None (Some (Some ''cost_limit_exceeded'')) ''cost_limit_exceeded''
      | _ \<Rightarrow> pause_run E ''error'' (Some (Some (exn_str exc))) None ''error'')"

definition finish_run :: "exec_env \<Rightarrow> nat \<Rightarrow> nat \<Rightarrow> ('r exec_world, unit) py" where
  "finish_run E run_start total_steps =
     andthen (tick_value (ee_mono E)) (\<lambda>now.
     andthen (liftsum (transition RUNNING ''all_steps_done'')) (\<lambda>_.
     seq (update_status E COMPLETED None None)
     (andthen (gets xw_row) (\<lambda>ex.
      andthen (gets xw_cost) (\<lambda>tracker.
      seq (publish E (ExecutionCompleted (ex_id ex) (ex_workflow_id ex) COMPLETED (now - run_start)
             (ct_total tracker) total_steps))
      (modify (commit_tx E)))))))"

text \<open>The index of the first step to run and the variables to start from.\<close>

definition resume_point :: "uuid \<Rightarrow> ckpt_row list \<Rightarrow> nat \<times> variables option" where
  "resume_point eid cs =
     (case get_latest eid cs of
        Some cp \<Rightarrow> (ck_step_index cp + 1, Some (ck_variables cp))
      | None \<Rightarrow> (0, None))"

definition load_run :: "exec_env \<Rightarrow> ('r exec_world, nat) py" where
  "load_run E = (\<lambda>w.
     let ctx = ex_context (xw_row w);
         (start_index, vars) = resume_point (ex_id (xw_row w)) (xw_disk_ckpts w @ xw_new_ckpts w);
         ctx' = (case vars of None \<Rightarrow> ctx | Some v \<Rightarrow> ctx\<lparr>ctx_variables := v\<rparr>)
     in (Inr start_index,
         w\<lparr>xw_ctx := ctx',
           xw_cost := new_cost_tracker (ee_max_per_execution E) (ee_max_per_day E)\<rparr>))"

definition start_run :: "exec_env \<Rightarrow> ('r exec_world, nat) py" where
  "start_run E =
     andthen (gets (ex_status \<circ> xw_row)) (\<lambda>st.
     andthen (liftsum (transition st ''submit'')) (\<lambda>_.
     andthen (tick_value (ee_mono E)) (\<lambda>run_start.
     seq (update_status E RUNNING None None)
     (andthen (gets xw_row) (\<lambda>ex.
      seq (publish E (ExecutionStarted (ex_id ex) (ex_workflow_id ex)))
      (seq (modify (commit_tx E)) (ret run_start)))))))"

definition run_locked :: "exec_env \<Rightarrow> workflow_definition \<Rightarrow> ('r exec_world, unit) py" where
  "run_locked E wd =
     andthen (load_run E) (\<lambda>start_index.
     andthen (start_run E) (\<lambda>run_start.
       let steps = wd_steps wd in
       seq (modify (\<lambda>w. w\<lparr>xw_step_name := ''unknown''\<rparr>))
       (andthen (tryexcept (step_loop E (drop start_index (enumerate 0 steps))) (loop_exception E))
         (\<lambda>all_done. if all_done then finish_run E run_start (length steps) else ret ()))))"

definition run ::
  "'r redis_ops \<Rightarrow> exec_env \<Rightarrow> workflow_definition \<Rightarrow> ('r exec_world, unit) py" where
  "run R E wd =
     andthen (gets (ex_id \<circ> xw_row)) (\<lambda>eid.
     andthen (tick_value (ee_uuid E)) (\<lambda>token.
     tryexcept
       (with_lock xw_locks (\<lambda>r w. w\<lparr>xw_locks := r\<rparr>) R (lock_key eid) (uuid_str token) 30
          (run_locked E wd))
       (\<lambda>e. case e of LockAcquisitionError _ \<Rightarrow> ret () | _ \<Rightarrow> throw e)))"

end
