(* ===== verification/Executor_Props.thy ===== *)
theory Executor_Props
  imports Executor
begin

text \<open>
  Facts about the executor: what each operation of the session does to the row that other
  sessions see, what a published event is, which steps a run completes.
\<close>

section \<open>Sessions\<close>

text \<open>The row as the open transaction sees it.\<close>

definition seen_row :: "'r exec_world \<Rightarrow> exec_row" where
  "seen_row w = (case xw_tx w of Some r \<Rightarrow> r | None \<Rightarrow> xw_disk w)"

text \<open>The columns that identify the row, which the executor never writes.\<close>

definition same_identity :: "exec_row \<Rightarrow> exec_row \<Rightarrow> bool" where
  "same_identity a b \<longleftrightarrow> ex_id a = ex_id b \<and> ex_tenant_id a = ex_tenant_id b \<and>
     ex_workflow_id a = ex_workflow_id b \<and> ex_definition_snapshot a = ex_definition_snapshot b"

text \<open>The instance was loaded or flushed as the transaction sees the row.\<close>

definition in_sync :: "'r exec_world \<Rightarrow> bool" where
  "in_sync w \<longleftrightarrow> seen_row w = xw_loaded w \<and> same_identity (xw_row w) (xw_loaded w)"

lemma merge_columns_same [simp]: "merge_columns r r b = b"
  by (simp add: merge_columns_def)

lemma merge_columns_loaded:
  "same_identity row loaded \<Longrightarrow> merge_columns row loaded loaded = row"
  by (simp add: merge_columns_def same_identity_def)

text \<open>
  \<open>alone\<close>: no other session writes the row. \<open>quiet\<close>: moreover every publish succeeds and
  the cost limits are not negative.
\<close>

definition alone :: "exec_env \<Rightarrow> bool" where
  "alone E \<longleftrightarrow> (\<forall>n r. ee_others E n r = r)"

definition quiet :: "exec_env \<Rightarrow> bool" where
  "quiet E \<longleftrightarrow> alone E \<and> (\<forall>n. ee_xadd E n = None) \<and>
     0 \<le> ee_max_per_execution E \<and> 0 \<le> ee_max_per_day E"

lemma aloneD [simp]: "alone E \<Longrightarrow> ee_others E n r = r"
  by (simp add: alone_def)

lemma quietD [simp]:
  "quiet E \<Longrightarrow> ee_xadd E n = None"
  "quiet E \<Longrightarrow> alone E"
  by (simp_all add: quiet_def)

text \<open>What the session operations leave alone.\<close>

lemma flush_row_frame [simp]:
  "xw_row (flush_row E w) = xw_row w" "xw_loaded (flush_row E w) = xw_row w"
  "xw_sent (flush_row E w) = xw_sent w" "xw_locks (flush_row E w) = xw_locks w"
  "xw_disk_ckpts (flush_row E w) = xw_disk_ckpts w" "xw_new_ckpts (flush_row E w) = xw_new_ckpts w"
  "xw_cost (flush_row E w) = xw_cost w" "xw_ctx (flush_row E w) = xw_ctx w"
  "xw_step_name (flush_row E w) = xw_step_name w"
  by (simp_all add: flush_row_def Let_def split: option.splits)

lemma refresh_row_frame [simp]:
  "xw_sent (refresh_row E w) = xw_sent w" "xw_locks (refresh_row E w) = xw_locks w"
  "xw_disk_ckpts (refresh_row E w) = xw_disk_ckpts w"
  "xw_new_ckpts (refresh_row E w) = xw_new_ckpts w"
  "xw_cost (refresh_row E w) = xw_cost w" "xw_ctx (refresh_row E w) = xw_ctx w"
  by (simp_all add: refresh_row_def Let_def split: option.splits)

lemma commit_tx_frame [simp]:
  "xw_row (commit_tx E w) = xw_row w" "xw_sent (commit_tx E w) = xw_sent w"
  "xw_locks (commit_tx E w) = xw_locks w" "xw_tx (commit_tx E w) = None"
  "xw_disk_ckpts (commit_tx E w) = xw_disk_ckpts w @ xw_new_ckpts w"
  "xw_new_ckpts (commit_tx E w) = []" "xw_cost (commit_tx E w) = xw_cost w"
  "xw_ctx (commit_tx E w) = xw_ctx w" "xw_loaded (commit_tx E w) = xw_row w"
  "xw_step_name (commit_tx E w) = xw_step_name w"
  by (simp_all add: commit_tx_def Let_def)

lemma seen_flush:
  assumes "alone E" and "in_sync w"
  shows "seen_row (flush_row E w) = xw_row w"
  using assms
  by (auto simp: in_sync_def seen_row_def flush_row_def Let_def merge_columns_loaded
      split: option.splits)

lemma seen_commit: "alone E \<Longrightarrow> in_sync w \<Longrightarrow> xw_disk (commit_tx E w) = xw_row w"
  using seen_flush [of E w] by (auto simp: commit_tx_def seen_row_def Let_def split: option.splits)

lemma seen_refresh:
  "alone E \<Longrightarrow> xw_row (refresh_row E w) = seen_row w \<and> xw_loaded (refresh_row E w) = seen_row w \<and>
     seen_row (refresh_row E w) = seen_row w"
  by (simp add: refresh_row_def seen_row_def Let_def split: option.splits)

lemma same_identity_refl [simp]: "same_identity r r"
  by (simp add: same_identity_def)

lemma in_sync_flush: "alone E \<Longrightarrow> in_sync w \<Longrightarrow> in_sync (flush_row E w)"
  using seen_flush [of E w] by (simp add: in_sync_def)

lemma in_sync_commit: "alone E \<Longrightarrow> in_sync w \<Longrightarrow> in_sync (commit_tx E w)"
  using seen_commit [of E w] by (simp add: in_sync_def seen_row_def)

lemma in_sync_refresh: "alone E \<Longrightarrow> in_sync (refresh_row E w)"
  using seen_refresh [of E w] by (simp add: in_sync_def)

text \<open>Fields that do not take part keep the session in sync.\<close>

lemma in_sync_frame [simp]:
  "in_sync (w\<lparr>xw_tick := n\<rparr>) = in_sync w" "in_sync (w\<lparr>xw_sent := l\<rparr>) = in_sync w"
  "in_sync (w\<lparr>xw_ctx := c\<rparr>) = in_sync w" "in_sync (w\<lparr>xw_cost := t\<rparr>) = in_sync w"
  "in_sync (w\<lparr>xw_step_name := nm\<rparr>) = in_sync w" "in_sync (w\<lparr>xw_new_ckpts := ks\<rparr>) = in_sync w"
  "in_sync (w\<lparr>xw_locks := rd\<rparr>) = in_sync w"
  by (simp_all add: in_sync_def seen_row_def split: option.splits)

section \<open>Events\<close>

lemma wp_tick_value [wp_eqs, simp]:
  "wp (tick_value f) Q X w = Q (f (xw_tick w)) (w\<lparr>xw_tick := Suc (xw_tick w)\<rparr>)"
  by (simp add: wp_def tick_value_def)

lemma wp_xadd [wp_eqs]:
  "wp (xadd E stream ev) Q X w =
     (case ee_xadd E (xw_tick w) of
        Some e \<Rightarrow> X e (w\<lparr>xw_tick := Suc (xw_tick w)\<rparr>)
      | None \<Rightarrow> Q () (w\<lparr>xw_tick := Suc (xw_tick w), xw_sent := xw_sent w @ [(stream, ev)]\<rparr>))"
  by (simp add: xadd_def split: option.splits)

definition step_entry :: "string \<times> event \<Rightarrow> (nat \<times> string) option" where
  "step_entry m =
     (if fst m = ''executions''
      then (case ev_body (snd m) of StepCompleted _ _ name i _ _ _ \<Rightarrow> Some (i, name) | _ \<Rightarrow> None)
      else None)"

text \<open>The steps reported as completed on the global stream, in order.\<close>

definition completed_steps :: "(string \<times> event) list \<Rightarrow> (nat \<times> string) list" where
  "completed_steps sent = List.map_filter step_entry sent"

lemma completed_steps_append [simp]:
  "completed_steps (xs @ ys) = completed_steps xs @ completed_steps ys"
  by (simp add: completed_steps_def map_filter_def)

lemma completed_steps_Nil [simp]: "completed_steps [] = []"
  by (simp add: completed_steps_def map_filter_def)

lemma completed_steps_Cons:
  "completed_steps (m # ms) = (case step_entry m of None \<Rightarrow> [] | Some x \<Rightarrow> [x]) @ completed_steps ms"
  by (simp add: completed_steps_def map_filter_def split: option.splits)

lemma step_entry_sse [simp]: "step_entry (sse_stream eid, ev) = None"
  by (simp add: step_entry_def sse_stream_def)

text \<open>A publish that reports no step leaves the completed steps alone; one that does adds it.\<close>

definition body_steps :: "event_body \<Rightarrow> (nat \<times> string) list" where
  "body_steps b = (case b of StepCompleted _ _ name i _ _ _ \<Rightarrow> [(i, name)] | _ \<Rightarrow> [])"

lemma step_entry_global:
  "(case step_entry (''executions'', ev) of None \<Rightarrow> [] | Some x \<Rightarrow> [x]) = body_steps (ev_body ev)"
  by (simp add: step_entry_def body_steps_def split: event_body.splits)

text \<open>What publishing changes: the tick, and the log by none, one or both copies of the event.\<close>

definition published :: "event_body \<Rightarrow> 'r exec_world \<Rightarrow> nat \<Rightarrow> 'r exec_world \<Rightarrow> bool" where
  "published body w k w' \<longleftrightarrow>
     (\<exists>n ev. ev_body ev = body \<and> ev_tenant_id ev = ex_tenant_id (xw_row w) \<and>
        w' = w\<lparr>xw_tick := n, xw_sent := xw_sent w @
          take k [(''executions'', ev), (sse_stream (ex_id (xw_row w)), ev)]\<rparr>)"

lemma published_frame:
  assumes "published body w k w'"
  shows "xw_row w' = xw_row w" "xw_disk w' = xw_disk w" "xw_tx w' = xw_tx w"
    "xw_loaded w' = xw_loaded w" "xw_locks w' = xw_locks w" "xw_disk_ckpts w' = xw_disk_ckpts w"
    "xw_new_ckpts w' = xw_new_ckpts w" "xw_cost w' = xw_cost w" "xw_ctx w' = xw_ctx w"
    "xw_step_name w' = xw_step_name w" "in_sync w' = in_sync w"
  using assms by (auto simp: published_def)

lemma published_steps:
  assumes "published body w k w'"
  shows "completed_steps (xw_sent w') =
    completed_steps (xw_sent w) @ (if k = 0 then [] else body_steps body)"
proof -
  from assms obtain n ev where "ev_body ev = body"
    and w': "w' = w\<lparr>xw_tick := n, xw_sent := xw_sent w @
      take k [(''executions'', ev), (sse_stream (ex_id (xw_row w)), ev)]\<rparr>"
    by (auto simp: published_def)
  then show ?thesis
    by (cases k; cases "k - 1") (auto simp: completed_steps_Cons step_entry_global)
qed

lemma publishedI:
  assumes "ev_body ev = body" and "ev_tenant_id ev = ex_tenant_id (xw_row w)"
    and "w' = w\<lparr>xw_tick := n, xw_sent := xw_sent w @
      take k [(''executions'', ev), (sse_stream (ex_id (xw_row w)), ev)]\<rparr>"
  shows "published body w k w'"
  using assms unfolding published_def by blast

text \<open>The event that \<open>publish\<close> builds.\<close>

definition new_event :: "exec_env \<Rightarrow> event_body \<Rightarrow> 'r exec_world \<Rightarrow> event" where
  "new_event E body w =
     \<lparr>ev_trace_id = ee_uuid E (xw_tick w), ev_tenant_id = ex_tenant_id (xw_row w),
      ev_timestamp = ee_wall E (Suc (xw_tick w)), ev_schema_version = 1, ev_body = body\<rparr>"

lemma wp_publish_eq:
  "wp (publish E body) Q X w =
     (let n = Suc (Suc (xw_tick w))
      in case ee_xadd E n of
           Some e \<Rightarrow> X e (w\<lparr>xw_tick := Suc n\<rparr>)
         | None \<Rightarrow> (case ee_xadd E (Suc n) of
             Some e \<Rightarrow> X e (w\<lparr>xw_sent := xw_sent w @ [(''executions'', new_event E body w)],
               xw_tick := Suc (Suc n)\<rparr>)
           | None \<Rightarrow> Q () (w\<lparr>xw_tick := Suc (Suc n), xw_sent := xw_sent w @
               [(''executions'', new_event E body w),
                (sse_stream (ex_id (xw_row w)), new_event E body w)]\<rparr>)))"
  by (simp add: publish_def Let_def wp_xadd new_event_def split: option.splits)

lemma new_event_simps [simp]:
  "ev_body (new_event E body w) = body"
  "ev_tenant_id (new_event E body w) = ex_tenant_id (xw_row w)"
  by (simp_all add: new_event_def)

lemma wp_publish:
  assumes "\<And>w'. published body w 2 w' \<Longrightarrow> Q () w'"
    and "\<And>e w'. published body w 0 w' \<Longrightarrow> X e w'"
    and "\<And>e w'. published body w 1 w' \<Longrightarrow> X e w'"
  shows "wp (publish E body) Q X w"
proof -
  let ?n = "Suc (Suc (xw_tick w))"
  show ?thesis
  proof (cases "ee_xadd E ?n")
    case (Some e)
    then show ?thesis unfolding wp_publish_eq Let_def
      by (auto intro!: assms(2) publishedI [where ev = "new_event E body w"])
  next
    case none: None
    show ?thesis
    proof (cases "ee_xadd E (Suc ?n)")
      case (Some e)
      with none show ?thesis unfolding wp_publish_eq Let_def
        by (auto intro!: assms(3) publishedI [where ev = "new_event E body w" and n = "Suc (Suc ?n)"])
    next
      case None
      with none show ?thesis unfolding wp_publish_eq Let_def
        by (auto intro!: assms(1) publishedI [where ev = "new_event E body w"])
    qed
  qed
qed

lemma wp_publish_quiet:
  assumes "quiet E" and "\<And>w'. published body w 2 w' \<Longrightarrow> Q () w'"
  shows "wp (publish E body) Q X w"
  using assms(1) unfolding wp_publish_eq Let_def
  by (auto intro!: assms(2) publishedI [where ev = "new_event E body w"])

section \<open>Which steps a run reports\<close>

definition step_label :: "nat \<times> workflow_step \<Rightarrow> nat \<times> string" where
  "step_label x = (fst x, sc_name (ws_config (snd x)))"

abbreviation reported :: "'r exec_world \<Rightarrow> (nat \<times> string) list" where
  "reported w \<equiv> completed_steps (xw_sent w)"

lemma wp_write_checkpoint [simp]:
  "wp (write_checkpoint E name i) Q X w =
     (let w' = flush_row E (w\<lparr>xw_tick := Suc (xw_tick w)\<rparr>)
      in Q () (w'\<lparr>xw_new_ckpts := xw_new_ckpts w' @
           [\<lparr>ck_id = ee_uuid E (xw_tick w), ck_execution_id = ex_id (xw_row w'),
             ck_tenant_id = ex_tenant_id (xw_row w'), ck_step_name = name, ck_step_index = i,
             ck_variables = ctx_variables (xw_ctx w'), ck_state = [], ck_schema_version = 1\<rparr>]\<rparr>))"
  by (simp add: write_checkpoint_def Let_def)

lemma checkpoint_before_reports:
  "wp (checkpoint_before_step E i cfg) (\<lambda>_ w'. reported w' = reported w) (\<lambda>_ _. False) w"
  by (simp add: checkpoint_before_step_def Let_def)

lemma step_work_reports:
  "wp (step_work E i name) (\<lambda>_ w'. reported w' = reported w @ [(i, name)])
     (\<lambda>_ w'. reported w' \<in> {reported w, reported w @ [(i, name)]}) w"
  by (auto simp: step_work_def Let_def body_steps_def split: sum.splits intro!: wp_publish
      dest!: published_steps)

lemma run_step_reports:
  "wp (run_step E x)
     (\<lambda>go w'. reported w' = reported w @ (if go then [step_label x] else []))
     (\<lambda>_ w'. reported w' \<in> {reported w, reported w @ [step_label x]}) w"
  unfolding run_step_def
  by (auto simp: step_label_def Let_def split: prod.split
      intro!: wp_mono [OF checkpoint_before_reports] wp_mono [OF step_work_reports])

lemma step_loop_reports:
  fixes w :: "'r exec_world"
  shows "wp (step_loop E xs)
     (\<lambda>go w'. \<exists>k. reported w' = reported w @ map step_label (take k xs) \<and> (go \<longrightarrow> length xs \<le> k))
     (\<lambda>_ w'. \<exists>k. reported w' = reported w @ map step_label (take k xs)) w"
proof (induction xs arbitrary: w)
  case Nil
  then show ?case by simp
next
  case (Cons x xs)
  show ?case unfolding step_loop.simps
  proof (rule wp_bind [OF run_step_reports])
    fix go and w1 :: "'r exec_world"
    assume first: "reported w1 = reported w @ (if go then [step_label x] else [])"
    show "wp (if go then step_loop E xs else ret False)
      (\<lambda>go' w'. \<exists>k. reported w' = reported w @ map step_label (take k (x # xs)) \<and>
        (go' \<longrightarrow> length (x # xs) \<le> k))
      (\<lambda>_ w'. \<exists>k. reported w' = reported w @ map step_label (take k (x # xs))) w1"
    proof (cases go)
      case True
      with first show ?thesis
        by simp (rule wp_mono [OF Cons.IH]; clarsimp; rule_tac x = "Suc k" in exI; simp)
    next
      case False
      with first show ?thesis by (auto intro!: exI [where x = 0])
    qed
  next
    fix w' :: "'r exec_world"
    assume "reported w' \<in> {reported w, reported w @ [step_label x]}"
    then show "\<exists>k. reported w' = reported w @ map step_label (take k (x # xs))"
      by (auto intro: exI [where x = 0] exI [where x = "Suc 0"])
  qed
qed

lemma loop_exception_reports:
  "wp (loop_exception E exc) (\<lambda>_ w'. reported w' = reported w) (\<lambda>_ w'. reported w' = reported w) w"
  unfolding loop_exception_def pause_run_def update_status_def
  by (auto split: exn.split intro!: wp_publish dest!: published_steps simp: body_steps_def)

lemma finish_run_reports:
  "wp (finish_run E t n) (\<lambda>_ w'. reported w' = reported w) (\<lambda>_ w'. reported w' = reported w) w"
  unfolding finish_run_def update_status_def
  by (auto intro!: wp_publish dest!: published_steps simp: body_steps_def)

lemma start_run_reports:
  "wp (start_run E) (\<lambda>_ w'. reported w' = reported w) (\<lambda>_ w'. reported w' = reported w) w"
  unfolding start_run_def update_status_def
  by (auto intro!: wp_publish dest!: published_steps simp: body_steps_def split: sum.split)

section \<open>A run and its parts\<close>

lemma wp_with_lock:
  "wp (with_lock getr putr R key token ttl body) Q X s =
     (case lock_enter R key token ttl (getr s) of
        (Inl e, r') \<Rightarrow> X e (putr r' s)
      | (Inr _, r') \<Rightarrow> wp body (\<lambda>a s'. Q a (putr (release_script R key token (getr s')) s'))
          (\<lambda>e s'. X e (putr (release_script R key token (getr s')) s')) (putr r' s))"
  by (simp add: wp_def with_lock_def split: prod.splits sum.splits)

lemma wp_load_run:
  "wp (load_run E) Q X w =
     Q (fst (resume_point (ex_id (xw_row w)) (xw_disk_ckpts w @ xw_new_ckpts w))) (snd (load_run E w))"
  by (simp add: wp_def load_run_def Let_def split: prod.split)

text \<open>A run in four parts: what each must establish for the next.\<close>

definition steps_to_run :: "workflow_definition \<Rightarrow> 'r exec_world \<Rightarrow> (nat \<times> workflow_step) list" where
  "steps_to_run wd w =
     drop (fst (resume_point (ex_id (xw_row w)) (xw_disk_ckpts w @ xw_new_ckpts w)))
       (enumerate 0 (wd_steps wd))"

lemma wp_run_locked:
  assumes "wp (start_run E) S X (snd (load_run E w))"
    and "\<And>t w'. S t w' \<Longrightarrow> wp (step_loop E (steps_to_run wd w)) L Y (w'\<lparr>xw_step_name := ''unknown''\<rparr>)"
    and "\<And>e w'. Y e w' \<Longrightarrow> wp (loop_exception E e) L X w'"
    and "\<And>t w'. L True w' \<Longrightarrow> wp (finish_run E t (length (wd_steps wd))) Q X w'"
    and "\<And>w'. L False w' \<Longrightarrow> Q () w'"
  shows "wp (run_locked E wd) Q X w"
proof -
  have loop: "wp (tryexcept (step_loop E (steps_to_run wd w)) (loop_exception E)) L X
      (w'\<lparr>xw_step_name := ''unknown''\<rparr>)" if "S t w'" for t w'
    by (simp, rule wp_mono [OF assms(2) [OF that]]) (auto intro: assms(3))
  have "wp (andthen (start_run E) (\<lambda>run_start.
       seq (modify (\<lambda>w. w\<lparr>xw_step_name := ''unknown''\<rparr>))
       (andthen (tryexcept (step_loop E (steps_to_run wd w)) (loop_exception E))
         (\<lambda>all_done. if all_done then finish_run E run_start (length (wd_steps wd)) else ret ()))))
      Q X (snd (load_run E w))"
    by (rule wp_bind [OF assms(1)])
      (auto intro!: wp_mono [OF loop] assms(4,5) simp del: wp_tryexcept split: if_splits)
  then show ?thesis
    unfolding run_locked_def steps_to_run_def by (simp add: wp_load_run Let_def)
qed

lemma load_run_frame [simp]:
  "xw_sent (snd (load_run E w)) = xw_sent w" "xw_row (snd (load_run E w)) = xw_row w"
  "xw_disk (snd (load_run E w)) = xw_disk w" "xw_loaded (snd (load_run E w)) = xw_loaded w"
  "in_sync (snd (load_run E w)) = in_sync w"
  "xw_tx (snd (load_run E w)) = xw_tx w" "xw_locks (snd (load_run E w)) = xw_locks w"
  "xw_disk_ckpts (snd (load_run E w)) = xw_disk_ckpts w"
  "xw_new_ckpts (snd (load_run E w)) = xw_new_ckpts w"
  "xw_cost (snd (load_run E w)) = new_cost_tracker (ee_max_per_execution E) (ee_max_per_day E)"
  by (simp_all add: load_run_def Let_def split: prod.split)

lemma load_run_seen [simp]: "seen_row (snd (load_run E w)) = seen_row w"
  by (simp add: seen_row_def split: option.split)

definition reports_prefix :: "workflow_definition \<Rightarrow> 'r exec_world \<Rightarrow> 'r exec_world \<Rightarrow> bool" where
  "reports_prefix wd w w' \<longleftrightarrow>
     (\<exists>k. reported w' = reported w @ map step_label (take k (steps_to_run wd w)))"

lemma reports_prefix_none: "reported w' = reported w \<Longrightarrow> reports_prefix wd w w'"
  by (auto simp: reports_prefix_def intro: exI [where x = 0])

lemma reports_prefix_step:
  "reports_prefix wd w w' \<Longrightarrow> reported w'' = reported w' \<Longrightarrow> reports_prefix wd w w''"
  by (simp add: reports_prefix_def)

lemma run_locked_reports:
  "wp (run_locked E wd) (\<lambda>_. reports_prefix wd w) (\<lambda>_. reports_prefix wd w) w"
proof (rule wp_run_locked)
  show "wp (start_run E) (\<lambda>_ w'. reported w' = reported w) (\<lambda>_. reports_prefix wd w)
    (snd (load_run E w))"
    by (rule wp_mono [OF start_run_reports]) (auto intro: reports_prefix_none)
next
  fix w' :: "'a exec_world"
  assume "reported w' = reported w"
  then show "wp (step_loop E (steps_to_run wd w)) (\<lambda>_. reports_prefix wd w) (\<lambda>_. reports_prefix wd w)
    (w'\<lparr>xw_step_name := ''unknown''\<rparr>)"
    by - (rule wp_mono [OF step_loop_reports]; auto simp: reports_prefix_def)
next
  fix e w'
  assume "reports_prefix wd w w'"
  then show "wp (loop_exception E e) (\<lambda>_. reports_prefix wd w) (\<lambda>_. reports_prefix wd w) w'"
    by - (rule wp_mono [OF loop_exception_reports]; simp add: reports_prefix_step)
next
  fix t w'
  assume "reports_prefix wd w w'"
  then show "wp (finish_run E t (length (wd_steps wd))) (\<lambda>_. reports_prefix wd w)
      (\<lambda>_. reports_prefix wd w) w'"
    by - (rule wp_mono [OF finish_run_reports]; simp add: reports_prefix_step)
qed

text \<open>What the caller of \<open>run\<close> sees of what \<open>run_locked\<close> does.\<close>

lemma wp_run:
  assumes "\<And>n r. fst (lock_enter R (lock_key (ex_id (xw_row w))) (uuid_str (ee_uuid E (xw_tick w)))
        30 (xw_locks w)) = Inr (uuid_str (ee_uuid E (xw_tick w))) \<Longrightarrow>
      wp (run_locked E wd) (\<lambda>_ w'. \<forall>r. Q () (w'\<lparr>xw_locks := r\<rparr>))
        (\<lambda>e w'. \<forall>r. case e of LockAcquisitionError _ \<Rightarrow> Q () (w'\<lparr>xw_locks := r\<rparr>)
                    | _ \<Rightarrow> X e (w'\<lparr>xw_locks := r\<rparr>))
        (w\<lparr>xw_tick := n, xw_locks := r\<rparr>)"
    and "\<And>n r. fst (lock_enter R (lock_key (ex_id (xw_row w))) (uuid_str (ee_uuid E (xw_tick w)))
        30 (xw_locks w)) \<noteq> Inr (uuid_str (ee_uuid E (xw_tick w))) \<Longrightarrow>
      Q () (w\<lparr>xw_tick := n, xw_locks := r\<rparr>)"
  shows "wp (run R E wd) Q X w"
proof -
  let ?k = "lock_key (ex_id (xw_row w))" and ?tok = "uuid_str (ee_uuid E (xw_tick w))"
  show ?thesis
  proof (cases "lock_enter R ?k ?tok 30 (xw_locks w)")
    case (Pair res r')
    then consider (held) m where "res = Inl (LockAcquisitionError m)" | (free) "res = Inr ?tok"
      by (auto simp: lock_enter_def split: prod.splits bool.splits)
    then show ?thesis
    proof cases
      case held
      with Pair assms(2) show ?thesis by (simp add: run_def wp_with_lock)
    next
      case free
      with Pair show ?thesis
        by (simp add: run_def wp_with_lock)
          (rule wp_mono [OF assms(1)]; auto split: exn.splits)
    qed
  qed
qed

lemma run_reports: "reports_prefix wd w (snd (run R E wd w))"
proof -
  have "wp (run R E wd) (\<lambda>_. reports_prefix wd w) (\<lambda>_. reports_prefix wd w) w"
  proof (rule wp_run)
    fix n r
    let ?w = "w\<lparr>xw_tick := n, xw_locks := r\<rparr>"
    have eq: "reports_prefix wd ?w w' = reports_prefix wd w w'" for w'
      by (simp add: reports_prefix_def steps_to_run_def)
    show "wp (run_locked E wd) (\<lambda>_ w'. \<forall>r. reports_prefix wd w (w'\<lparr>xw_locks := r\<rparr>))
        (\<lambda>e w'. \<forall>r. case e of LockAcquisitionError _ \<Rightarrow> reports_prefix wd w (w'\<lparr>xw_locks := r\<rparr>)
                    | _ \<Rightarrow> reports_prefix wd w (w'\<lparr>xw_locks := r\<rparr>)) ?w"
      by (rule wp_mono [OF run_locked_reports])
        (auto simp: eq split: exn.split elim: reports_prefix_step)
  next
    fix n r
    show "reports_prefix wd w (w\<lparr>xw_tick := n, xw_locks := r\<rparr>)" by (rule reports_prefix_none) simp
  qed
  then show ?thesis by (simp add: wp_state)
qed

text \<open>
  \<open>running E w\<close>: inside the step loop when no other session writes. The run's own status
  is committed, the cost tracker is fresh since every step costs nothing, and nothing waits
  to be committed except the context column.
\<close>

definition running :: "exec_env \<Rightarrow> 'r exec_world \<Rightarrow> bool" where
  "running E w \<longleftrightarrow> in_sync w \<and> ex_status (xw_row w) = RUNNING \<and> ex_status (xw_loaded w) = RUNNING \<and>
     ex_status (xw_disk w) = RUNNING \<and> xw_new_ckpts w = [] \<and>
     xw_cost w = new_cost_tracker (ee_max_per_execution E) (ee_max_per_day E)"

text \<open>What a run never changes.\<close>

definition kept :: "'r exec_world \<Rightarrow> 'r exec_world \<Rightarrow> bool" where
  "kept w w' \<longleftrightarrow> same_identity (xw_row w) (xw_row w') \<and> xw_locks w' = xw_locks w \<and>
     ctx_variables (xw_ctx w') = ctx_variables (xw_ctx w)"

lemma kept_trans: "kept a b \<Longrightarrow> kept b c \<Longrightarrow> kept a c"
  by (simp add: kept_def same_identity_def)

lemma kept_refl [simp]: "kept a a"
  by (simp add: kept_def)

lemma kept_frame [simp]:
  "kept w (w'\<lparr>xw_tick := n\<rparr>) = kept w w'" "kept w (w'\<lparr>xw_sent := l\<rparr>) = kept w w'"
  "kept w (commit_tx E w') = kept w w'" "kept w (flush_row E w') = kept w w'"
  "kept w (w'\<lparr>xw_step_name := nm\<rparr>) = kept w w'"
  by (simp_all add: kept_def)

lemma flush_disk [simp]: "alone E \<Longrightarrow> xw_disk (flush_row E w) = xw_disk w"
  by (auto simp: flush_row_def Let_def split: option.splits)

lemma refresh_disk [simp]: "alone E \<Longrightarrow> xw_disk (refresh_row E w) = xw_disk w"
  by (auto simp: refresh_row_def Let_def split: option.splits)

lemma running_flush: "alone E \<Longrightarrow> running E w \<Longrightarrow> running E (flush_row E w)"
  by (simp add: running_def in_sync_flush)

lemma running_refresh: "alone E \<Longrightarrow> running E w \<Longrightarrow> running E (refresh_row E w)"
  using seen_refresh [of E w] by (auto simp: running_def in_sync_refresh) (simp_all add: in_sync_def)

lemma kept_refresh: "alone E \<Longrightarrow> in_sync w \<Longrightarrow> kept w (refresh_row E w)"
  using seen_refresh [of E w] by (simp add: kept_def in_sync_def)

lemma running_frame [simp]:
  "running E (w\<lparr>xw_tick := n\<rparr>) = running E w" "running E (w\<lparr>xw_sent := l\<rparr>) = running E w"
  "running E (w\<lparr>xw_ctx := c\<rparr>) = running E w" "running E (w\<lparr>xw_step_name := nm\<rparr>) = running E w"
  "running E (w\<lparr>xw_locks := rd\<rparr>) = running E w"
  by (simp_all add: running_def)

lemma published_running: "published body w k w' \<Longrightarrow> running E w' = running E w"
  by (auto simp: published_def)

lemma published_kept: "published body w k w' \<Longrightarrow> kept w w'"
  by (auto simp: published_def kept_def)

lemma in_sync_context: "in_sync w \<Longrightarrow> in_sync (w\<lparr>xw_row := (xw_row w)\<lparr>ex_context := c\<rparr>\<rparr>)"
  by (simp add: in_sync_def same_identity_def seen_row_def split: option.splits)

text \<open>The checkpoint row of step \<open>x\<close>, as far as a run determines it.\<close>

definition ckpt_key :: "ckpt_row \<Rightarrow> uuid \<times> uuid \<times> string \<times> nat \<times> variables" where
  "ckpt_key c = (ck_execution_id c, ck_tenant_id c, ck_step_name c, ck_step_index c, ck_variables c)"

definition step_keys :: "'r exec_world \<Rightarrow> (nat \<times> workflow_step) list \<Rightarrow>
    (uuid \<times> uuid \<times> string \<times> nat \<times> variables) list" where
  "step_keys w xs = map (\<lambda>(i, s). (ex_id (xw_row w), ex_tenant_id (xw_row w), sc_name (ws_config s), i,
      ctx_variables (xw_ctx w))) (filter (\<lambda>(i, s). sc_checkpoint_before (ws_config s)) xs)"

lemma step_keys_kept: "kept w w' \<Longrightarrow> step_keys w' = step_keys w"
  by (simp add: step_keys_def kept_def same_identity_def fun_eq_iff)

lemma checkpoint_before_running:
  assumes "alone E" and "running E w"
  shows "wp (checkpoint_before_step E i (ws_config s))
    (\<lambda>_ w'. running E w' \<and> kept w w' \<and>
       map ckpt_key (xw_disk_ckpts w') = map ckpt_key (xw_disk_ckpts w) @ step_keys w [(i, s)])
    (\<lambda>_ _. False) w"
  using assms
  by (simp add: checkpoint_before_step_def Let_def should_checkpoint_def step_keys_def ckpt_key_def)
   (auto simp: running_def kept_def seen_commit in_sync_commit in_sync_flush)

lemma cost_add_free:
  "cost_add (0::rat) (new_cost_tracker a b) =
     (if 0 > a then Inl (CostLimitExceeded ''exceeds per-execution limit'')
      else if 0 > b then Inl (CostLimitExceeded ''exceeds daily limit'')
      else Inr (new_cost_tracker a b))"
  by (simp add: cost_add_def new_cost_tracker_def Let_def)

lemma quiet_limits: "quiet E \<Longrightarrow> \<not> ee_max_per_execution E < 0 \<and> \<not> ee_max_per_day E < 0"
  unfolding quiet_def by auto

lemma published_running_frame:
  assumes "published body w k w'" and "running E w"
  shows "running E w' \<and> kept w w' \<and> xw_disk_ckpts w' = xw_disk_ckpts w"
  using assms published_running published_kept published_frame(6) by blast

lemma wp_publish_running:
  assumes "alone E" and "running E w"
    and Q: "\<And>w'. running E w' \<Longrightarrow> kept w w' \<Longrightarrow> xw_disk_ckpts w' = xw_disk_ckpts w \<Longrightarrow>
      reported w' = reported w @ body_steps body \<Longrightarrow> Q () w'"
    and X: "\<And>e w'. \<not> quiet E \<Longrightarrow> running E w' \<Longrightarrow> kept w w' \<Longrightarrow> X e w'"
  shows "wp (publish E body) Q X w"
proof -
  have ok: "Q () w'" if "published body w 2 w'" for w'
    using published_running_frame [OF that assms(2)] published_steps [OF that] by (auto intro: Q)
  show ?thesis
  proof (cases "quiet E")
    case True
    then show ?thesis by (rule wp_publish_quiet) (rule ok)
  next
    case False
    then show ?thesis
      by (intro wp_publish) (auto intro: ok X dest: published_running_frame [OF _ assms(2)])
  qed
qed

lemma running_step_row:
  "running E w \<Longrightarrow> r = xw_row w \<Longrightarrow> running E (w\<lparr>xw_row := r\<lparr>ex_context := c\<rparr>\<rparr>)"
  using in_sync_context [of w c] by (simp add: running_def)

lemma running_cost:
  "running E w \<Longrightarrow>
     running E (w\<lparr>xw_cost := new_cost_tracker (ee_max_per_execution E) (ee_max_per_day E)\<rparr>)"
  by (simp add: running_def)

lemma step_work_running:
  assumes "alone E" and "running E w"
  shows "wp (step_work E i name)
    (\<lambda>_ w'. running E w' \<and> kept w w' \<and> xw_disk_ckpts w' = xw_disk_ckpts w)
    (\<lambda>_ w'. \<not> quiet E \<and> running E w' \<and> kept w w') w"
proof -
  have cost: "xw_cost w = new_cost_tracker (ee_max_per_execution E) (ee_max_per_day E)"
    using assms(2) by (simp add: running_def)
  let ?w = "w\<lparr>xw_cost := new_cost_tracker (ee_max_per_execution E) (ee_max_per_day E),
    xw_tick := Suc (Suc (xw_tick w)), xw_ctx := xw_ctx w\<lparr>ctx_current_step_index := Suc i\<rparr>,
    xw_row := xw_row w\<lparr>ex_context := xw_ctx w\<lparr>ctx_current_step_index := Suc i\<rparr>\<rparr>\<rparr>"
  have run: "running E ?w" using assms(2) by (simp add: running_step_row running_cost)
  have kept: "kept w ?w" by (simp add: kept_def same_identity_def)
  have pub: "wp (publish E body) (\<lambda>_. wp (modify (flush_row E))
       (\<lambda>_ w'. running E w' \<and> kept w w' \<and> xw_disk_ckpts w' = xw_disk_ckpts w)
       (\<lambda>_ w'. \<not> quiet E \<and> running E w' \<and> kept w w')) (\<lambda>_ w'. \<not> quiet E \<and> running E w' \<and> kept w w') ?w" for body
    by (rule wp_publish_running [OF assms(1) run])
      (use assms(1) in \<open>auto simp: running_flush intro: kept_trans [OF kept]\<close>)
  show ?thesis
    using assms quiet_limits [of E] pub
    by (simp add: step_work_def Let_def cost cost_add_free) auto
qed

lemma run_step_running:
  assumes "alone E" and "running E w"
  shows "wp (run_step E x)
    (\<lambda>go w'. go \<and> running E w' \<and> kept w w' \<and>
       map ckpt_key (xw_disk_ckpts w') = map ckpt_key (xw_disk_ckpts w) @ step_keys w [x])
    (\<lambda>_ w'. \<not> quiet E \<and> running E w' \<and> kept w w') w"
proof -
  obtain i s where x: "x = (i, s)" by fastforce
  let ?w = "(refresh_row E w)\<lparr>xw_step_name := sc_name (ws_config s)\<rparr>"
  have run: "running E ?w" and status: "ex_status (xw_row (refresh_row E w)) = RUNNING"
    using running_refresh [OF assms] by (simp_all add: running_def)
  have kept: "kept w ?w" using kept_refresh [of E w] assms by (simp add: running_def kept_def)
  have chain: "kept w b" if "kept ?w a" "kept a b" for a b
    using kept that by (metis kept_trans)
  show ?thesis
    by (simp add: run_step_def x status Let_def)
      (rule wp_mono [OF checkpoint_before_running [OF assms(1) run]];
       auto intro!: wp_mono [OF step_work_running [OF assms(1)]] intro: chain
        simp: step_keys_kept [OF kept])
qed

lemma step_loop_running:
  assumes "alone E" and "running E w"
  shows "wp (step_loop E xs)
    (\<lambda>go w'. go \<and> running E w' \<and> kept w w' \<and>
       map ckpt_key (xw_disk_ckpts w') = map ckpt_key (xw_disk_ckpts w) @ step_keys w xs)
    (\<lambda>_ w'. \<not> quiet E \<and> running E w' \<and> kept w w') w"
  using assms(2)
proof (induction xs arbitrary: w)
  case Nil
  then show ?case by (simp add: step_keys_def)
next
  case (Cons x xs)
  have split: "step_keys w (x # xs) = step_keys w [x] @ step_keys w xs"
    by (simp add: step_keys_def)
  show ?case unfolding step_loop.simps
    by (rule wp_bind [OF run_step_running [OF assms(1) Cons.prems]])
      (auto simp: split step_keys_kept intro!: wp_mono [OF Cons.IH] intro: kept_trans)
qed

text \<open>Leaving the loop by an exception: paused, or still running when publishing fails too.\<close>

lemma in_sync_status:
  "in_sync w \<Longrightarrow> r = xw_row w \<Longrightarrow> in_sync (w\<lparr>xw_row := r\<lparr>ex_status := st, ex_last_heartbeat := h,
     ex_error_message := m, ex_pause_reason := p\<rparr>\<rparr>)"
  by (simp add: in_sync_def same_identity_def seen_row_def split: option.splits)

lemma wp_update_status:
  "wp (update_status E st err reason) Q X w =
     Q () (flush_row E (w\<lparr>xw_tick := Suc (xw_tick w), xw_row := (xw_row w)
         \<lparr>ex_status := st, ex_last_heartbeat := Some (ee_wall E (xw_tick w)),
          ex_error_message := (case err of None \<Rightarrow> ex_error_message (xw_row w) | Some m \<Rightarrow> m),
          ex_pause_reason := (case reason of None \<Rightarrow> ex_pause_reason (xw_row w) | Some m \<Rightarrow> m)\<rparr>\<rparr>))"
  by (simp add: update_status_def cong: option.case_cong)

lemma update_status_alone:
  assumes "alone E" and "in_sync w"
  shows "wp (update_status E st err reason)
    (\<lambda>_ w'. in_sync w' \<and> kept w w' \<and> xw_disk w' = xw_disk w \<and> xw_disk_ckpts w' = xw_disk_ckpts w \<and>
       xw_new_ckpts w' = xw_new_ckpts w \<and> xw_cost w' = xw_cost w \<and>
       ex_status (xw_row w') = st \<and>
       ex_error_message (xw_row w') = (case err of None \<Rightarrow> ex_error_message (xw_row w) | Some m \<Rightarrow> m) \<and>
       ex_pause_reason (xw_row w') = (case reason of None \<Rightarrow> ex_pause_reason (xw_row w) | Some m \<Rightarrow> m) \<and>
       ex_status (xw_loaded w') = st)
    X w"
  using assms unfolding wp_update_status
  by (auto simp: in_sync_flush in_sync_status) (simp add: kept_def same_identity_def)

lemma wp_publish_any:
  assumes "\<And>n l. Q () (w\<lparr>xw_tick := n, xw_sent := l\<rparr>)"
    and "\<And>e n l. \<not> quiet E \<Longrightarrow> X e (w\<lparr>xw_tick := n, xw_sent := l\<rparr>)"
  shows "wp (publish E body) Q X w"
proof (cases "quiet E")
  case True
  then show ?thesis by (rule wp_publish_quiet) (auto simp: published_def assms(1))
next
  case False
  moreover have "X e (w\<lparr>xw_tick := n\<rparr>)" if "\<not> quiet E" for e n
    using assms(2) [OF that, where n = n and l = "xw_sent w"] by simp
  ultimately show ?thesis by (intro wp_publish) (auto simp: published_def assms)
qed

lemma pause_run_alone:
  assumes "alone E" and "in_sync w" and "transition RUNNING trigger = Inr PAUSED"
  shows "wp (pause_run E trigger err reason event_reason)
    (\<lambda>go w'. \<not> go \<and> kept w w' \<and> xw_disk w' = xw_row w' \<and> ex_status (xw_row w') = PAUSED \<and>
       ex_error_message (xw_row w') = (case err of None \<Rightarrow> ex_error_message (xw_row w) | Some m \<Rightarrow> m) \<and>
       ex_pause_reason (xw_row w') = (case reason of None \<Rightarrow> ex_pause_reason (xw_row w) | Some m \<Rightarrow> m))
    (\<lambda>_ w'. \<not> quiet E \<and> xw_disk w' = xw_disk w) w"
  unfolding pause_run_def using assms(1,3)
  by (simp add: assms(3))
   (rule wp_mono [OF update_status_alone [OF assms(1,2), where X = "\<lambda>_ _. False"]];
    auto intro!: wp_publish_any simp: seen_commit)

lemma loop_exception_alone:
  assumes "alone E" and "in_sync w"
  shows "wp (loop_exception E exc)
    (\<lambda>go w'. \<not> go \<and> kept w w' \<and> xw_disk w' = xw_row w' \<and> ex_status (xw_row w') = PAUSED \<and>
       (case exc of
          CostLimitExceeded _ \<Rightarrow> ex_pause_reason (xw_row w') = Some ''cost_limit_exceeded''
        | _ \<Rightarrow> ex_error_message (xw_row w') = Some (exn_str exc)))
    (\<lambda>_ w'. \<not> quiet E \<and> xw_disk w' = xw_disk w) w"
  unfolding loop_exception_def
  by (cases exc) (auto intro!: wp_mono [OF pause_run_alone [OF assms]])

text \<open>Nothing is left to write or to commit.\<close>

definition idle :: "'r exec_world \<Rightarrow> bool" where
  "idle w \<longleftrightarrow> xw_loaded w = xw_row w \<and> xw_tx w = None \<and> xw_new_ckpts w = []"

lemma commit_idle: "idle w \<Longrightarrow> commit_tx E w = w"
  by (simp add: idle_def commit_tx_def flush_row_def Let_def)

lemma idle_commit [simp]: "idle (commit_tx E w)"
  by (simp add: idle_def)

lemma idle_locks [simp]: "idle (w\<lparr>xw_locks := r\<rparr>) = idle w"
  by (simp add: idle_def)

lemma finish_run_alone:
  assumes "alone E" and "running E w"
  shows "wp (finish_run E t n)
    (\<lambda>_ w'. kept w w' \<and> xw_disk w' = xw_row w' \<and> ex_status (xw_row w') = COMPLETED \<and>
       xw_disk_ckpts w' = xw_disk_ckpts w \<and> idle w')
    (\<lambda>_ w'. \<not> quiet E \<and> ex_status (xw_disk w') = RUNNING) w"
proof -
  let ?w = "w\<lparr>xw_tick := Suc (xw_tick w)\<rparr>"
  have sync: "in_sync ?w" and disk: "ex_status (xw_disk w) = RUNNING" and ck: "xw_new_ckpts w = []"
    using assms(2) by (simp_all add: running_def)
  show ?thesis
    unfolding finish_run_def
    by simp
     (rule wp_mono [OF update_status_alone [OF assms(1) sync, where X = "\<lambda>_ _. False"]];
      use assms(1) disk ck in \<open>auto intro!: wp_publish_any simp: seen_commit kept_def\<close>)
qed

text \<open>A freshly loaded row: the state in which the task hands the execution to the executor.\<close>

definition fresh :: "'r exec_world \<Rightarrow> bool" where
  "fresh w \<longleftrightarrow> xw_row w = xw_disk w \<and> xw_loaded w = xw_disk w \<and> xw_tx w = None \<and> xw_new_ckpts w = []"

lemma fresh_in_sync: "fresh w \<Longrightarrow> in_sync w"
  by (simp add: fresh_def in_sync_def seen_row_def)

lemma start_run_alone:
  assumes "alone E" and "fresh w" and "xw_cost w = new_cost_tracker (ee_max_per_execution E) (ee_max_per_day E)"
  shows "wp (start_run E)
    (\<lambda>_ w'. ex_status (xw_row w) = PENDING \<and> running E w' \<and> kept w w' \<and> xw_disk_ckpts w' = xw_disk_ckpts w)
    (\<lambda>e w'. xw_disk w' = xw_disk w \<and> (ex_status (xw_row w) = PENDING \<longrightarrow> \<not> quiet E)) w"
proof (cases "ex_status (xw_row w) = PENDING")
  case True
  have tr: "transition PENDING ''submit'' = Inr RUNNING" by (simp add: transition_submit)
  let ?w = "w\<lparr>xw_tick := Suc (xw_tick w)\<rparr>"
  have sync: "in_sync ?w" using assms(2) by (simp add: fresh_in_sync)
  have ck: "xw_new_ckpts w = []" using assms(2) by (simp add: fresh_def)
  show ?thesis
    unfolding start_run_def using True
    by (simp add: tr o_def)
     (rule wp_mono [OF update_status_alone [OF assms(1) sync, where X = "\<lambda>_ _. False"]];
      use assms(1,3) ck in \<open>auto intro!: wp_publish_any simp: seen_commit kept_def running_def in_sync_commit\<close>)
next
  case False
  then obtain e where "transition (ex_status (xw_row w)) ''submit'' = Inl e"
    using transition_submit by (cases "transition (ex_status (xw_row w)) ''submit''") auto
  with False show ?thesis by (simp add: start_run_def o_def)
qed

lemma wp_conj:
  "wp m Q X s \<Longrightarrow> wp m Q' X' s \<Longrightarrow> wp m (\<lambda>a s. Q a s \<and> Q' a s) (\<lambda>e s. X e s \<and> X' e s) s"
  by (auto simp: wp_def split: prod.splits sum.splits)

text \<open>Publishing to a stream does not raise the error of the lock, so \<open>run\<close> reports what it raises.\<close>

definition no_lock_errors :: "exec_env \<Rightarrow> bool" where
  "no_lock_errors E \<longleftrightarrow> (\<forall>n m. ee_xadd E n \<noteq> Some (LockAcquisitionError m))"

abbreviation lock_error :: "exn \<Rightarrow> bool" where
  "lock_error e \<equiv> (case e of LockAcquisitionError _ \<Rightarrow> True | _ \<Rightarrow> False)"

lemma no_lock_errorsD: "no_lock_errors E \<Longrightarrow> ee_xadd E n = Some e \<Longrightarrow> \<not> lock_error e"
  by (auto simp: no_lock_errors_def split: exn.splits)

lemma publish_raises:
  "no_lock_errors E \<Longrightarrow> wp (publish E body) (\<lambda>_ _. True) (\<lambda>e _. \<not> lock_error e) w"
  unfolding wp_publish_eq Let_def by (auto dest: no_lock_errorsD split: option.splits)

lemma transition_no_lock: "transition st tr = Inl e \<Longrightarrow> \<not> lock_error e"
  by (auto dest: transition_Inl)

lemma cost_add_no_lock: "cost_add c t = Inl e \<Longrightarrow> \<not> lock_error e"
  by (auto dest: cost_add_Inl)

lemma run_step_raises:
  assumes "no_lock_errors E"
  shows "wp (run_step E x) (\<lambda>_ _. True) (\<lambda>e _. \<not> lock_error e) w"
  by (auto simp: run_step_def checkpoint_before_step_def step_work_def Let_def split: prod.split sum.split
      intro: cost_add_no_lock intro!: wp_mono [OF publish_raises [OF assms]] dest: cost_add_no_lock)

lemma step_loop_raises:
  assumes "no_lock_errors E"
  shows "wp (step_loop E xs) (\<lambda>_ _. True) (\<lambda>e _. \<not> lock_error e) w"
  by (induction xs arbitrary: w) (auto intro!: wp_mono [OF run_step_raises [OF assms]])

lemma loop_exception_raises:
  assumes "no_lock_errors E"
  shows "wp (loop_exception E exc) (\<lambda>_ _. True) (\<lambda>e _. \<not> lock_error e) w"
  by (auto simp: loop_exception_def pause_run_def update_status_def
      split: exn.split intro!: wp_mono [OF publish_raises [OF assms]])

lemma finish_run_raises:
  assumes "no_lock_errors E"
  shows "wp (finish_run E t n) (\<lambda>_ _. True) (\<lambda>e _. \<not> lock_error e) w"
  by (auto simp: finish_run_def update_status_def intro!: wp_mono [OF publish_raises [OF assms]])

lemma start_run_raises:
  assumes "no_lock_errors E"
  shows "wp (start_run E) (\<lambda>_ _. True) (\<lambda>e _. \<not> lock_error e) w"
  by (auto simp: start_run_def update_status_def
      split: sum.split intro!: wp_mono [OF publish_raises [OF assms]] dest: transition_no_lock)

lemma run_locked_raises:
  assumes "no_lock_errors E"
  shows "wp (run_locked E wd) (\<lambda>_ _. True) (\<lambda>e _. \<not> lock_error e) w"
  by (rule wp_run_locked [where S = "\<lambda>_ _. True" and L = "\<lambda>_ _. True" and Y = "\<lambda>_ _. True"])
   (auto intro: start_run_raises loop_exception_raises finish_run_raises assms
      wp_mono [OF step_loop_raises [OF assms]])

text \<open>The checkpoints a run writes: one per flagged step, with the variables it started from.\<close>

definition start_variables :: "'r exec_world \<Rightarrow> variables" where
  "start_variables w =
     (case snd (resume_point (ex_id (xw_row w)) (xw_disk_ckpts w @ xw_new_ckpts w)) of
        None \<Rightarrow> ctx_variables (ex_context (xw_row w)) | Some v \<Rightarrow> v)"

definition planned_checkpoints :: "workflow_definition \<Rightarrow> 'r exec_world \<Rightarrow>
    (uuid \<times> uuid \<times> string \<times> nat \<times> variables) list" where
  "planned_checkpoints wd w =
     map (\<lambda>(i, s). (ex_id (xw_row w), ex_tenant_id (xw_row w), sc_name (ws_config s), i, start_variables w))
       (filter (\<lambda>(i, s). sc_checkpoint_before (ws_config s)) (steps_to_run wd w))"

lemma planned_step_keys:
  "step_keys (snd (load_run E w)) (steps_to_run wd w) = planned_checkpoints wd w"
  by (simp add: step_keys_def planned_checkpoints_def start_variables_def load_run_def Let_def
      split: prod.split option.split)

text \<open>In the middle of \<open>run_locked\<close>: the loop has ended, having run all steps or having paused.\<close>

definition run_done :: "workflow_definition \<Rightarrow> 'r exec_world \<Rightarrow> 'r exec_world \<Rightarrow> bool" where
  "run_done wd w w' \<longleftrightarrow> reported w' = reported w @ map step_label (steps_to_run wd w) \<and>
     map ckpt_key (xw_disk_ckpts w') = map ckpt_key (xw_disk_ckpts w) @ planned_checkpoints wd w"

definition loop_ended :: "exec_env \<Rightarrow> workflow_definition \<Rightarrow> 'r exec_world \<Rightarrow> bool \<Rightarrow> 'r exec_world \<Rightarrow> bool" where
  "loop_ended E wd w go w' \<longleftrightarrow> kept (snd (load_run E w)) w' \<and>
     (if go then running E w' \<and> run_done wd w w'
      else \<not> quiet E \<and> ex_status (xw_disk w') = PAUSED)"

lemma run_locked_alone:
  assumes "alone E" and "fresh w" and "ex_status (xw_row w) = PENDING"
  shows "wp (run_locked E wd)
    (\<lambda>_ w'. kept (snd (load_run E w)) w' \<and> ex_status (xw_disk w') \<in> {COMPLETED, PAUSED} \<and>
       (quiet E \<longrightarrow> ex_status (xw_disk w') = COMPLETED \<and> xw_disk w' = xw_row w' \<and> run_done wd w w' \<and> idle w'))
    (\<lambda>_ w'. (xw_disk w' = xw_disk w \<or> ex_status (xw_disk w') = RUNNING) \<and> \<not> quiet E) w"
    (is "wp _ ?Q ?X w")
proof -
  let ?w = "snd (load_run E w)"
  have fresh: "fresh ?w" using assms(2) by (simp add: fresh_def)
  show ?thesis
  proof (rule wp_run_locked)
    show "wp (start_run E)
      (\<lambda>_ w'. running E w' \<and> kept ?w w' \<and> xw_disk_ckpts w' = xw_disk_ckpts w \<and> reported w' = reported w)
      ?X ?w"
      by (rule wp_mono [OF wp_conj [OF start_run_alone [OF assms(1) fresh] start_run_reports]])
        (use assms(3) in auto)
  next
    fix w'
    assume "running E w' \<and> kept ?w w' \<and> xw_disk_ckpts w' = xw_disk_ckpts w \<and> reported w' = reported w"
    then have start: "running E (w'\<lparr>xw_step_name := ''unknown''\<rparr>)"
      and kept: "kept ?w (w'\<lparr>xw_step_name := ''unknown''\<rparr>)"
      and ck: "xw_disk_ckpts w' = xw_disk_ckpts w" "reported w' = reported w" by simp_all
    show "wp (step_loop E (steps_to_run wd w)) (loop_ended E wd w)
      (\<lambda>_ w'. kept ?w w' \<and> \<not> quiet E \<and> running E w') (w'\<lparr>xw_step_name := ''unknown''\<rparr>)"
      using step_keys_kept [OF kept] ck
      by - (rule wp_mono [OF wp_conj [OF step_loop_running [OF assms(1) start] step_loop_reports]];
        auto simp: loop_ended_def run_done_def planned_step_keys intro: kept_trans [OF kept])
  next
    fix e w'
    assume "kept ?w w' \<and> \<not> quiet E \<and> running E w'"
    then show "wp (loop_exception E e) (loop_ended E wd w) ?X w'"
      by - (rule wp_mono [OF loop_exception_alone [OF assms(1)]];
        auto simp: running_def loop_ended_def intro: kept_trans)
  next
    fix t w'
    assume ended: "loop_ended E wd w True w'"
    then have run: "running E w'" by (simp add: loop_ended_def)
    from ended show "wp (finish_run E t (length (wd_steps wd))) ?Q ?X w'"
      by - (rule wp_mono [OF wp_conj [OF finish_run_alone [OF assms(1) run] finish_run_reports]];
        auto simp: loop_ended_def run_done_def intro: kept_trans)
  qed (auto simp: loop_ended_def)
qed

end
