(* ===== verification/Lock_Protocol.thy ===== *)
theory Lock_Protocol
  imports Redis_Lock
begin

text \<open>
  Any number of workers competing for one lock key. A worker holds the lock from a
  successful \<open>lock_enter\<close> until its release script; while it holds it, its heartbeat task
  sleeps \<open>heartbeat_interval_ms\<close> and renews. Time passes in steps that never run past a
  sleeping heartbeat (\<open>elapse\<close>), except in the step \<open>stall\<close>, which a protocol run may or
  may not allow: a stalled process misses its heartbeat.
\<close>

record 'r lsys =
  ls_redis :: 'r
  ls_holds :: "nat \<Rightarrow> (string \<times> nat option) option"
    \<comment> \<open>per worker: its token and the milliseconds left of its heartbeat's sleep, if that runs\<close>

definition due_after :: "nat \<Rightarrow> string \<times> nat option \<Rightarrow> string \<times> nat option" where
  "due_after d h = (fst h, map_option (\<lambda>n. n - d) (snd h))"

definition on_time :: "nat \<Rightarrow> 'r lsys \<Rightarrow> bool" where
  "on_time d s \<longleftrightarrow> (\<forall>w tok n. ls_holds s w = Some (tok, Some n) \<longrightarrow> d \<le> n)"

inductive lock_step ::
  "'r redis_ops \<Rightarrow> string \<Rightarrow> nat \<Rightarrow> bool \<Rightarrow> 'r lsys \<Rightarrow> 'r lsys \<Rightarrow> bool"
  for R key ttl stalls where
  acquire: "ls_holds s w = None \<Longrightarrow> (\<And>w' h. ls_holds s w' = Some h \<Longrightarrow> fst h \<noteq> token) \<Longrightarrow>
     lock_enter R key token ttl (ls_redis s) = (Inr token, r') \<Longrightarrow>
     lock_step R key ttl stalls s
       \<lparr>ls_redis = r', ls_holds = (ls_holds s)(w \<mapsto> (token, Some (heartbeat_interval_ms ttl)))\<rparr>"
| refuse: "ls_holds s w = None \<Longrightarrow>
     lock_enter R key token ttl (ls_redis s) = (Inl e, r') \<Longrightarrow>
     lock_step R key ttl stalls s (s\<lparr>ls_redis := r'\<rparr>)"
| renew: "ls_holds s w = Some (token, Some 0) \<Longrightarrow>
     heartbeat_round R key token ttl (ls_redis s) = (True, r') \<Longrightarrow>
     lock_step R key ttl stalls s
       \<lparr>ls_redis = r', ls_holds = (ls_holds s)(w \<mapsto> (token, Some (heartbeat_interval_ms ttl)))\<rparr>"
| give_up: "ls_holds s w = Some (token, Some 0) \<Longrightarrow>
     heartbeat_round R key token ttl (ls_redis s) = (False, r') \<Longrightarrow>
     lock_step R key ttl stalls s
       \<lparr>ls_redis = r', ls_holds = (ls_holds s)(w \<mapsto> (token, None))\<rparr>"
| release: "ls_holds s w = Some (token, hb) \<Longrightarrow>
     lock_step R key ttl stalls s
       \<lparr>ls_redis = release_script R key token (ls_redis s), ls_holds = (ls_holds s)(w := None)\<rparr>"
| elapse: "stalls \<or> on_time d s \<Longrightarrow>
     lock_step R key ttl stalls s
       \<lparr>ls_redis = r_elapse R d (ls_redis s), ls_holds = map_option (due_after d) \<circ> ls_holds s\<rparr>"

inductive lock_reach ::
  "'r redis_ops \<Rightarrow> string \<Rightarrow> nat \<Rightarrow> bool \<Rightarrow> 'r \<Rightarrow> 'r lsys \<Rightarrow> bool"
  for R key ttl stalls r0 where
  start: "lock_reach R key ttl stalls r0 \<lparr>ls_redis = r0, ls_holds = (\<lambda>_. None)\<rparr>"
| step: "lock_reach R key ttl stalls r0 s \<Longrightarrow> lock_step R key ttl stalls s t \<Longrightarrow>
     lock_reach R key ttl stalls r0 t"

inductive_cases lock_stepE: "lock_step R key ttl stalls s t"

text \<open>
  The invariant: every holder's token is the key's value, its heartbeat runs, and the key
  outlives the heartbeat's sleep. One key has one value, so there is one holder.
\<close>

definition lock_inv :: "('r \<Rightarrow> keyspace) \<Rightarrow> string \<Rightarrow> 'r lsys \<Rightarrow> bool" where
  "lock_inv view key s \<longleftrightarrow>
     (\<forall>w tok hb. ls_holds s w = Some (tok, hb) \<longrightarrow>
        (\<exists>n t. hb = Some n \<and> view (ls_redis s) key = Some (tok, Some t) \<and> n < t)) \<and>
     (\<forall>w w' h h'. ls_holds s w = Some h \<longrightarrow> ls_holds s w' = Some h' \<longrightarrow> w = w')"

lemma heartbeat_interval_less: "2 \<le> ttl \<Longrightarrow> heartbeat_interval_ms ttl < 1000 * ttl"
  by (simp add: heartbeat_interval_ms_def)

lemma lock_invD:
  assumes "lock_inv view key s" and "ls_holds s w = Some (tok, hb)"
  obtains n t where "hb = Some n" and "view (ls_redis s) key = Some (tok, Some t)" and "n < t"
  using assms unfolding lock_inv_def by blast

lemma lock_inv_unique:
  "lock_inv view key s \<Longrightarrow> ls_holds s w = Some h \<Longrightarrow> ls_holds s w' = Some h' \<Longrightarrow> w = w'"
  unfolding lock_inv_def by blast

lemma lock_invI_single:
  assumes "\<And>w'. w' \<noteq> w \<Longrightarrow> holds w' = None" and "holds w = Some (tok, Some n)"
    and "view r key = Some (tok, Some t)" and "n < t"
  shows "lock_inv view key \<lparr>ls_redis = r, ls_holds = holds\<rparr>"
proof -
  have only: "w' = w" if "holds w' = Some h" for w' h
    using assms(1) that by (metis option.distinct(1))
  show ?thesis unfolding lock_inv_def
  proof (intro conjI allI impI)
    fix w' tok' hb
    assume "ls_holds \<lparr>ls_redis = r, ls_holds = holds\<rparr> w' = Some (tok', hb)"
    then show "\<exists>n t. hb = Some n \<and>
        view (ls_redis \<lparr>ls_redis = r, ls_holds = holds\<rparr>) key = Some (tok', Some t) \<and> n < t"
      using assms(2-4) only [of w'] by auto
  next
    fix w' w'' h h'
    assume "ls_holds \<lparr>ls_redis = r, ls_holds = holds\<rparr> w' = Some h"
      and "ls_holds \<lparr>ls_redis = r, ls_holds = holds\<rparr> w'' = Some h'"
    then show "w' = w''" using only [of w' h] only [of w'' h'] by simp
  qed
qed

lemma lock_invI_none:
  "(\<And>w. holds w = None) \<Longrightarrow> lock_inv view key \<lparr>ls_redis = r, ls_holds = holds\<rparr>"
  by (simp add: lock_inv_def)

context redis_kv
begin

lemma acquire_keeps_inv:
  assumes inv: "lock_inv view key s" and ttl: "2 \<le> ttl"
    and enter: "lock_enter R key token ttl (ls_redis s) = (Inr token, r')"
  shows "lock_inv view key
    \<lparr>ls_redis = r', ls_holds = (ls_holds s)(w \<mapsto> (token, Some (heartbeat_interval_ms ttl)))\<rparr>"
proof -
  have free: "view (ls_redis s) key = None"
    and now: "view r' key = Some (token, Some (1000 * ttl))"
    using enter ttl set_nx_result [of ttl key token "ls_redis s"]
      set_nx_view [of ttl key token "ls_redis s"]
    by (auto simp: lock_enter_def split: prod.splits bool.splits)
  have nobody: "ls_holds s w' = None" for w'
    using free lock_invD [OF inv] by (metis not_None_eq option.distinct(1) surj_pair)
  show ?thesis
    by (rule lock_invI_single [where w = w])
      (use nobody now heartbeat_interval_less [OF ttl] in simp_all)
qed

lemma refuse_keeps_view:
  assumes "0 < ttl" and "lock_enter R key token ttl r = (Inl e, r')"
  shows "view r' = view r"
  using assms set_nx_result [of ttl key token r] set_nx_view [of ttl key token r]
  by (auto simp: lock_enter_def split: prod.splits bool.splits)

lemma renew_keeps_inv:
  assumes inv: "lock_inv view key s" and ttl: "2 \<le> ttl"
    and hold: "ls_holds s w = Some (token, Some 0)"
    and round: "heartbeat_round R key token ttl (ls_redis s) = (True, r')"
  shows "lock_inv view key
    \<lparr>ls_redis = r', ls_holds = (ls_holds s)(w \<mapsto> (token, Some (heartbeat_interval_ms ttl)))\<rparr>"
proof -
  have others: "ls_holds s w' = None" if "w' \<noteq> w" for w'
    using lock_inv_unique [OF inv hold] that by (metis not_None_eq)
  have "r' = r_expire R key ttl (ls_redis s)"
    using round by (auto simp: heartbeat_round_def split: option.splits if_splits)
  moreover obtain t where "view (ls_redis s) key = Some (token, Some t)"
    using lock_invD [OF inv hold] by blast
  ultimately have now: "view r' key = Some (token, Some (1000 * ttl))"
    using ttl by (simp add: expire_view)
  show ?thesis
    by (rule lock_invI_single [where w = w])
      (use others now heartbeat_interval_less [OF ttl] in simp_all)
qed

lemma holder_never_gives_up:
  assumes "lock_inv view key s" and "ls_holds s w = Some (token, hb)"
  shows "fst (heartbeat_round R key token ttl (ls_redis s))"
proof -
  from lock_invD [OF assms] obtain n t where "view (ls_redis s) key = Some (token, Some t)" .
  then show ?thesis by (simp add: heartbeat_round_def get_view)
qed

lemma elapse_keeps_inv:
  assumes inv: "lock_inv view key s" and punctual: "on_time d s"
  shows "lock_inv view key
    \<lparr>ls_redis = r_elapse R d (ls_redis s), ls_holds = map_option (due_after d) \<circ> ls_holds s\<rparr>"
proof (cases "\<exists>w h. ls_holds s w = Some h")
  case False
  then have "ls_holds s w = None" for w by (cases "ls_holds s w") auto
  then show ?thesis by (intro lock_invI_none) simp
next
  case True
  then obtain w tok hb where hold: "ls_holds s w = Some (tok, hb)" by auto
  from lock_invD [OF inv this] obtain n t
    where n: "hb = Some n" and t: "view (ls_redis s) key = Some (tok, Some t)" "n < t" .
  from punctual hold n have d: "d \<le> n" by (simp add: on_time_def)
  have others: "ls_holds s w' = None" if "w' \<noteq> w" for w'
    using lock_inv_unique [OF inv hold] that by (metis not_None_eq)
  have "view (r_elapse R d (ls_redis s)) key = Some (tok, Some (t - d))"
    using t d by (simp add: elapse_view)
  moreover have "(map_option (due_after d) \<circ> ls_holds s) w = Some (tok, Some (n - d))"
    using hold n by (simp add: due_after_def)
  moreover have "(map_option (due_after d) \<circ> ls_holds s) w' = None" if "w' \<noteq> w" for w'
    using others [OF that] by simp
  moreover have "n - d < t - d" using t d by linarith
  ultimately show ?thesis by (intro lock_invI_single)
qed

lemma lock_step_keeps_inv:
  assumes "lock_step R key ttl False s s'" and inv: "lock_inv view key s" and ttl: "2 \<le> ttl"
  shows "lock_inv view key s'"
  using assms(1)
proof cases
  case (acquire w token r')
  with inv ttl show ?thesis by (simp add: acquire_keeps_inv)
next
  case (refuse w token e r')
  with ttl have "view r' = view (ls_redis s)" by (intro refuse_keeps_view) auto
  with inv refuse show ?thesis by (simp add: lock_inv_def)
next
  case (renew w token r')
  with inv ttl show ?thesis by (simp add: renew_keeps_inv)
next
  case (give_up w token r')
  with holder_never_gives_up [OF inv give_up(2)] have False by (metis fst_conv)
  then show ?thesis ..
next
  case (release w token hb)
  have "ls_holds s w' = None" if "w' \<noteq> w" for w'
    using lock_inv_unique [OF inv] release that by (metis not_None_eq)
  with release show ?thesis by (auto intro: lock_invI_none)
next
  case (elapse d)
  with inv show ?thesis by (simp add: elapse_keeps_inv)
qed

lemma reach_lock_inv:
  assumes "lock_reach R key ttl False r0 s" and "2 \<le> ttl"
  shows "lock_inv view key s"
  using assms(1)
proof induction
  case start
  show ?case by (rule lock_invI_none) simp
next
  case (step s t)
  then show ?case using lock_step_keeps_inv assms(2) by blast
qed

end

section \<open>Properties\<close>

lemma mem_lock_enter:
  "r key = None \<Longrightarrow> lock_enter mem_redis key t ttl r = (Inr t, r(key \<mapsto> (t, Some (1000 * ttl))))"
  by (simp add: lock_enter_def mem_redis_def)

text \<open>
  C5: Mutual exclusion: as long as no process misses its heartbeat and the time to live is at
  least two seconds, two workers never hold the lock of the same key at the same time, and the
  worker that holds it is the owner that the server records.
\<close>

lemma mutual_exclusion:
  assumes "redis_kv R view" and "2 \<le> ttl" and "lock_reach R key ttl False r0 s"
    and "ls_holds s w = Some (tok, hb)" and "ls_holds s w' = Some (tok', hb')"
  shows "w = w' \<and> lock_owner R (ls_redis s) key = Some tok"
proof -
  have inv: "lock_inv view key s" using redis_kv.reach_lock_inv [OF assms(1,3,2)] .
  then obtain n t where "view (ls_redis s) key = Some (tok, Some t)" using lock_invD [OF inv assms(4)] by blast
  then have "lock_owner R (ls_redis s) key = Some tok"
    using redis_kv.get_view [OF assms(1)] by (simp add: lock_owner_def)
  with lock_inv_unique [OF inv assms(4,5)] show ?thesis by simp
qed

lemma mutual_exclusion_witness:
  "\<exists>s. lock_reach mem_redis ''k'' 30 False (\<lambda>_. None) s \<and> ls_holds s 4 \<noteq> None \<and>
     lock_owner mem_redis (ls_redis s) ''k'' = Some ''t''"
proof -
  let ?start = "\<lparr>ls_redis = (\<lambda>_. None), ls_holds = (\<lambda>_. None)\<rparr> :: keyspace lsys"
  let ?held = "\<lparr>ls_redis = (ls_redis ?start)(''k'' \<mapsto> (''t'', Some (1000 * 30))),
    ls_holds = (ls_holds ?start)(4 \<mapsto> (''t'', Some (heartbeat_interval_ms 30)))\<rparr>"
  have "lock_step mem_redis ''k'' 30 False ?start ?held"
    by (rule lock_step.acquire) (simp_all only: mem_lock_enter lsys.simps option.simps)
  then have reach: "lock_reach mem_redis ''k'' 30 False (\<lambda>_. None) ?held"
    by (rule lock_reach.step [OF lock_reach.start])
  have owner: "lock_owner mem_redis (ls_redis ?held) ''k'' = Some ''t''"
    using mutual_exclusion [OF mem.redis_kv_axioms _ reach, of 4 "''t''" "Some (heartbeat_interval_ms 30)"
      4 "''t''" "Some (heartbeat_interval_ms 30)"] by simp
  show ?thesis
  proof (intro exI conjI)
    show "ls_holds ?held 4 \<noteq> None" by simp
  qed (rule reach, rule owner)
qed

text \<open>
  The exclusion depends on the heartbeat: when a holder stalls for the time to live, another
  worker acquires the lock while the first still works, so both are inside the protected section.
\<close>

lemma stalled_holder_is_overtaken:
  assumes "0 < ttl" and "t1 \<noteq> t2" and "w1 \<noteq> w2"
  shows "\<exists>s. lock_reach mem_redis key ttl True (\<lambda>_. None) s \<and>
    ls_holds s w1 \<noteq> None \<and> ls_holds s w2 \<noteq> None \<and> lock_owner mem_redis (ls_redis s) key = Some t2"
proof -
  let ?hb = "heartbeat_interval_ms ttl"
  let ?s0 = "\<lparr>ls_redis = (\<lambda>_. None), ls_holds = (\<lambda>_. None)\<rparr> :: keyspace lsys"
  let ?s1 = "\<lparr>ls_redis = (ls_redis ?s0)(key \<mapsto> (t1, Some (1000 * ttl))),
    ls_holds = (ls_holds ?s0)(w1 \<mapsto> (t1, Some ?hb))\<rparr>"
  let ?s2 = "\<lparr>ls_redis = r_elapse mem_redis (1000 * ttl) (ls_redis ?s1),
    ls_holds = map_option (due_after (1000 * ttl)) \<circ> ls_holds ?s1\<rparr>"
  let ?s3 = "\<lparr>ls_redis = (ls_redis ?s2)(key \<mapsto> (t2, Some (1000 * ttl))),
    ls_holds = (ls_holds ?s2)(w2 \<mapsto> (t2, Some ?hb))\<rparr>"
  have "lock_step mem_redis key ttl True ?s0 ?s1"
    by (rule lock_step.acquire) (simp_all add: mem_lock_enter)
  then have 1: "lock_reach mem_redis key ttl True (\<lambda>_. None) ?s1"
    by (rule lock_reach.step [OF lock_reach.start])
  have "lock_step mem_redis key ttl True ?s1 ?s2" by (rule lock_step.elapse) simp
  with 1 have 2: "lock_reach mem_redis key ttl True (\<lambda>_. None) ?s2" by (rule lock_reach.step)
  have "ls_redis ?s2 key = None" by (simp add: mem_redis_def)
  moreover have "ls_holds ?s2 w2 = None" using assms(3) by simp
  moreover have "fst h \<noteq> t2" if "ls_holds ?s2 w' = Some h" for w' h
    using that assms(2) by (auto simp: due_after_def split: if_splits)
  ultimately have "lock_step mem_redis key ttl True ?s2 ?s3"
    by (intro lock_step.acquire) (simp_all add: mem_lock_enter)
  with 2 have "lock_reach mem_redis key ttl True (\<lambda>_. None) ?s3" by (rule lock_reach.step)
  then show ?thesis using assms(3) by (intro exI [of _ ?s3]) (simp add: lock_owner_def mem_redis_def)
qed

text \<open>
  A worker that has lost the lock neither releases nor renews the lock of the new owner: its
  release script leaves the owner in place and its heartbeat ends without touching the server.
\<close>

lemma stale_owner_is_harmless:
  assumes "redis_kv R view" and "lock_owner R r key = Some other" and "other \<noteq> token"
  shows "lock_owner R (release_script R key token r) key = Some other \<and>
    heartbeat_round R key token ttl r = (False, r)"
  using redis_kv.lock_never_stolen [OF assms] assms(2,3)
  by (simp add: heartbeat_round_def lock_owner_def)

end
