(* ===== verification/Samples.thy ===== *)
theory Samples
  imports Executor
begin

text \<open>
  Concrete values on which the properties are instantiated: an environment in which no other
  session writes and publishing succeeds, a workflow of three steps of which the second
  writes a checkpoint, and an execution of it in a given status.
\<close>

definition sample_env :: exec_env where
  "sample_env =
     \<lparr>ee_wall = (\<lambda>n. n), ee_mono = (\<lambda>n. n), ee_uuid = word_of_nat, ee_xadd = (\<lambda>_. None),
      ee_others = (\<lambda>_ r. r), ee_max_per_execution = 10, ee_max_per_day = 100\<rparr>"

definition sample_step :: "string \<Rightarrow> bool \<Rightarrow> workflow_step" where
  "sample_step n ck =
     \<lparr>ws_config = (step_config_default n)\<lparr>sc_checkpoint_before := ck\<rparr>, ws_input_schema = [],
      ws_output_schema = []\<rparr>"

definition sample_wd :: workflow_definition where
  "sample_wd =
     \<lparr>wd_steps = [sample_step ''a'' False, sample_step ''b'' True, sample_step ''c'' False],
      wd_version = 1\<rparr>"

definition sample_row :: "execution_status \<Rightarrow> exec_row" where
  "sample_row st =
     \<lparr>ex_id = 1, ex_tenant_id = 7, ex_workflow_id = 9, ex_status = st,
      ex_context = new_context 1 7 9 [], ex_error_message = None, ex_pause_reason = None,
      ex_last_heartbeat = Some 0, ex_definition_snapshot = Some sample_wd\<rparr>"

definition sample_world :: "execution_status \<Rightarrow> keyspace exec_world" where
  "sample_world st =
     \<lparr>xw_disk = sample_row st, xw_row = sample_row st, xw_loaded = sample_row st, xw_tx = None,
      xw_disk_ckpts = [], xw_new_ckpts = [], xw_locks = (\<lambda>_. None), xw_sent = [], xw_tick = 0,
      xw_ctx = new_context 1 7 9 [], xw_cost = new_cost_tracker 10 100, xw_step_name = ''unknown''\<rparr>"

lemmas sample_defs = sample_env_def sample_step_def sample_wd_def sample_row_def sample_world_def
  step_config_default_def new_context_def

end
