(* ===== verification/Executor_Runs.thy ===== *)
theory Executor_Runs
  imports Executor_Props Lock_Protocol Samples
begin

text \<open>
  What a whole run of the executor does: the completed run, the run that is refused, the run
  that stops early or fails, the lock around it, and where it resumes.
\<close>

section \<open>Whole runs\<close>

text \<open>With the lock free, \<open>run\<close> is \<open>run_locked\<close> between taking the lock and giving it back.\<close>

lemma wp_lock_handler:
  "wp (case e of LockAcquisitionError _ \<Rightarrow> ret () | _ \<Rightarrow> throw e) Q X s =
     (if lock_error e then Q () s else X e s)"
  by (cases e) simp_all

lemma run_done_locks [simp]: "run_done wd w (w'\<lparr>xw_locks := r\<rparr>) = run_done wd w w'"
  by (simp add: run_done_def)

lemma run_free:
  assumes "redis_kv R view" and "lock_owner R (xw_locks w) (lock_key (ex_id (xw_row w))) = None"
  obtains r' where "lock_owner R r' =
      (lock_owner R (xw_locks w))(lock_key (ex_id (xw_row w)) \<mapsto> uuid_str (ee_uuid E (xw_tick w)))"
    and "\<And>Q X. wp (run R E wd) Q X w = wp (run_locked E wd)
      (\<lambda>_ w'. Q () (w'\<lparr>xw_locks := release_script R (lock_key (ex_id (xw_row w)))
        (uuid_str (ee_uuid E (xw_tick w))) (xw_locks w')\<rparr>))
      (\<lambda>e w'. (if lock_error e then Q () else X e) (w'\<lparr>xw_locks := release_script R
        (lock_key (ex_id (xw_row w))) (uuid_str (ee_uuid E (xw_tick w))) (xw_locks w')\<rparr>))
      (w\<lparr>xw_tick := Suc (xw_tick w), xw_locks := r'\<rparr>)"
proof -
  let ?k = "lock_key (ex_id (xw_row w))" and ?tok = "uuid_str (ee_uuid E (xw_tick w))"
  obtain res r' where enter: "lock_enter R ?k ?tok 30 (xw_locks w) = (res, r')" by fastforce
  have "res = Inr ?tok" and "lock_owner R r' = (lock_owner R (xw_locks w))(?k \<mapsto> ?tok)"
    using redis_kv.lock_enter_free [OF assms(1) _ assms(2) enter] by simp_all
  with enter show ?thesis
    by (intro that [of r']) (simp_all add: run_def wp_with_lock wp_lock_handler if_distrib [where f = "\<lambda>g. g _"])
qed


lemma run_refused:
  assumes "redis_kv R view" and "lock_owner R (xw_locks w) (lock_key (ex_id (xw_row w))) = None"
    and "ex_status (xw_row w) \<noteq> PENDING"
  shows "\<exists>w'. run R E wd w = (Inl (InvalidTransitionError
      (invalid_transition_message (ex_status (xw_row w)) ''submit'')), w') \<and>
    xw_row w' = xw_row w \<and> xw_disk w' = xw_disk w \<and> xw_tx w' = xw_tx w \<and> xw_sent w' = xw_sent w \<and>
    xw_disk_ckpts w' = xw_disk_ckpts w \<and> xw_new_ckpts w' = xw_new_ckpts w \<and>
    lock_owner R (xw_locks w') = lock_owner R (xw_locks w)"
proof -
  let ?k = "lock_key (ex_id (xw_row w))" and ?tok = "uuid_str (ee_uuid E (xw_tick w))"
  obtain r' where own: "lock_owner R r' = (lock_owner R (xw_locks w))(?k \<mapsto> ?tok)"
    and run: "\<And>Q X. wp (run R E wd) Q X w = wp (run_locked E wd)
      (\<lambda>_ w'. Q () (w'\<lparr>xw_locks := release_script R ?k ?tok (xw_locks w')\<rparr>))
      (\<lambda>e w'. (if lock_error e then Q () else X e) (w'\<lparr>xw_locks := release_script R ?k ?tok (xw_locks w')\<rparr>))
      (w\<lparr>xw_tick := Suc (xw_tick w), xw_locks := r'\<rparr>)"
    using run_free [OF assms(1,2), where E = E and wd = wd] by blast
  let ?e = "InvalidTransitionError (invalid_transition_message (ex_status (xw_row w)) ''submit'')"
  have tr: "transition (ex_status (xw_row w)) ''submit'' = Inl ?e"
    using assms(3) transition_submit [of "ex_status (xw_row w)" RUNNING]
    by (cases "ex_status (xw_row w)") (simp_all add: transition_def)
  have "wp (run R E wd) (\<lambda>_ _. False) (\<lambda>e w'. e = ?e \<and>
      xw_row w' = xw_row w \<and> xw_disk w' = xw_disk w \<and> xw_tx w' = xw_tx w \<and> xw_sent w' = xw_sent w \<and>
      xw_disk_ckpts w' = xw_disk_ckpts w \<and> xw_new_ckpts w' = xw_new_ckpts w \<and>
      lock_owner R (xw_locks w') = lock_owner R (xw_locks w)) w"
    unfolding run run_locked_def start_run_def
    by (simp add: wp_load_run tr o_def redis_kv.release_own_lock [OF assms(1,2) own])
  then show ?thesis by (auto simp: wp_Inl)
qed

text \<open>No operation of a run touches the lock server except taking and releasing the lock.\<close>

lemma publish_locks:
  "wp (publish E body) (\<lambda>_ w'. xw_locks w' = xw_locks w) (\<lambda>_ w'. xw_locks w' = xw_locks w) w"
  by (rule wp_publish) (simp_all add: published_frame)

lemma run_step_locks:
  "wp (run_step E x) (\<lambda>_ w'. xw_locks w' = xw_locks w) (\<lambda>_ w'. xw_locks w' = xw_locks w) w"
  by (auto simp: run_step_def checkpoint_before_step_def step_work_def Let_def split: prod.split sum.split
      intro!: wp_mono [OF publish_locks])

lemma step_loop_locks:
  "wp (step_loop E xs) (\<lambda>_ w'. xw_locks w' = xw_locks w) (\<lambda>_ w'. xw_locks w' = xw_locks w) w"
proof (induction xs arbitrary: w)
  case Nil
  then show ?case by simp
next
  case (Cons x xs)
  show ?case unfolding step_loop.simps
    by (rule wp_bind [OF run_step_locks]) (auto intro!: wp_mono [OF Cons.IH])
qed

lemma loop_exception_locks:
  "wp (loop_exception E exc) (\<lambda>_ w'. xw_locks w' = xw_locks w) (\<lambda>_ w'. xw_locks w' = xw_locks w) w"
  by (auto simp: loop_exception_def pause_run_def update_status_def split: exn.split
      intro!: wp_mono [OF publish_locks])

lemma finish_run_locks:
  "wp (finish_run E t n) (\<lambda>_ w'. xw_locks w' = xw_locks w) (\<lambda>_ w'. xw_locks w' = xw_locks w) w"
  by (auto simp: finish_run_def update_status_def intro!: wp_mono [OF publish_locks])

lemma start_run_locks:
  "wp (start_run E) (\<lambda>_ w'. xw_locks w' = xw_locks w) (\<lambda>_ w'. xw_locks w' = xw_locks w) w"
  by (auto simp: start_run_def update_status_def split: sum.split intro!: wp_mono [OF publish_locks])

lemma run_locked_locks:
  "xw_locks (snd (run_locked E wd w)) = xw_locks w"
proof -
  let ?same = "\<lambda>w' :: 'a exec_world. xw_locks w' = xw_locks w"
  have "wp (run_locked E wd) (\<lambda>_. ?same) (\<lambda>_. ?same) w"
  proof (rule wp_run_locked)
    show "wp (start_run E) (\<lambda>_. ?same) (\<lambda>_. ?same) (snd (load_run E w))"
      by (rule wp_mono [OF start_run_locks]) simp_all
  next
    fix w' assume "?same w'"
    then show "wp (step_loop E (steps_to_run wd w)) (\<lambda>_. ?same) (\<lambda>_. ?same) (w'\<lparr>xw_step_name := ''unknown''\<rparr>)"
      by - (rule wp_mono [OF step_loop_locks]; simp)
  next
    fix e w' assume "?same w'"
    then show "wp (loop_exception E e) (\<lambda>_. ?same) (\<lambda>_. ?same) w'"
      by - (rule wp_mono [OF loop_exception_locks]; simp)
  next
    fix t w' assume "?same w'"
    then show "wp (finish_run E t (length (wd_steps wd))) (\<lambda>_. ?same) (\<lambda>_. ?same) w'"
      by - (rule wp_mono [OF finish_run_locks]; simp)
  qed
  then show ?thesis by (simp add: wp_state)
qed

text \<open>A checkpoint with the highest step index is the one a run resumes from.\<close>

lemma best_checkpoint_cases:
  "best_checkpoint b cs = (case b of None \<Rightarrow> (case cs of [] \<Rightarrow> None | c # cs' \<Rightarrow> best_checkpoint (Some c) cs')
     | Some c \<Rightarrow> best_checkpoint (Some c) cs)"
  by (cases b; cases cs) auto

lemma best_checkpoint_max:
  "\<exists>c. best_checkpoint (Some b) cs = Some c \<and> c \<in> insert b (set cs) \<and>
     (\<forall>d \<in> insert b (set cs). ck_step_index d \<le> ck_step_index c)"
proof (induction cs arbitrary: b)
  case Nil
  then show ?case by simp
next
  case (Cons c cs)
  from Cons.IH [of "if ck_step_index b < ck_step_index c then c else b"]
  show ?case by (auto split: if_splits intro: order_trans)
qed

lemma get_latest_max:
  assumes "get_latest eid cs = Some c"
  shows "c \<in> set cs \<and> ck_execution_id c = eid \<and>
    (\<forall>d \<in> set cs. ck_execution_id d = eid \<longrightarrow> ck_step_index d \<le> ck_step_index c)"
proof (cases "filter (\<lambda>c. ck_execution_id c = eid) cs")
  case Nil
  with assms show ?thesis by (simp add: get_latest_def)
next
  case (Cons d ds)
  with best_checkpoint_max [of d ds] assms have c: "c \<in> insert d (set ds)"
    and max: "\<forall>x \<in> insert d (set ds). ck_step_index x \<le> ck_step_index c"
    by (auto simp: get_latest_def)
  have "set (filter (\<lambda>c. ck_execution_id c = eid) cs) = insert d (set ds)" using Cons by simp
  then have eq: "insert d (set ds) = {c \<in> set cs. ck_execution_id c = eid}" by auto
  from c max show ?thesis unfolding eq by auto
qed

lemma get_latest_None: "get_latest eid cs = None \<longleftrightarrow> (\<forall>c \<in> set cs. ck_execution_id c \<noteq> eid)"
proof (cases "filter (\<lambda>c. ck_execution_id c = eid) cs")
  case Nil
  then show ?thesis by (auto simp: get_latest_def filter_empty_conv)
next
  case (Cons d ds)
  then have "d \<in> set (filter (\<lambda>c. ck_execution_id c = eid) cs)" by simp
  moreover obtain c where "get_latest eid cs = Some c"
    using best_checkpoint_max [of d ds] Cons by (auto simp: get_latest_def)
  ultimately show ?thesis by auto
qed

lemma get_latest_append_higher:
  assumes "ck_execution_id c = eid"
    and "\<And>d. d \<in> set cs \<Longrightarrow> ck_execution_id d = eid \<Longrightarrow> ck_step_index d < ck_step_index c"
  shows "get_latest eid (cs @ [c]) = Some c"
proof (cases "get_latest eid (cs @ [c])")
  case None
  with assms(1) show ?thesis by (simp add: get_latest_None)
next
  case (Some d)
  from get_latest_max [OF this] have "d \<in> set cs \<or> d = c" "ck_execution_id d = eid"
    and "ck_step_index c \<le> ck_step_index d" using assms(1) by auto
  with assms(2) Some show ?thesis using leD by blast
qed

definition cancelled_by_user :: "exec_env \<Rightarrow> bool" where
  "cancelled_by_user E \<longleftrightarrow> (\<forall>n r. ee_others E n r = r\<lparr>ex_status := CANCELLED\<rparr>) \<and>
     (\<forall>n. ee_xadd E n = None) \<and> 0 \<le> ee_max_per_execution E \<and> 0 \<le> ee_max_per_day E"

lemma cancelled_by_userD:
  "cancelled_by_user E \<Longrightarrow> ee_others E n r = r\<lparr>ex_status := CANCELLED\<rparr>"
  "cancelled_by_user E \<Longrightarrow> ee_xadd E n = None"
  "cancelled_by_user E \<Longrightarrow> \<not> ee_max_per_execution E < 0 \<and> \<not> ee_max_per_day E < 0"
  unfolding cancelled_by_user_def by auto

lemma step_work_misses_cancel:
  assumes "cancelled_by_user E" and "xw_row w = xw_loaded w" and "xw_tx w = None"
    and "ex_status (xw_row w) = RUNNING"
    and "xw_cost w = new_cost_tracker (ee_max_per_execution E) (ee_max_per_day E)"
    and "ctx_current_step_index (ex_context (xw_row w)) \<noteq> Suc i"
  shows "wp (step_work E i name) (\<lambda>_ w'. ex_status (xw_disk w') = CANCELLED \<and> ex_status (xw_row w') = RUNNING \<and>
      xw_loaded w' = xw_row w' \<and> (\<exists>r. xw_tx w' = Some r)) (\<lambda>_ _. False) w"
proof -
  have "xw_row w\<lparr>ex_context := xw_ctx w\<lparr>ctx_current_step_index := Suc i\<rparr>\<rparr> \<noteq> xw_loaded w"
  proof
    assume "xw_row w\<lparr>ex_context := xw_ctx w\<lparr>ctx_current_step_index := Suc i\<rparr>\<rparr> = xw_loaded w"
    from arg_cong [OF this, of "\<lambda>r. ctx_current_step_index (ex_context r)"] assms(2,6)
    show False by simp
  qed
  then show ?thesis
    using cancelled_by_userD [OF assms(1)] assms(2-5)
    by (simp add: step_work_def Let_def cost_add_free wp_publish_eq flush_row_def merge_columns_def)
qed

lemma finish_run_overwrites:
  assumes "cancelled_by_user E" and "xw_loaded w = xw_row w" and "ex_status (xw_row w) = RUNNING"
    and "xw_tx w = Some r"
  shows "wp (finish_run E t n) (\<lambda>_ w'. ex_status (xw_disk w') = COMPLETED) (\<lambda>_ _. False) w"
  using assms cancelled_by_userD(2) [OF assms(1)]
  by (auto simp: finish_run_def wp_update_status wp_publish_eq Let_def flush_row_def commit_tx_def
      merge_columns_def dest!: arg_cong [where f = ex_status])

text \<open>A run from PENDING to COMPLETED.\<close>

lemma run_to_completion:
  assumes "redis_kv R view" and "lock_owner R (xw_locks w) (lock_key (ex_id (xw_row w))) = None"
    and "quiet E" and "fresh w" and "ex_status (xw_row w) = PENDING"
  shows "\<exists>w'. run R E wd w = (Inr (), w') \<and> ex_status (xw_disk w') = COMPLETED \<and>
    same_identity (xw_disk w) (xw_disk w') \<and>
    completed_steps (xw_sent w') = completed_steps (xw_sent w) @ map step_label (steps_to_run wd w) \<and>
    map ckpt_key (xw_disk_ckpts w') = map ckpt_key (xw_disk_ckpts w) @ planned_checkpoints wd w \<and>
    lock_owner R (xw_locks w') = lock_owner R (xw_locks w) \<and> idle w'"
proof -
  let ?k = "lock_key (ex_id (xw_row w))" and ?tok = "uuid_str (ee_uuid E (xw_tick w))"
  obtain r' where own: "lock_owner R r' = (lock_owner R (xw_locks w))(?k \<mapsto> ?tok)"
    and run: "\<And>Q X. wp (run R E wd) Q X w = wp (run_locked E wd)
      (\<lambda>_ w'. Q () (w'\<lparr>xw_locks := release_script R ?k ?tok (xw_locks w')\<rparr>))
      (\<lambda>e w'. (if lock_error e then Q () else X e) (w'\<lparr>xw_locks := release_script R ?k ?tok (xw_locks w')\<rparr>))
      (w\<lparr>xw_tick := Suc (xw_tick w), xw_locks := r'\<rparr>)"
    using run_free [OF assms(1,2), where E = E and wd = wd] by blast
  let ?w = "w\<lparr>xw_tick := Suc (xw_tick w), xw_locks := r'\<rparr>"
  have start: "fresh ?w" "ex_status (xw_row ?w) = PENDING" using assms(4,5) by (simp_all add: fresh_def)
  have same: "run_done wd ?w w' = run_done wd w w'" for w'
    by (simp add: run_done_def steps_to_run_def planned_checkpoints_def start_variables_def
      cong: option.case_cong)
  have alone: "alone E" using assms(3) by simp
  have "wp (run R E wd) (\<lambda>_ w'. ex_status (xw_disk w') = COMPLETED \<and>
      same_identity (xw_disk w) (xw_disk w') \<and> run_done wd w w' \<and> idle w' \<and>
      lock_owner R (xw_locks w') = lock_owner R (xw_locks w)) (\<lambda>_ _. False) w"
    unfolding run
    by (rule wp_mono [OF run_locked_alone [OF alone start]])
      (use assms(3,4) redis_kv.release_own_lock [OF assms(1,2) own] in
        \<open>auto simp: same kept_def fresh_def\<close>)
  then show ?thesis by (auto simp: wp_Inr run_done_def)
qed

section \<open>The sample execution\<close>

lemma sample_quiet [simp]: "quiet sample_env"
  unfolding quiet_def alone_def by (simp add: sample_env_def)

lemma sample_fresh [simp]: "fresh (sample_world st)"
  by (simp add: fresh_def sample_world_def)

lemma mem_owner [simp]: "lock_owner mem_redis r k = map_option fst (r k)"
  by (simp add: lock_owner_def mem_redis_def)

lemma sample_world_simps [simp]:
  "xw_locks (sample_world st) = (\<lambda>_. None)" "xw_disk (sample_world st) = sample_row st"
  "xw_row (sample_world st) = sample_row st"
  "xw_sent (sample_world st) = []" "xw_disk_ckpts (sample_world st) = []"
  "xw_new_ckpts (sample_world st) = []" "ex_status (sample_row st) = st" "ex_id (sample_row st) = 1"
  by (simp_all add: sample_world_def sample_row_def)

lemma sample_steps:
  "map step_label (steps_to_run sample_wd (sample_world st)) = [(0, ''a''), (1, ''b''), (2, ''c'')]"
  by (simp add: steps_to_run_def resume_point_def get_latest_def step_label_def sample_defs)

lemma sample_plan:
  "planned_checkpoints sample_wd (sample_world st) = [(1, 7, ''b'', 1, [])]"
  by (simp add: planned_checkpoints_def start_variables_def steps_to_run_def resume_point_def get_latest_def
      sample_defs)

definition failing_env :: exec_env where
  "failing_env = sample_env\<lparr>ee_xadd := (\<lambda>n. if n = 14 then Some (LibraryError ''connection'') else None)\<rparr>"

lemma failing_env_alone: "alone failing_env \<and> no_lock_errors failing_env"
  by (simp add: failing_env_def alone_def no_lock_errors_def sample_env_def)

section \<open>Properties\<close>

text \<open>
  C1: A run of a PENDING execution whose lock is free, with no other session writing and
  every publish succeeding, returns: the committed row is COMPLETED and still the same execution,
  the steps reported on the global stream are exactly the steps from the resume point on, in
  order, the checkpoints committed are exactly those of the flagged steps among them, and the
  lock server is as before.
\<close>

lemma run_completes:
  assumes "redis_kv R view" and "lock_owner R (xw_locks w) (lock_key (ex_id (xw_row w))) = None"
    and "quiet E" and "fresh w" and "ex_status (xw_row w) = PENDING"
  shows "\<exists>w'. run R E wd w = (Inr (), w') \<and> ex_status (xw_disk w') = COMPLETED \<and>
    same_identity (xw_disk w) (xw_disk w') \<and>
    completed_steps (xw_sent w') = completed_steps (xw_sent w) @ map step_label (steps_to_run wd w) \<and>
    map ckpt_key (xw_disk_ckpts w') = map ckpt_key (xw_disk_ckpts w) @ planned_checkpoints wd w \<and>
    lock_owner R (xw_locks w') = lock_owner R (xw_locks w)"
  using run_to_completion [OF assms, of wd] by blast

lemma run_completes_witness:
  "\<exists>w'. run mem_redis sample_env sample_wd (sample_world PENDING) = (Inr (), w') \<and>
     ex_status (xw_disk w') = COMPLETED \<and>
     completed_steps (xw_sent w') = [(0, ''a''), (1, ''b''), (2, ''c'')] \<and>
     map ckpt_key (xw_disk_ckpts w') = [(1, 7, ''b'', 1, [])]"
  using run_completes [OF mem.redis_kv_axioms, of "sample_world PENDING" sample_env sample_wd]
  by (auto simp: sample_steps sample_plan)

text \<open>
  C6: Whatever the other sessions, the clocks and the stream server do, and however the run
  ends, the steps that it reports as completed are a prefix, in order and without repetition, of
  the steps from its resume point on.
\<close>

lemma run_reports_in_order:
  "\<exists>k. completed_steps (xw_sent (snd (run R E wd w))) =
     completed_steps (xw_sent w) @ take k (map step_label (steps_to_run wd w))"
  using run_reports [of wd w R E] by (simp add: reports_prefix_def take_map)

text \<open>
  When another worker holds the lock of the execution, \<open>run\<close> returns without changing
  the row, the transaction, the checkpoints or the event streams, and the lock stays with its
  owner.
\<close>

lemma run_lock_held:
  assumes "redis_kv R view" and "lock_owner R (xw_locks w) (lock_key (ex_id (xw_row w))) \<noteq> None"
  shows "\<exists>w'. run R E wd w = (Inr (), w') \<and>
    xw_row w' = xw_row w \<and> xw_disk w' = xw_disk w \<and> xw_tx w' = xw_tx w \<and> xw_sent w' = xw_sent w \<and>
    xw_disk_ckpts w' = xw_disk_ckpts w \<and> xw_new_ckpts w' = xw_new_ckpts w \<and>
    lock_owner R (xw_locks w') = lock_owner R (xw_locks w)"
proof -
  obtain res r' where enter: "lock_enter R (lock_key (ex_id (xw_row w)))
    (uuid_str (ee_uuid E (xw_tick w))) 30 (xw_locks w) = (res, r')" by fastforce
  with redis_kv.lock_enter_held [OF assms(1) _ assms(2) enter]
  show ?thesis by (auto simp: run_def with_lock_def tick_value_def andthen_def tryexcept_def)
qed



text \<open>
  C7: With no other session writing, and whichever publishes fail, a run of a PENDING
  execution either returns with COMPLETED or PAUSED committed, or raises with the committed row
  untouched or RUNNING: no other status is ever left behind.
\<close>

lemma run_outcome:
  assumes "redis_kv R view" and "lock_owner R (xw_locks w) (lock_key (ex_id (xw_row w))) = None"
    and "alone E" and "no_lock_errors E" and "fresh w" and "ex_status (xw_row w) = PENDING"
  shows "case run R E wd w of
      (Inr _, w') \<Rightarrow> ex_status (xw_disk w') = COMPLETED \<or> ex_status (xw_disk w') = PAUSED
    | (Inl e, w') \<Rightarrow> xw_disk w' = xw_disk w \<or> ex_status (xw_disk w') = RUNNING"
proof -
  let ?k = "lock_key (ex_id (xw_row w))" and ?tok = "uuid_str (ee_uuid E (xw_tick w))"
  obtain r' where own: "lock_owner R r' = (lock_owner R (xw_locks w))(?k \<mapsto> ?tok)"
    and run: "\<And>Q X. wp (run R E wd) Q X w = wp (run_locked E wd)
      (\<lambda>_ w'. Q () (w'\<lparr>xw_locks := release_script R ?k ?tok (xw_locks w')\<rparr>))
      (\<lambda>e w'. (if lock_error e then Q () else X e) (w'\<lparr>xw_locks := release_script R ?k ?tok (xw_locks w')\<rparr>))
      (w\<lparr>xw_tick := Suc (xw_tick w), xw_locks := r'\<rparr>)"
    using run_free [OF assms(1,2), where E = E and wd = wd] by blast
  let ?w = "w\<lparr>xw_tick := Suc (xw_tick w), xw_locks := r'\<rparr>"
  have start: "fresh ?w" "ex_status (xw_row ?w) = PENDING" using assms(5,6) by (simp_all add: fresh_def)
  have "wp (run R E wd) (\<lambda>_ w'. ex_status (xw_disk w') = COMPLETED \<or> ex_status (xw_disk w') = PAUSED)
      (\<lambda>_ w'. xw_disk w' = xw_disk w \<or> ex_status (xw_disk w') = RUNNING) w"
    unfolding run
    by (rule wp_mono [OF wp_conj [OF run_locked_alone [OF assms(3) start] run_locked_raises [OF assms(4)]]])
      auto
  then show ?thesis by (simp add: wp_def)
qed

lemma run_outcome_witness:
  "case run mem_redis failing_env sample_wd (sample_world PENDING) of
      (Inr _, w') \<Rightarrow> ex_status (xw_disk w') = COMPLETED \<or> ex_status (xw_disk w') = PAUSED
    | (Inl e, w') \<Rightarrow> xw_disk w' = sample_row PENDING \<or> ex_status (xw_disk w') = RUNNING"
  using run_outcome [OF mem.redis_kv_axioms, of "sample_world PENDING" failing_env sample_wd]
  by (auto simp: failing_env_alone split: prod.splits sum.splits)

text \<open>
  An exception raised inside the step loop is not lost: either the execution is committed
  as PAUSED with the text of the exception as its error message, or, when publishing the pause
  fails too, the committed row is untouched.
\<close>

lemma loop_failure_pauses:
  assumes "alone E" and "in_sync w" and "\<And>m. exc \<noteq> CostLimitExceeded m"
  shows "case loop_exception E exc w of
      (Inr go, w') \<Rightarrow> \<not> go \<and> ex_status (xw_disk w') = PAUSED \<and>
        ex_error_message (xw_disk w') = Some (exn_str exc) \<and> same_identity (xw_row w) (xw_disk w')
    | (Inl _, w') \<Rightarrow> xw_disk w' = xw_disk w"
  using loop_exception_alone [OF assms(1,2), of exc] assms(3)
  by (cases exc) (auto simp: wp_def kept_def split: prod.splits sum.splits)

text \<open>
  A pause or cancellation that the run finds when it refreshes the row before a step stops
  the loop there: the step is not started and the status is left as found.
\<close>

lemma stop_at_signal:
  assumes "ex_status (xw_row (refresh_row E w)) \<in> {PAUSED, CANCELLED}"
  shows "step_loop E (x # xs) w = (Inr False, refresh_row E w)"
  using assms by (cases x) (auto simp: run_step_def seq_def andthen_def ret_def split: prod.splits)

lemma stop_at_signal_witness:
  "step_loop sample_env [(0, sample_step ''a'' False)] (sample_world CANCELLED) =
     (Inr False, refresh_row sample_env (sample_world CANCELLED))"
  by (rule stop_at_signal) (simp add: refresh_row_def Let_def sample_env_def sample_world_def sample_row_def)

text \<open>
  C9: A checkpoint that is committed before a step makes the next run resume after that step,
  although the step has not been reported as completed: a crash during the step makes recovery
  skip it.
\<close>

lemma checkpointed_step_is_skipped:
  assumes "sc_checkpoint_before cfg" and "xw_new_ckpts w = []"
    and "\<And>d. d \<in> set (xw_disk_ckpts w) \<Longrightarrow> ck_execution_id d = ex_id (xw_row w) \<Longrightarrow> ck_step_index d < i"
  shows "\<exists>w'. checkpoint_before_step E i cfg w = (Inr (), w') \<and> xw_sent w' = xw_sent w \<and>
    fst (resume_point (ex_id (xw_row w)) (xw_disk_ckpts w')) = i + 1"
proof -
  have "wp (checkpoint_before_step E i cfg) (\<lambda>_ w'. xw_sent w' = xw_sent w \<and>
      fst (resume_point (ex_id (xw_row w)) (xw_disk_ckpts w')) = i + 1) (\<lambda>_ _. False) w"
    using assms(1,2)
    by (simp add: checkpoint_before_step_def should_checkpoint_def Let_def resume_point_def)
     (subst get_latest_append_higher; use assms(3) in auto)
  then show ?thesis by (auto simp: wp_Inr)
qed

lemma checkpointed_step_is_skipped_witness:
  "\<exists>w'. checkpoint_before_step sample_env 1 (ws_config (sample_step ''b'' True)) (sample_world RUNNING) =
      (Inr (), w') \<and> xw_sent w' = [] \<and> fst (resume_point 1 (xw_disk_ckpts w')) = 2"
  using checkpointed_step_is_skipped [of "ws_config (sample_step ''b'' True)" "sample_world RUNNING" 1 sample_env]
  by (simp add: sample_step_def eval_nat_numeral)

text \<open>
  C10: A cancellation that another session commits after the run's last refresh is lost: the
  last step leaves CANCELLED in the row, and finishing the run overwrites it with COMPLETED.
\<close>

lemma cancel_is_overwritten:
  assumes "cancelled_by_user E" and "xw_row w = xw_loaded w" and "xw_tx w = None"
    and "ex_status (xw_row w) = RUNNING"
    and "xw_cost w = new_cost_tracker (ee_max_per_execution E) (ee_max_per_day E)"
    and "ctx_current_step_index (ex_context (xw_row w)) \<noteq> Suc i"
  shows "\<exists>w1 w2. step_work E i name w = (Inr (), w1) \<and> ex_status (xw_disk w1) = CANCELLED \<and>
    finish_run E t n w1 = (Inr (), w2) \<and> ex_status (xw_disk w2) = COMPLETED"
proof -
  from step_work_misses_cancel [OF assms, of name]
  obtain w1 r where w1: "step_work E i name w = (Inr (), w1)" "ex_status (xw_disk w1) = CANCELLED"
      "ex_status (xw_row w1) = RUNNING" "xw_loaded w1 = xw_row w1" "xw_tx w1 = Some r"
    by (auto simp: wp_Inr)
  from finish_run_overwrites [OF assms(1) w1(4,3,5), of t n]
  obtain w2 where "finish_run E t n w1 = (Inr (), w2)" "ex_status (xw_disk w2) = COMPLETED"
    by (auto simp: wp_Inr)
  with w1 show ?thesis by blast
qed

lemma cancel_is_overwritten_witness:
  "\<exists>w1 w2. step_work (sample_env\<lparr>ee_others := (\<lambda>_ r. r\<lparr>ex_status := CANCELLED\<rparr>)\<rparr>) 2 ''c''
      (sample_world RUNNING) = (Inr (), w1) \<and> ex_status (xw_disk w1) = CANCELLED \<and>
    finish_run (sample_env\<lparr>ee_others := (\<lambda>_ r. r\<lparr>ex_status := CANCELLED\<rparr>)\<rparr>) 0 3 w1 = (Inr (), w2) \<and>
    ex_status (xw_disk w2) = COMPLETED"
  using cancel_is_overwritten [of "sample_env\<lparr>ee_others := (\<lambda>_ r. r\<lparr>ex_status := CANCELLED\<rparr>)\<rparr>"
      "sample_world RUNNING" 2 "''c''" 0 3]
  by (simp add: cancelled_by_user_def sample_defs)

end
