(* ===== verification/Tasks.thy ===== *)
theory Tasks
  imports Executor_Runs
begin

text \<open>
  The Celery tasks of the workflow service: \<open>tasks/execute.py\<close>, \<open>tasks/recover.py\<close>,
  \<open>engine/recovery.py\<close> and the session of \<open>dependencies.py\<close>. The state of the service is
  the database, the lock server, the published events and the task queue; the broker is the
  argument \<open>bk\<close>, which gives the exception that enqueueing an execution raises, if any.
\<close>

record 'r service =
  sv_db :: wf_db
  sv_locks :: 'r
  sv_sent :: "(string \<times> event) list"
  sv_queue :: "uuid list"
  sv_tick :: nat

section \<open>Executing\<close>

text \<open>The executor's view of a row that the session has just loaded, and what it leaves behind.\<close>

definition world_of :: "exec_row \<Rightarrow> 'r service \<Rightarrow> 'r exec_world" where
  "world_of ex sv =
     \<lparr>xw_disk = ex, xw_row = ex, xw_loaded = ex, xw_tx = None,
      xw_disk_ckpts = db_checkpoints (sv_db sv), xw_new_ckpts = [], xw_locks = sv_locks sv,
      xw_sent = sv_sent sv, xw_tick = sv_tick sv, xw_ctx = ex_context ex,
      xw_cost = new_cost_tracker 0 0, xw_step_name = ''unknown''\<rparr>"

definition service_of :: "'r exec_world \<Rightarrow> 'r service \<Rightarrow> 'r service" where
  "service_of w sv = sv
     \<lparr>sv_db := (put_execution (xw_disk w) (sv_db sv))\<lparr>db_checkpoints := xw_disk_ckpts w\<rparr>,
      sv_locks := xw_locks w, sv_sent := xw_sent w, sv_tick := xw_tick w\<rparr>"

text \<open>\<open>get_db_session_context\<close>: commit on return, roll back on an exception.\<close>

definition in_session ::
  "exec_env \<Rightarrow> exec_row \<Rightarrow> ('r exec_world, unit) py \<Rightarrow> ('r service, unit) py" where
  "in_session E ex body = (\<lambda>sv.
     case body (world_of ex sv) of
       (Inr _, w) \<Rightarrow> (Inr (), service_of (commit_tx E w) sv)
     | (Inl e, w) \<Rightarrow> (Inl e, service_of (rollback_tx w) sv))"

definition execute_run :: "'r redis_ops \<Rightarrow> exec_env \<Rightarrow> rls_ctx \<Rightarrow> uuid \<Rightarrow> ('r service, unit) py" where
  "execute_run R E c eid =
     andthen (gets sv_db) (\<lambda>db.
     andthen (liftsum (scalar_one_or_none
       (select_rows c ex_tenant_id (\<lambda>r. ex_id r = eid) (db_executions db)))) (\<lambda>found.
     case found of
       None \<Rightarrow> ret ()
     | Some ex \<Rightarrow>
         (case check_not_terminal (ex_status ex) of
            Inl _ \<Rightarrow> ret ()
          | Inr _ \<Rightarrow>
              (case ex_definition_snapshot ex of
                 Some d \<Rightarrow> in_session E ex (run R E d)
               | None \<Rightarrow>
                   andthen (liftsum (scalar_one_or_none
                     (select_rows c wf_tenant_id (\<lambda>r. wf_id r = ex_workflow_id ex) (db_workflows db))))
                   (\<lambda>workflow. case workflow of
                      None \<Rightarrow> ret ()
                    | Some w \<Rightarrow> in_session E ex (run R E (wf_definition w)))))))"

section \<open>Recovery\<close>

text \<open>\<open>execute_workflow.delay\<close>\<close>

definition celery_delay :: "(uuid \<Rightarrow> exn option) \<Rightarrow> uuid \<Rightarrow> ('r service, unit) py" where
  "celery_delay bk eid =
     (case bk eid of
        Some e \<Rightarrow> throw e
      | None \<Rightarrow> modify (\<lambda>sv. sv\<lparr>sv_queue := sv_queue sv @ [eid]\<rparr>))"

definition new_uuid :: "exec_env \<Rightarrow> ('r service, uuid) py" where
  "new_uuid E = (\<lambda>sv. (Inr (ee_uuid E (sv_tick sv)), sv\<lparr>sv_tick := Suc (sv_tick sv)\<rparr>))"

definition try_recover ::
  "'r redis_ops \<Rightarrow> exec_env \<Rightarrow> (uuid \<Rightarrow> exn option) \<Rightarrow> uuid \<Rightarrow> ('r service, bool) py" where
  "try_recover R E bk eid =
     andthen (new_uuid E) (\<lambda>token.
     tryexcept
       (seq (with_lock sv_locks (\<lambda>r sv. sv\<lparr>sv_locks := r\<rparr>) R (lock_key eid) (uuid_str token) 30
               (celery_delay bk eid))
          (ret True))
       (\<lambda>e. case e of LockAcquisitionError _ \<Rightarrow> ret False | _ \<Rightarrow> throw e))"

fun recover_all ::
  "'r redis_ops \<Rightarrow> exec_env \<Rightarrow> (uuid \<Rightarrow> exn option) \<Rightarrow> uuid list \<Rightarrow> ('r service, unit) py" where
  "recover_all R E bk [] = ret ()"
| "recover_all R E bk (eid # eids) = seq (try_recover R E bk eid) (recover_all R E bk eids)"

definition run_once ::
  "'r redis_ops \<Rightarrow> exec_env \<Rightarrow> (uuid \<Rightarrow> exn option) \<Rightarrow> ('r service, uuid list) py \<Rightarrow> ('r service, unit) py" where
  "run_once R E bk get_stale = andthen get_stale (recover_all R E bk)"

text \<open>The first \<open>n\<close> rounds of \<open>run_forever\<close>: a failed round is logged and the loop goes on.\<close>

fun run_forever_rounds ::
  "'r redis_ops \<Rightarrow> exec_env \<Rightarrow> (uuid \<Rightarrow> exn option) \<Rightarrow> ('r service, uuid list) py \<Rightarrow> nat \<Rightarrow>
     ('r service, unit) py" where
  "run_forever_rounds R E bk get_stale 0 = ret ()"
| "run_forever_rounds R E bk get_stale (Suc n) =
     seq (tryexcept (run_once R E bk get_stale) (\<lambda>_. ret ())) (run_forever_rounds R E bk get_stale n)"

text \<open>Timestamps are in seconds; \<open>c\<close> is the context of a session that sets no tenant.\<close>

definition get_stale_executions :: "rls_ctx \<Rightarrow> nat \<Rightarrow> nat \<Rightarrow> wf_db \<Rightarrow> uuid list" where
  "get_stale_executions c now threshold_minutes db =
     (let cutoff = int now - 60 * int threshold_minutes
      in map ex_id (select_rows c ex_tenant_id
           (\<lambda>r. ex_status r = RUNNING \<and>
              (case ex_last_heartbeat r of None \<Rightarrow> False | Some t \<Rightarrow> int t < cutoff))
           (db_executions db)))"

definition recover_run ::
  "'r redis_ops \<Rightarrow> exec_env \<Rightarrow> (uuid \<Rightarrow> exn option) \<Rightarrow> rls_ctx \<Rightarrow> nat \<Rightarrow> nat \<Rightarrow> ('r service, unit) py" where
  "recover_run R E bk c now threshold_minutes =
     run_once R E bk (gets (\<lambda>sv. get_stale_executions c now threshold_minutes (sv_db sv)))"

section \<open>What one recovery pass does\<close>

lemma wp_celery_delay [simp]:
  "wp (celery_delay bk eid) Q X sv =
     (case bk eid of Some e \<Rightarrow> X e sv | None \<Rightarrow> Q () (sv\<lparr>sv_queue := sv_queue sv @ [eid]\<rparr>))"
  by (simp add: celery_delay_def split: option.split)

lemma wp_new_uuid [simp]:
  "wp (new_uuid E) Q X sv = Q (ee_uuid E (sv_tick sv)) (sv\<lparr>sv_tick := Suc (sv_tick sv)\<rparr>)"
  by (simp add: new_uuid_def wp_def)

definition lock_free :: "'r redis_ops \<Rightarrow> 'r \<Rightarrow> uuid \<Rightarrow> bool" where
  "lock_free R r eid \<longleftrightarrow> lock_owner R r (lock_key eid) = None"

lemma try_recover_effect:
  assumes "redis_kv R view" and "bk eid = None"
  shows "wp (try_recover R E bk eid)
    (\<lambda>b sv'. b = lock_free R (sv_locks sv) eid \<and> sv_db sv' = sv_db sv \<and> sv_sent sv' = sv_sent sv \<and>
       lock_owner R (sv_locks sv') = lock_owner R (sv_locks sv) \<and>
       sv_queue sv' = sv_queue sv @ (if b then [eid] else []))
    (\<lambda>_ _. False) sv"
proof -
  let ?tok = "uuid_str (ee_uuid E (sv_tick sv))"
  obtain res r' where enter: "lock_enter R (lock_key eid) ?tok 30 (sv_locks sv) = (res, r')" by fastforce
  show ?thesis
  proof (cases "lock_free R (sv_locks sv) eid")
    case True
    then have free: "lock_owner R (sv_locks sv) (lock_key eid) = None" by (simp add: lock_free_def)
    with redis_kv.lock_enter_free [OF assms(1) _ _ enter]
    have own: "res = Inr ?tok" "lock_owner R r' = (lock_owner R (sv_locks sv))(lock_key eid \<mapsto> ?tok)" by simp_all
    with enter True assms(2) redis_kv.release_own_lock [OF assms(1) free own(2)]
    show ?thesis by (simp add: try_recover_def wp_with_lock)
  next
    case False
    with redis_kv.lock_enter_held [OF assms(1) _ _ enter]
    have "\<exists>m. res = Inl (LockAcquisitionError m)" "lock_owner R r' = lock_owner R (sv_locks sv)"
      by (auto simp: lock_free_def)
    with enter False show ?thesis by (auto simp: try_recover_def wp_with_lock)
  qed
qed

lemma recover_all_effect:
  assumes "redis_kv R view" and "\<And>e. e \<in> set eids \<Longrightarrow> bk e = None"
  shows "wp (recover_all R E bk eids)
    (\<lambda>_ sv'. sv_db sv' = sv_db sv \<and> sv_sent sv' = sv_sent sv \<and>
       lock_owner R (sv_locks sv') = lock_owner R (sv_locks sv) \<and>
       sv_queue sv' = sv_queue sv @ filter (lock_free R (sv_locks sv)) eids)
    (\<lambda>_ _. False) sv"
  using assms(2)
proof (induction eids arbitrary: sv)
  case Nil
  then show ?case by simp
next
  case (Cons e es)
  have same: "lock_owner R r = lock_owner R r' \<Longrightarrow> lock_free R r = lock_free R r'" for r r'
    by (simp add: lock_free_def fun_eq_iff)
  show ?case
    unfolding recover_all.simps wp_seq
    by (rule wp_mono [OF try_recover_effect [OF assms(1)]])
      (auto intro!: Cons.prems wp_mono [OF Cons.IH] dest: same)
qed

lemma recover_run_effect:
  assumes "redis_kv R view" and "\<And>e. bk e = None"
  shows "\<exists>sv'. recover_run R E bk c now thr sv = (Inr (), sv') \<and> sv_db sv' = sv_db sv \<and>
    lock_owner R (sv_locks sv') = lock_owner R (sv_locks sv) \<and>
    sv_queue sv' = sv_queue sv @
      filter (lock_free R (sv_locks sv)) (get_stale_executions c now thr (sv_db sv))"
proof -
  have "wp (recover_run R E bk c now thr) (\<lambda>_ sv'. sv_db sv' = sv_db sv \<and>
    lock_owner R (sv_locks sv') = lock_owner R (sv_locks sv) \<and>
    sv_queue sv' = sv_queue sv @
      filter (lock_free R (sv_locks sv)) (get_stale_executions c now thr (sv_db sv))) (\<lambda>_ _. False) sv"
    unfolding recover_run_def run_once_def
    by simp (rule wp_mono [OF recover_all_effect [OF assms(1)]]; simp add: assms(2))
  then show ?thesis by (simp add: wp_Inr)
qed

section \<open>What executing a task does\<close>

lemma put_same_row:
  assumes "distinct (map ex_id (db_executions db))" and "ex \<in> set (db_executions db)"
  shows "put_execution ex db = db"
proof -
  have "update_rows (\<lambda>r. ex_id r = ex_id ex) (\<lambda>_. ex) (db_executions db) = db_executions db"
    unfolding update_rows_def
    by (rule map_idI) (use assms in \<open>auto simp: distinct_map dest: inj_onD\<close>)
  then show ?thesis by (simp add: put_execution_def)
qed

lemma execute_run_unfold:
  assumes "wf_db_ok (sv_db sv)" and "ex \<in> set (db_executions (sv_db sv))"
    and "tenant_isolation c (ex_tenant_id ex)" and "ex_definition_snapshot ex = Some d"
  shows "execute_run R E c (ex_id ex) sv =
    (if ex_status ex \<in> set TERMINAL_STATUSES then (Inr (), sv) else in_session E ex (run R E d) sv)"
  using assms select_rows_id [of ex_id "db_executions (sv_db sv)" ex c ex_tenant_id]
  by (simp add: execute_run_def andthen_def wf_db_ok_def check_not_terminal_def)

lemma service_same:
  assumes "wf_db_ok (sv_db sv)" and "ex \<in> set (db_executions (sv_db sv))"
    and "xw_disk w = ex" and "xw_disk_ckpts w = db_checkpoints (sv_db sv)"
  shows "sv_db (service_of w sv) = sv_db sv"
  using put_same_row [OF _ assms(2)] assms(1,3,4) by (simp add: service_of_def wf_db_ok_def)

text \<open>A task for an execution that is already RUNNING is refused by the state machine.\<close>

lemma execute_run_running:
  assumes "redis_kv R view" and "wf_db_ok (sv_db sv)" and "ex \<in> set (db_executions (sv_db sv))"
    and "tenant_isolation c (ex_tenant_id ex)" and "ex_definition_snapshot ex = Some d"
    and "ex_status ex = RUNNING" and "lock_free R (sv_locks sv) (ex_id ex)"
  shows "\<exists>sv'. execute_run R E c (ex_id ex) sv =
      (Inl (InvalidTransitionError (invalid_transition_message RUNNING ''submit'')), sv') \<and>
    sv_db sv' = sv_db sv \<and> lock_owner R (sv_locks sv') = lock_owner R (sv_locks sv)"
proof -
  obtain w' where run: "run R E d (world_of ex sv) =
      (Inl (InvalidTransitionError (invalid_transition_message RUNNING ''submit'')), w')"
    and w': "xw_disk w' = ex" "xw_disk_ckpts w' = db_checkpoints (sv_db sv)"
      "lock_owner R (xw_locks w') = lock_owner R (sv_locks sv)"
    using run_refused [OF assms(1), of "world_of ex sv" E d] assms(6,7)
    by (auto simp: world_of_def lock_free_def)
  have "sv_db (service_of (rollback_tx w') sv) = sv_db sv"
    by (rule service_same [OF assms(2,3)]) (simp_all add: rollback_tx_def w')
  with run w' assms(6) show ?thesis
    by (simp add: execute_run_unfold [OF assms(2-5)] in_session_def TERMINAL_STATUSES_def)
      (simp add: service_of_def rollback_tx_def)
qed

lemma stale_selected:
  assumes "wf_db_ok db" and "eid \<in> set (get_stale_executions c now thr db)"
  obtains ex where "ex \<in> set (db_executions db)" and "ex_id ex = eid" and "ex_status ex = RUNNING"
    and "tenant_isolation c (ex_tenant_id ex)"
  using assms(2) by (auto simp: get_stale_executions_def Let_def select_rows_def)

section \<open>Properties\<close>

definition sample_service :: "execution_status \<Rightarrow> keyspace service" where
  "sample_service st =
     \<lparr>sv_db = \<lparr>db_tenants = [], db_workflows = [], db_executions = [sample_row st], db_checkpoints = []\<rparr>,
      sv_locks = (\<lambda>_. None), sv_sent = [], sv_queue = [], sv_tick = 0\<rparr>"

text \<open>The context of a superuser, which row-level security does not restrict, and of a plain role.\<close>

abbreviation superuser :: rls_ctx where
  "superuser \<equiv> \<lparr>rls_bypass = True, rls_tenant = None\<rparr>"

lemma sample_service_simps [simp]:
  "wf_db_ok (sv_db (sample_service st))" "db_executions (sv_db (sample_service st)) = [sample_row st]"
  "sv_locks (sample_service st) = (\<lambda>_. None)" "sv_queue (sample_service st) = []"
  by (simp_all add: sample_service_def wf_db_ok_def)

lemma superuser_sees [simp]: "tenant_isolation superuser t"
  by (simp add: tenant_isolation_def)

lemma sample_row_simps [simp]:
  "ex_last_heartbeat (sample_row st) = Some 0" "ex_definition_snapshot (sample_row st) = Some sample_wd"
  by (simp_all add: sample_row_def)

lemma sample_stale: "get_stale_executions superuser 1000 5 (sv_db (sample_service RUNNING)) = [1]"
  by (simp add: get_stale_executions_def select_rows_def)

text \<open>
  C8: One recovery pass enqueues, once each, exactly the executions it may see that are RUNNING,
  whose heartbeat is older than the threshold and whose lock is free; it changes no row and gives
  back every lock.
\<close>

lemma recovery_pass:
  assumes "redis_kv R view" and "\<And>e. bk e = None" and "wf_db_ok (sv_db sv)"
  shows "\<exists>sv' new. recover_run R E bk c now thr sv = (Inr (), sv') \<and> sv_queue sv' = sv_queue sv @ new \<and>
    distinct new \<and>
    set new = {ex_id ex | ex. ex \<in> set (db_executions (sv_db sv)) \<and> tenant_isolation c (ex_tenant_id ex) \<and>
      ex_status ex = RUNNING \<and> (\<exists>t. ex_last_heartbeat ex = Some t \<and> t + 60 * thr < now) \<and>
      lock_owner R (sv_locks sv) (lock_key (ex_id ex)) = None} \<and>
    sv_db sv' = sv_db sv \<and> lock_owner R (sv_locks sv') = lock_owner R (sv_locks sv)"
proof -
  let ?new = "filter (lock_free R (sv_locks sv)) (get_stale_executions c now thr (sv_db sv))"
  have "distinct (map ex_id (db_executions (sv_db sv)))" using assms(3) by (simp add: wf_db_ok_def)
  then have "distinct ?new"
    by (simp add: get_stale_executions_def Let_def select_rows_def distinct_map inj_on_def)
  moreover have "set ?new = {ex_id ex | ex. ex \<in> set (db_executions (sv_db sv)) \<and>
      tenant_isolation c (ex_tenant_id ex) \<and>
      ex_status ex = RUNNING \<and> (\<exists>t. ex_last_heartbeat ex = Some t \<and> t + 60 * thr < now) \<and>
      lock_owner R (sv_locks sv) (lock_key (ex_id ex)) = None}"
    by (auto simp: get_stale_executions_def Let_def select_rows_def lock_free_def split: option.splits)
  ultimately show ?thesis
    using recover_run_effect [OF assms(1), of bk E c now thr sv, OF assms(2)] by fastforce
qed

lemma recovery_pass_witness:
  "\<exists>sv' new. recover_run mem_redis sample_env (\<lambda>_. None) superuser 1000 5 (sample_service RUNNING) =
      (Inr (), sv') \<and> sv_queue sv' = new \<and> distinct new \<and> set new = {1}"
proof -
  have "{ex_id ex | ex. ex \<in> set (db_executions (sv_db (sample_service RUNNING))) \<and>
      tenant_isolation superuser (ex_tenant_id ex) \<and> ex_status ex = RUNNING \<and>
      (\<exists>t. ex_last_heartbeat ex = Some t \<and> t + 60 * 5 < (1000::nat)) \<and>
      lock_owner mem_redis (sv_locks (sample_service RUNNING)) (lock_key (ex_id ex)) = None} = {1}"
    by auto
  then show ?thesis
    using recovery_pass [OF mem.redis_kv_axioms, of "\<lambda>_. None" "sample_service RUNNING" sample_env
        superuser 1000 5] by auto
qed

text \<open>
  C4: Recovery never gets a stale execution going again: the pass enqueues it, the task that picks
  it up is refused by the state machine because the row still says RUNNING, the database is unchanged,
  and so the next pass finds it stale as before.
\<close>

lemma recovery_never_progresses:
  assumes "redis_kv R view" and "\<And>e. bk e = None" and "wf_db_ok (sv_db sv)"
    and "eid \<in> set (get_stale_executions c now thr (sv_db sv))"
    and "lock_free R (sv_locks sv) eid"
    and "\<And>ex. ex \<in> set (db_executions (sv_db sv)) \<Longrightarrow> ex_id ex = eid \<Longrightarrow> ex_definition_snapshot ex \<noteq> None"
  shows "\<exists>sv1 sv2 e. recover_run R E bk c now thr sv = (Inr (), sv1) \<and> eid \<in> set (sv_queue sv1) \<and>
    execute_run R E c eid sv1 = (Inl e, sv2) \<and> sv_db sv2 = sv_db sv \<and>
    eid \<in> set (get_stale_executions c now thr (sv_db sv2)) \<and> lock_free R (sv_locks sv2) eid"
proof -
  obtain ex where ex: "ex \<in> set (db_executions (sv_db sv))" "ex_id ex = eid" "ex_status ex = RUNNING"
    "tenant_isolation c (ex_tenant_id ex)"
    using stale_selected [OF assms(3,4)] by blast
  then obtain d where d: "ex_definition_snapshot ex = Some d" using assms(6) by blast
  obtain sv1 where sv1: "recover_run R E bk c now thr sv = (Inr (), sv1)" "sv_db sv1 = sv_db sv"
    "lock_owner R (sv_locks sv1) = lock_owner R (sv_locks sv)"
    "sv_queue sv1 = sv_queue sv @
      filter (lock_free R (sv_locks sv)) (get_stale_executions c now thr (sv_db sv))"
    using recover_run_effect [OF assms(1), of bk E c now thr sv, OF assms(2)] by blast
  then have queued: "eid \<in> set (sv_queue sv1)" and free: "lock_free R (sv_locks sv1) eid"
    using assms(4,5) by (simp_all add: lock_free_def)
  have db: "wf_db_ok (sv_db sv1)" "ex \<in> set (db_executions (sv_db sv1))"
    using sv1(2) assms(3) ex(1) by simp_all
  from execute_run_running [OF assms(1) db ex(4) d ex(3), of E] free ex(2)
  obtain e sv2 where "execute_run R E c eid sv1 = (Inl e, sv2)" "sv_db sv2 = sv_db sv1"
    "lock_owner R (sv_locks sv2) = lock_owner R (sv_locks sv1)" by auto
  with sv1 queued free assms(4) show ?thesis by (auto simp: lock_free_def)
qed

lemma recovery_never_progresses_witness:
  "\<exists>sv1 sv2 e. recover_run mem_redis sample_env (\<lambda>_. None) superuser 1000 5 (sample_service RUNNING) =
      (Inr (), sv1) \<and> 1 \<in> set (sv_queue sv1) \<and>
    execute_run mem_redis sample_env superuser 1 sv1 = (Inl e, sv2) \<and>
    sv_db sv2 = sv_db (sample_service RUNNING)"
  using recovery_never_progresses [OF mem.redis_kv_axioms, of "\<lambda>_. None" "sample_service RUNNING" 1
      superuser 1000 5 sample_env]
  by (auto simp: sample_stale lock_free_def)

text \<open>
  With row-level security enforced, the execution task finds no row, since its session sets no
  tenant: it returns without doing anything, whatever the execution.
\<close>

lemma execute_run_invisible:
  assumes "\<not> rls_bypass c" and "rls_tenant c = None"
  shows "execute_run R E c eid sv = (Inr (), sv)"
  using assms by (simp add: execute_run_def select_rows_no_context andthen_def)

text \<open>
  A redelivered task of an execution that has already ended changes nothing.
\<close>

lemma redelivery_ignored:
  assumes "wf_db_ok (sv_db sv)" and "ex \<in> set (db_executions (sv_db sv))"
    and "ex_status ex \<in> set TERMINAL_STATUSES"
  shows "execute_run R E c (ex_id ex) sv = (Inr (), sv)"
  using assms select_rows_id [of ex_id "db_executions (sv_db sv)" ex c ex_tenant_id]
  by (cases "tenant_isolation c (ex_tenant_id ex)")
    (simp_all add: execute_run_def andthen_def wf_db_ok_def check_not_terminal_def)

end
