(* ===== verification/Py_Text.thy ===== *)
theory Py_Text
  imports Prelude "HOL-Library.Sublist"
begin

text \<open>
  The string operations of Python's standard library that the services use: case folding,
  prefix and suffix tests, stripping, removal of substrings, \<open>int(s, 16)\<close> and \<open>uuid.UUID(s)\<close>.
  Strings are ASCII.
\<close>

section \<open>Strings\<close>

definition lower_char :: "char \<Rightarrow> char" where
  "lower_char c = (if 65 \<le> (of_char c :: nat) \<and> (of_char c :: nat) \<le> 90
     then char_of ((of_char c :: nat) + 32) else c)"

definition lower :: "string \<Rightarrow> string" where
  "lower s = map lower_char s"

definition startswith :: "string \<Rightarrow> string \<Rightarrow> bool" where
  "startswith s p = prefix p s"

definition endswith :: "string \<Rightarrow> string \<Rightarrow> bool" where
  "endswith s p = suffix p s"

definition rstrip :: "string \<Rightarrow> string \<Rightarrow> string" where
  "rstrip cs s = rev (dropWhile (\<lambda>c. c \<in> set cs) (rev s))"

definition strip :: "string \<Rightarrow> string \<Rightarrow> string" where
  "strip cs s = rstrip cs (dropWhile (\<lambda>c. c \<in> set cs) s)"

text \<open>\<open>s.replace(old, '')\<close> for a non-empty \<open>old\<close>.\<close>

function remove_sub :: "string \<Rightarrow> string \<Rightarrow> string" where
  "remove_sub old s =
     (if old = [] \<or> s = [] then s
      else if prefix old s then remove_sub old (drop (length old) s)
      else hd s # remove_sub old (tl s))"
  by pat_completeness auto
termination by (relation "measure (length \<circ> snd)") auto

declare remove_sub.simps [simp del]

lemma remove_sub_absent:
  assumes "c \<in> set old" and "c \<notin> set s"
  shows "remove_sub old s = s"
  using assms(2)
proof (induction s)
  case Nil
  then show ?case by (simp add: remove_sub.simps)
next
  case (Cons x xs)
  have "\<not> prefix old (x # xs)" using assms(1) Cons.prems set_mono_prefix by blast
  with Cons show ?case by (subst remove_sub.simps) simp
qed

lemma remove_char: "remove_sub [c] s = filter (\<lambda>x. x \<noteq> c) s"
proof (induction s)
  case Nil
  then show ?case by (simp add: remove_sub.simps)
next
  case (Cons x xs)
  then show ?case by (subst remove_sub.simps) auto
qed

lemma strip_absent: "set cs \<inter> set s = {} \<Longrightarrow> strip cs s = s"
proof -
  assume none: "set cs \<inter> set s = {}"
  then have 1: "dropWhile (\<lambda>c. c \<in> set cs) s = s" by (cases s) auto
  from none have "dropWhile (\<lambda>c. c \<in> set cs) (rev s) = rev s" by (cases s rule: rev_cases) auto
  with 1 show ?thesis by (simp add: strip_def rstrip_def)
qed

section \<open>Hexadecimal integers\<close>

text \<open>\<open>int(s, 16)\<close>: white space around, a sign, a \<open>0x\<close> prefix, single underscores between digits.\<close>

definition hex_char :: "char \<Rightarrow> nat option" where
  "hex_char c = (let n = (of_char c :: nat) in
     if 48 \<le> n \<and> n \<le> 57 then Some (n - 48)
     else if 97 \<le> n \<and> n \<le> 102 then Some (n - 87)
     else if 65 \<le> n \<and> n \<le> 70 then Some (n - 55)
     else None)"

fun hex_body :: "nat \<Rightarrow> string \<Rightarrow> nat option" where
  "hex_body a [] = Some a"
| "hex_body a (c # cs) =
     (if c = CHR ''_'' then
        (case cs of
           [] \<Rightarrow> None
         | d # ds \<Rightarrow> (case hex_char d of None \<Rightarrow> None | Some k \<Rightarrow> hex_body (16 * a + k) ds))
      else (case hex_char c of None \<Rightarrow> None | Some k \<Rightarrow> hex_body (16 * a + k) cs))"

definition hex_digits_of :: "string \<Rightarrow> nat option" where
  "hex_digits_of s =
     (case s of
        [] \<Rightarrow> None
      | c # cs \<Rightarrow>
          (if c = CHR ''0'' \<and> cs \<noteq> [] \<and> hd cs \<in> {CHR ''x'', CHR ''X''}
           then (case tl cs of [] \<Rightarrow> None | ds \<Rightarrow> hex_body 0 ds)
           else (case hex_char c of None \<Rightarrow> None | Some k \<Rightarrow> hex_body k cs)))"

definition whitespace :: string where
  "whitespace = [CHR '' '', CHR 0x09, CHR 0x0A, CHR 0x0B, CHR 0x0C, CHR 0x0D]"

definition int_base16 :: "string \<Rightarrow> int option" where
  "int_base16 s0 =
     (let s = strip whitespace s0 in
      case s of
        [] \<Rightarrow> None
      | c # cs \<Rightarrow>
          if c = CHR ''-'' then map_option (\<lambda>n. - int n) (hex_digits_of cs)
          else if c = CHR ''+'' then map_option int (hex_digits_of cs)
          else map_option int (hex_digits_of s))"

section \<open>UUIDs\<close>

text \<open>\<open>uuid.UUID(s)\<close>; None stands for the \<open>ValueError\<close>.\<close>

definition uuid_parse :: "string \<Rightarrow> uuid option" where
  "uuid_parse s =
     (let h = remove_sub ''-'' (strip ''{}'' (remove_sub ''uuid:'' (remove_sub ''urn:'' s)))
      in if length h \<noteq> 32 then None
         else (case int_base16 h of
                 None \<Rightarrow> None
               | Some i \<Rightarrow> if 0 \<le> i \<and> i < 2 ^ 128 then Some (word_of_int i) else None))"

lemma digit_char_code:
  "d < 16 \<Longrightarrow> (of_char (digit_char d) :: nat) = (if d < 10 then 48 + d else 87 + d)"
  by (simp add: digit_char_def)

lemma hex_char_digit [simp]: "d < 16 \<Longrightarrow> hex_char (digit_char d) = Some d"
  by (simp add: hex_char_def Let_def digit_char_code)

lemma digit_char_not:
  assumes "d < 16" and "\<not> (48 \<le> (of_char c :: nat) \<and> (of_char c :: nat) \<le> 57)"
    and "\<not> (97 \<le> (of_char c :: nat) \<and> (of_char c :: nat) \<le> 102)"
  shows "digit_char d \<noteq> c"
  using assms digit_char_code [OF assms(1)] by (auto split: if_splits)

lemma hex_digits_chars: "set (hex_digits n x) \<subseteq> digit_char ` {..<16}"
  by (induction n arbitrary: x) (auto simp: image_def intro: bexI [where x = "_ mod 16"])

lemma hex_digits_absent:
  "\<not> (48 \<le> (of_char c :: nat) \<and> (of_char c :: nat) \<le> 57) \<Longrightarrow>
   \<not> (97 \<le> (of_char c :: nat) \<and> (of_char c :: nat) \<le> 102) \<Longrightarrow> c \<notin> set (hex_digits n x)"
  using hex_digits_chars [of n x] digit_char_not by fastforce

lemma hex_body_digits:
  assumes "set s \<subseteq> digit_char ` {..<16}"
  shows "hex_body a s = Some (hex_val a s)"
  using assms
proof (induction s arbitrary: a)
  case Nil
  then show ?case by simp
next
  case (Cons c cs)
  then obtain d where "d < 16" and c: "c = digit_char d" by auto
  moreover have "digit_char d \<noteq> CHR ''_''" by (rule digit_char_not [OF \<open>d < 16\<close>]) simp_all
  ultimately show ?case using Cons by simp
qed

lemma uuid_chars:
  assumes "c \<noteq> CHR ''-''" and "c \<notin> set (hex_digits 32 (unat u))"
  shows "c \<notin> set (uuid_str u)"
  using assms by (auto simp: uuid_str_def Let_def dest: in_set_takeD in_set_dropD)

lemma uuid_str_undashed: "filter (\<lambda>x. x \<noteq> CHR ''-'') (uuid_str u) = hex_digits 32 (unat u)"
proof -
  let ?h = "hex_digits 32 (unat u)"
  have keep: "filter (\<lambda>x. x \<noteq> CHR ''-'') xs = xs" if "set xs \<subseteq> set ?h" for xs
    using that hex_digits_absent [of "CHR ''-''" 32 "unat u"] by (auto simp: filter_id_conv)
  have parts: "set (take 8 ?h) \<subseteq> set ?h" "set (take 4 (drop 8 ?h)) \<subseteq> set ?h"
    "set (take 4 (drop 12 ?h)) \<subseteq> set ?h" "set (take 4 (drop 16 ?h)) \<subseteq> set ?h" "set (drop 20 ?h) \<subseteq> set ?h"
    by (auto dest: in_set_takeD in_set_dropD)
  have "drop 16 ?h = take 4 (drop 16 ?h) @ drop 20 ?h"
    using append_take_drop_id [of 4 "drop 16 ?h"] by simp
  moreover have "drop 12 ?h = take 4 (drop 12 ?h) @ drop 16 ?h"
    using append_take_drop_id [of 4 "drop 12 ?h"] by simp
  moreover have "drop 8 ?h = take 4 (drop 8 ?h) @ drop 12 ?h"
    using append_take_drop_id [of 4 "drop 8 ?h"] by simp
  ultimately have "?h = take 8 ?h @ take 4 (drop 8 ?h) @ take 4 (drop 12 ?h) @ take 4 (drop 16 ?h) @ drop 20 ?h"
    using append_take_drop_id [of 8 ?h] by simp
  then show ?thesis by (simp add: uuid_str_def Let_def keep parts)
qed

lemma uuid_str_filters:
  "remove_sub ''-'' (strip ''{}'' (remove_sub ''uuid:'' (remove_sub ''urn:'' (uuid_str u)))) =
     hex_digits 32 (unat u)"
proof -
  have "CHR '':'' \<notin> set (uuid_str u)" by (rule uuid_chars) (simp_all add: hex_digits_absent)
  moreover have "set ''{}'' \<inter> set (uuid_str u) = {}"
    using uuid_chars [of "CHR ''{''" u] uuid_chars [of "CHR ''}''" u] by (simp add: hex_digits_absent)
  ultimately have "remove_sub ''urn:'' (uuid_str u) = uuid_str u"
    and "remove_sub ''uuid:'' (uuid_str u) = uuid_str u" and "strip ''{}'' (uuid_str u) = uuid_str u"
    by (auto intro: remove_sub_absent [of "CHR '':''"] strip_absent)
  then show ?thesis by (simp add: remove_char uuid_str_undashed)
qed

lemma int_base16_digits:
  assumes "0 < n"
  shows "int_base16 (hex_digits n x) = Some (int (hex_val 0 (hex_digits n x)))"
proof -
  obtain c cs where s: "hex_digits n x = c # cs"
    using assms by (metis length_hex_digits length_0_conv neq_Nil_conv less_numeral_extra(3))
  then have all: "set (c # cs) \<subseteq> digit_char ` {..<16}" using hex_digits_chars [of n x] by simp
  then obtain d where d: "d < 16" "c = digit_char d" by auto
  have none: "z \<noteq> y" if "z \<in> set (c # cs)" and "y \<notin> digit_char ` {..<16}" for z y
    using all that by blast
  have out: "y \<notin> digit_char ` {..<16}" if "\<not> (48 \<le> (of_char y :: nat) \<and> (of_char y :: nat) \<le> 57)"
    "\<not> (97 \<le> (of_char y :: nat) \<and> (of_char y :: nat) \<le> 102)" for y
    using digit_char_not that by blast
  have "set whitespace \<inter> set (c # cs) = {}"
  proof -
    have "y \<notin> digit_char ` {..<16}" if "y \<in> set whitespace" for y
      using that by (intro out) (auto simp: whitespace_def)
    with all show ?thesis by blast
  qed
  then have strip: "strip whitespace (c # cs) = c # cs" by (rule strip_absent)
  have sign: "c \<noteq> CHR ''-''" "c \<noteq> CHR ''+''" using none [of c] out by auto
  have x: "hd cs \<notin> {CHR ''x'', CHR ''X''}" if "cs \<noteq> []"
    using none [of "hd cs"] out that by auto
  have body: "hex_body d cs = Some (hex_val d cs)" using all by (intro hex_body_digits) simp
  have "hex_digits_of (c # cs) = Some (hex_val 0 (c # cs))"
    using x body d by (auto simp: hex_digits_of_def)
  then show ?thesis by (simp add: int_base16_def s strip Let_def sign)
qed

lemma uuid_bound: "unat (u :: uuid) < 16 ^ 32"
proof -
  have "unat u < 2 ^ LENGTH(128)" by (rule unsigned_less)
  then show ?thesis by simp
qed

text \<open>Reading the text form of a UUID gives the UUID back.\<close>

lemma uuid_parse_str: "uuid_parse (uuid_str u) = Some u"
proof -
  have val: "hex_val 0 (hex_digits 32 (unat u)) = unat u"
    using hex_val_digits [of 32 "unat u"] uuid_bound [of u] by simp
  have "uint u < 2 ^ LENGTH(128)" by (rule unsigned_less)
  then have "uint u < 2 ^ 128" by simp
  then show ?thesis
    unfolding uuid_parse_def uuid_str_filters Let_def
    by (simp add: int_base16_digits val)
qed

section \<open>Decimal integers\<close>

text \<open>\<open>int(s)\<close>: white space around, a sign, digits with single underscores between them.\<close>

definition dec_char :: "char \<Rightarrow> nat option" where
  "dec_char c = (let n = (of_char c :: nat) in if 48 \<le> n \<and> n \<le> 57 then Some (n - 48) else None)"

fun dec_body :: "nat \<Rightarrow> string \<Rightarrow> nat option" where
  "dec_body a [] = Some a"
| "dec_body a (c # cs) =
     (if c = CHR ''_'' then
        (case cs of
           [] \<Rightarrow> None
         | d # ds \<Rightarrow> (case dec_char d of None \<Rightarrow> None | Some k \<Rightarrow> dec_body (10 * a + k) ds))
      else (case dec_char c of None \<Rightarrow> None | Some k \<Rightarrow> dec_body (10 * a + k) cs))"

definition dec_digits_of :: "string \<Rightarrow> nat option" where
  "dec_digits_of s =
     (case s of
        [] \<Rightarrow> None
      | c # cs \<Rightarrow> (case dec_char c of None \<Rightarrow> None | Some k \<Rightarrow> dec_body k cs))"

definition int_base10 :: "string \<Rightarrow> int option" where
  "int_base10 s0 =
     (let s = strip whitespace s0 in
      case s of
        [] \<Rightarrow> None
      | c # cs \<Rightarrow>
          if c = CHR ''-'' then map_option (\<lambda>n. - int n) (dec_digits_of cs)
          else if c = CHR ''+'' then map_option int (dec_digits_of cs)
          else map_option int (dec_digits_of s))"

lemma dec_char_digit [simp]: "d < 10 \<Longrightarrow> dec_char (digit_char d) = Some d"
  by (simp add: dec_char_def Let_def digit_char_code)

lemma str_nat_chars: "set (str_nat n) \<subseteq> digit_char ` {..<10}"
proof (induction n rule: str_nat.induct)
  case (1 n)
  then show ?case by (cases "n < 10") (auto simp: str_nat.simps [of n])
qed

lemma str_nat_not_Nil [simp]: "str_nat n \<noteq> []"
  by (subst str_nat.simps) simp

lemma dec_body_digits:
  assumes "set s \<subseteq> digit_char ` {..<10}"
  shows "dec_body a s = Some (dec_val a s)"
  using assms
proof (induction s arbitrary: a)
  case Nil
  then show ?case by simp
next
  case (Cons c cs)
  then obtain d where "d < 10" and c: "c = digit_char d" by auto
  moreover from \<open>d < 10\<close> have "digit_char d \<noteq> CHR ''_''" by (intro digit_char_not) simp_all
  ultimately show ?case using Cons by simp
qed

lemma dec_digits_str_nat: "dec_digits_of (str_nat n) = Some n"
proof -
  obtain c cs where s: "str_nat n = c # cs" by (metis str_nat_not_Nil neq_Nil_conv)
  then have all: "set (c # cs) \<subseteq> digit_char ` {..<10}" using str_nat_chars [of n] by simp
  then obtain d where d: "d < 10" "c = digit_char d" by auto
  with all have "dec_digits_of (c # cs) = Some (dec_val 0 (c # cs))"
    by (simp add: dec_digits_of_def dec_body_digits)
  with s show ?thesis by (metis dec_val_str_nat)
qed

lemma str_nat_absent: "\<not> (48 \<le> (of_char c :: nat) \<and> (of_char c :: nat) \<le> 57) \<Longrightarrow> c \<notin> set (str_nat n)"
  using str_nat_chars [of n] by (fastforce simp: digit_char_code)

lemma strip_str_nat: "strip whitespace (str_nat n) = str_nat n"
  "strip whitespace (CHR ''-'' # str_nat n) = CHR ''-'' # str_nat n"
  by (rule strip_absent, auto simp: whitespace_def str_nat_absent)+

lemma int_base10_str_nat: "int_base10 (str_nat n) = Some (int n)"
proof -
  obtain c cs where s: "str_nat n = c # cs" by (metis str_nat_not_Nil neq_Nil_conv)
  have "CHR ''-'' \<notin> set (str_nat n)" "CHR ''+'' \<notin> set (str_nat n)" by (simp_all add: str_nat_absent)
  with s show ?thesis using dec_digits_str_nat [of n] strip_str_nat(1) [of n]
    by (auto simp: int_base10_def)
qed

lemma int_base10_neg: "int_base10 (CHR ''-'' # str_nat n) = Some (- int n)"
  by (simp add: int_base10_def strip_str_nat dec_digits_str_nat)

section \<open>repr\<close>

text \<open>\<open>repr(s)\<close> of an ASCII string.\<close>

definition repr_char :: "char \<Rightarrow> char \<Rightarrow> string" where
  "repr_char quote c =
     (let n = (of_char c :: nat) in
      if c = quote \<or> n = 92 then [CHR 0x5C, c]
      else if n = 9 then [CHR 0x5C, CHR ''t'']
      else if n = 10 then [CHR 0x5C, CHR ''n'']
      else if n = 13 then [CHR 0x5C, CHR ''r'']
      else if n < 32 \<or> n = 127 then [CHR 0x5C, CHR ''x''] @ hex_digits 2 n
      else [c])"

definition py_repr :: "string \<Rightarrow> string" where
  "py_repr s =
     (let quote = (if CHR 0x27 \<in> set s \<and> CHR 0x22 \<notin> set s then CHR 0x22 else CHR 0x27)
      in quote # concat (map (repr_char quote) s) @ [quote])"

end
