(* ===== verification/Core_Middleware.thy ===== *)
theory Core_Middleware
  imports Redis Py_Text
begin

text \<open>
  \<open>packages/core/sutram_core/middleware\<close>: the internal token, JWT validation, the rate
  limiter and the idempotency store. The JWT library is the argument \<open>L\<close>, the Redis server
  the argument \<open>R\<close>. (The tenant context is modelled with the database.)
\<close>

section \<open>Internal token\<close>

text \<open>\<open>hmac.compare_digest\<close> of two strings refuses text outside ASCII.\<close>

definition compare_digest :: "string \<Rightarrow> string \<Rightarrow> exn + bool" where
  "compare_digest a b =
     (if \<exists>c \<in> set (a @ b). (of_char c :: nat) \<ge> 128
      then Inl (PyTypeError ''comparing strings with non-ASCII characters is not supported'')
      else Inr (a = b))"

definition verify_internal_token :: "string \<Rightarrow> string \<Rightarrow> exn + unit" where
  "verify_internal_token token expected =
     (case compare_digest token expected of
        Inl e \<Rightarrow> Inl e
      | Inr b \<Rightarrow> if \<not> b then Inl (InternalAuthError ''Invalid internal auth token'') else Inr ())"

text \<open>The dependency of the services' routes: \<open>get_tenant_id_from_header\<close>.\<close>

definition tenant_id_from_header :: "string \<Rightarrow> string \<Rightarrow> uuid \<Rightarrow> exn + uuid" where
  "tenant_id_from_header expected token tid =
     (case verify_internal_token token expected of
        Inl (InternalAuthError m) \<Rightarrow> Inl (HTTPException 401 m)
      | Inl e \<Rightarrow> Inl e
      | Inr _ \<Rightarrow> Inr tid)"

lemma verify_internal_token_Inr: "verify_internal_token t e = Inr () \<Longrightarrow> t = e"
  by (auto simp: verify_internal_token_def compare_digest_def split: if_splits sum.splits)

lemma tenant_id_from_header_Inr: "tenant_id_from_header e t tid = Inr x \<Longrightarrow> t = e \<and> x = tid"
  by (auto simp: tenant_id_from_header_def split: sum.splits exn.splits dest: verify_internal_token_Inr)

section \<open>JWT\<close>

datatype jwt_error = JwtExpired | JwtInvalid string

type_synonym claims = "(string \<times> json) list"

record jwt_lib =
  jw_header :: "string \<Rightarrow> jwt_error + claims"
    \<comment> \<open>\<open>jwt.get_unverified_header(token)\<close>\<close>
  jw_decode :: "string \<Rightarrow> string \<Rightarrow> string \<Rightarrow> jwt_error + claims"
    \<comment> \<open>\<open>jwt.decode(token, secret, algorithms=[alg])\<close>\<close>
  jw_repr :: "json option \<Rightarrow> string"

fun auth_error_of :: "jwt_error \<Rightarrow> exn" where
  "auth_error_of JwtExpired = AuthError ''Token has expired'' True"
| "auth_error_of (JwtInvalid m) = AuthError (''Invalid token: '' @ m) False"

definition check_claims :: "claims \<Rightarrow> exn + claims" where
  "check_claims claims =
     (if map_of claims ''tenant_id'' = None then Inl (AuthError ''Missing tenant_id claim'' False)
      else if map_of claims ''exp'' = None then Inl (AuthError ''Missing exp claim'' False)
      else Inr claims)"

text \<open>\<open>decode_jwt\<close>, with the secret and the algorithm of the settings.\<close>

definition decode_jwt :: "jwt_lib \<Rightarrow> string \<Rightarrow> string \<Rightarrow> string \<Rightarrow> string option \<Rightarrow> exn + claims" where
  "decode_jwt L secret configured token algorithm =
     (let alg = (case algorithm of None \<Rightarrow> configured | Some a \<Rightarrow> if a = [] then configured else a)
      in case jw_header L token of
           Inl e \<Rightarrow> Inl (auth_error_of e)
         | Inr header \<Rightarrow>
             if map_of header ''alg'' \<noteq> Some (JStr alg)
             then Inl (AuthError (''Token algorithm '' @ jw_repr L (map_of header ''alg'') @
               '' does not match configured '' @ jw_repr L (Some (JStr alg))) False)
             else (case jw_decode L token secret alg of
                     Inl e \<Rightarrow> Inl (auth_error_of e)
                   | Inr claims \<Rightarrow> check_claims claims))"

lemma check_claims_Inr:
  "check_claims c = Inr c' \<Longrightarrow> c' = c \<and> map_of c ''tenant_id'' \<noteq> None \<and> map_of c ''exp'' \<noteq> None"
  by (auto simp: check_claims_def split: if_splits)

lemma check_claims_Inl: "check_claims c = Inl e \<Longrightarrow> \<exists>m b. e = AuthError m b"
  by (auto simp: check_claims_def split: if_splits)

lemma auth_error_of_AuthError: "\<exists>m b. auth_error_of e = AuthError m b"
  by (cases e) auto

section \<open>Rate limiter\<close>

definition incr_with_ttl :: "'r redis_ops \<Rightarrow> string \<Rightarrow> nat \<Rightarrow> 'r \<Rightarrow> nat \<times> 'r" where
  "incr_with_ttl R key ttl r =
     (case r_incr R key r of
        (count, r') \<Rightarrow> (count, if count = 1 then r_expire R key ttl r' else r'))"

definition WINDOW_SECONDS :: nat where "WINDOW_SECONDS = 60"

definition TTL_SECONDS :: nat where "TTL_SECONDS = 120"

definition rate_key :: "string \<Rightarrow> nat \<Rightarrow> string" where
  "rate_key tenant window = ''rate:'' @ tenant @ '':'' @ str_nat window"

definition rate_check :: "'r redis_ops \<Rightarrow> nat \<Rightarrow> nat \<Rightarrow> string \<Rightarrow> 'r \<Rightarrow> (exn + unit) \<times> 'r" where
  "rate_check R limit now tenant r =
     (let window = now div WINDOW_SECONDS; key = rate_key tenant window in
      case incr_with_ttl R key TTL_SECONDS r of
        (count, r') \<Rightarrow>
          (if count > limit
           then Inl (RateLimitExceeded (''Rate limit of '' @ str_nat limit @
             '' req/min exceeded for tenant '' @ tenant))
           else Inr (), r'))"

lemma rate_key_inj [key_inj]: "rate_key t w = rate_key t' w' \<longleftrightarrow> t = t' \<and> w = w'"
proof
  assume "rate_key t w = rate_key t' w'"
  then have "t @ CHR '':'' # str_nat w = t' @ CHR '':'' # str_nat w'" by (simp add: rate_key_def)
  from append_sep_inj [OF _ _ this] show "t = t' \<and> w = w'"
    by (simp add: str_nat_no_colon str_nat_inj)
qed simp

text \<open>
  A run of the limiter: each request comes some seconds after the one before it, for some
  tenant. The result tells for each whether it was admitted.
\<close>

fun rate_run :: "'r redis_ops \<Rightarrow> nat \<Rightarrow> nat \<Rightarrow> (nat \<times> string) list \<Rightarrow> 'r \<Rightarrow> bool list" where
  "rate_run R limit now [] r = []"
| "rate_run R limit now ((wait, tenant) # reqs) r =
     (case rate_check R limit (now + wait) tenant (r_elapse R (1000 * wait) r) of
        (res, r') \<Rightarrow> (\<not> isl res) # rate_run R limit (now + wait) reqs r')"

text \<open>The same by counting: \<open>seen\<close> has the tenant and window of every request so far.\<close>

fun rate_spec :: "nat \<Rightarrow> nat \<Rightarrow> (string \<times> nat) list \<Rightarrow> (nat \<times> string) list \<Rightarrow> bool list" where
  "rate_spec limit now seen [] = []"
| "rate_spec limit now seen ((wait, tenant) # reqs) =
     (let w = (tenant, (now + wait) div WINDOW_SECONDS)
      in (count_list (w # seen) w \<le> limit) # rate_spec limit (now + wait) (w # seen) reqs)"

text \<open>
  The server's counters agree with the requests seen: a counter that the next requests can
  still use has the right value and does not expire before its window is over.
\<close>

definition counter_ok :: "keyspace \<Rightarrow> nat \<Rightarrow> (string \<times> nat) list \<Rightarrow> string \<Rightarrow> nat \<Rightarrow> bool" where
  "counter_ok v now seen t w =
     (case count_list seen (t, w) of
        0 \<Rightarrow> v (rate_key t w) = None
      | Suc n \<Rightarrow> \<exists>ttl. v (rate_key t w) = Some (str_nat (Suc n), Some ttl) \<and>
          1000 * (WINDOW_SECONDS * w + TTL_SECONDS) \<le> ttl + 1000 * now)"

definition counters_ok :: "keyspace \<Rightarrow> nat \<Rightarrow> (string \<times> nat) list \<Rightarrow> bool" where
  "counters_ok v now seen \<longleftrightarrow> (\<forall>t w. now div WINDOW_SECONDS \<le> w \<longrightarrow> counter_ok v now seen t w)"

lemma counters_okD: "counters_ok v now seen \<Longrightarrow> now div WINDOW_SECONDS \<le> w \<Longrightarrow> counter_ok v now seen t w"
  by (simp add: counters_ok_def)

lemma counter_ok_cong:
  "v' (rate_key t w) = v (rate_key t w) \<Longrightarrow> count_list seen' (t, w) = count_list seen (t, w) \<Longrightarrow>
   counter_ok v' now seen' t w = counter_ok v now seen t w"
  by (simp add: counter_ok_def split: nat.split)

section \<open>Idempotency store\<close>

definition idem_key :: "string \<Rightarrow> string" where
  "idem_key key = ''idempotency:'' @ key"

definition check_and_store :: "'r redis_ops \<Rightarrow> string \<Rightarrow> nat \<Rightarrow> 'r \<Rightarrow> bool \<times> 'r" where
  "check_and_store R key ttl r =
     (case r_set_nx_ex R (idem_key key) ''1'' ttl r of (stored, r') \<Rightarrow> (\<not> stored, r'))"

definition idem_delete :: "'r redis_ops \<Rightarrow> string \<Rightarrow> 'r \<Rightarrow> 'r" where
  "idem_delete R key r = r_del R (idem_key key) r"

lemma idem_key_inj [key_inj]: "idem_key a = idem_key b \<longleftrightarrow> a = b"
  by (simp add: idem_key_def)

section \<open>The limiter counts requests\<close>

context redis_kv
begin

lemma counters_elapse:
  assumes "counters_ok (view r) now seen"
  shows "counters_ok (view (r_elapse R (1000 * d) r)) (now + d) seen"
  unfolding counters_ok_def
proof (intro allI impI)
  fix t w
  assume later: "(now + d) div WINDOW_SECONDS \<le> w"
  then have "now div WINDOW_SECONDS \<le> w" by (meson div_le_mono le_add1 order_trans)
  then have ok: "counter_ok (view r) now seen t w" by (rule counters_okD [OF assms])
  have bound: "now + d < WINDOW_SECONDS * w + WINDOW_SECONDS"
    using later by (simp add: WINDOW_SECONDS_def)
  show "counter_ok (view (r_elapse R (1000 * d) r)) (now + d) seen t w"
  proof (cases "count_list seen (t, w)")
    case 0
    with ok show ?thesis by (simp add: counter_ok_def elapse_view)
  next
    case (Suc n)
    with ok obtain ttl where ttl: "view r (rate_key t w) = Some (str_nat (Suc n), Some ttl)"
      "1000 * (WINDOW_SECONDS * w + TTL_SECONDS) \<le> ttl + 1000 * now" by (auto simp: counter_ok_def)
    with bound have "\<not> ttl \<le> 1000 * d" by (simp add: WINDOW_SECONDS_def TTL_SECONDS_def)
    with ttl Suc show ?thesis by (simp add: counter_ok_def elapse_view)
  qed
qed

lemma incr_with_ttl_counts:
  assumes "case c of 0 \<Rightarrow> view r k = None | Suc n \<Rightarrow> view r k = Some (str_nat (Suc n), Some t)"
    and "incr_with_ttl R k 120 r = (count, r')"
  shows "count = Suc c \<and> view r' = (view r)(k \<mapsto> (str_nat (Suc c), Some (if c = 0 then 120000 else t)))"
proof (cases c)
  case 0
  with assms(1) have none: "view r k = None" by simp
  obtain c1 r1 where incr: "r_incr R k r = (c1, r1)" by fastforce
  with incr_absent [OF none] have "c1 = 1" "view r1 = (view r)(k \<mapsto> (str_nat 1, None))" by simp_all
  with incr assms(2) 0 show ?thesis by (auto simp: incr_with_ttl_def expire_view)
next
  case (Suc n)
  with assms(1) have some: "view r k = Some (str_nat (Suc n), Some t)" by simp
  obtain c1 r1 where incr: "r_incr R k r = (c1, r1)" by fastforce
  with incr_present [OF some] have "c1 = Suc (Suc n)" "view r1 = (view r)(k \<mapsto> (str_nat (Suc (Suc n)), Some t))"
    by simp_all
  with incr assms(2) Suc show ?thesis by (auto simp: incr_with_ttl_def)
qed

lemma rate_check_counts:
  assumes "counters_ok (view r) now seen" and "rate_check R limit now t r = (res, r')"
  shows "(\<not> isl res) = (Suc (count_list seen (t, now div WINDOW_SECONDS)) \<le> limit) \<and>
    counters_ok (view r') now ((t, now div WINDOW_SECONDS) # seen)"
proof -
  let ?w = "now div WINDOW_SECONDS"
  let ?c = "count_list seen (t, ?w)" and ?k = "rate_key t ?w"
  obtain count where incr: "incr_with_ttl R ?k 120 r = (count, r')"
    and res: "(\<not> isl res) = (count \<le> limit)"
    using assms(2) by (auto simp: rate_check_def Let_def TTL_SECONDS_def split: prod.splits if_splits)
  have "counter_ok (view r) now seen t ?w" by (rule counters_okD [OF assms(1)]) simp
  then obtain ttl where old: "case ?c of 0 \<Rightarrow> view r ?k = None
      | Suc n \<Rightarrow> view r ?k = Some (str_nat (Suc n), Some ttl)"
    and enough: "?c \<noteq> 0 \<longrightarrow> 1000 * (WINDOW_SECONDS * ?w + TTL_SECONDS) \<le> ttl + 1000 * now"
    unfolding counter_ok_def by (cases ?c) auto
  from incr_with_ttl_counts [OF old incr]
  have count: "count = Suc ?c" and v: "view r' = (view r)(?k \<mapsto>
    (str_nat (Suc ?c), Some (if ?c = 0 then 120000 else ttl)))" by simp_all
  have "counters_ok (view r') now ((t, ?w) # seen)"
    unfolding counters_ok_def
  proof (intro allI impI)
    fix t' w'
    assume later: "?w \<le> w'"
    show "counter_ok (view r') now ((t, ?w) # seen) t' w'"
    proof (cases "t' = t \<and> w' = ?w")
      case True
      have "1000 * (WINDOW_SECONDS * ?w + TTL_SECONDS) \<le> 120000 + 1000 * now"
        by (simp add: WINDOW_SECONDS_def TTL_SECONDS_def)
      with True enough show ?thesis by (auto simp: v counter_ok_def)
    next
      case False
      then have "counter_ok (view r') now ((t, ?w) # seen) t' w' = counter_ok (view r) now seen t' w'"
        by (intro counter_ok_cong) (auto simp: v rate_key_inj)
      with counters_okD [OF assms(1) later] show ?thesis by simp
    qed
  qed
  with res count show ?thesis by simp
qed

lemma rate_run_counts:
  "counters_ok (view r) now seen \<Longrightarrow> rate_run R limit now reqs r = rate_spec limit now seen reqs"
proof (induction reqs arbitrary: now seen r)
  case Nil
  then show ?case by simp
next
  case (Cons req reqs)
  obtain wait t where req: "req = (wait, t)" by fastforce
  obtain res r' where check: "rate_check R limit (now + wait) t (r_elapse R (1000 * wait) r) = (res, r')"
    by fastforce
  from rate_check_counts [OF counters_elapse [OF Cons.prems] check] Cons.IH check
  show ?case by (simp add: req Let_def)
qed

end

section \<open>Properties\<close>

text \<open>
  C16: The rate limiter admits exactly the requests that it should: started on a server without
  counters, the request of a tenant is admitted if and only if the tenant has made at most the
  limit of requests in the same one-minute window, this one included. Counters of other tenants
  and windows never interfere, and no counter expires before its window is over.
\<close>

lemma rate_limiter_counts:
  assumes "redis_kv R view" and "\<And>t w. view r (rate_key t w) = None"
  shows "rate_run R limit now reqs r = rate_spec limit now [] reqs"
proof (rule redis_kv.rate_run_counts [OF assms(1)])
  show "counters_ok (view r) now []" by (simp add: counters_ok_def counter_ok_def assms(2))
qed

lemma rate_limiter_counts_witness:
  "rate_run mem_redis 2 0 [(0, ''a''), (5, ''a''), (1, ''a''), (0, ''b''), (60, ''a'')] (\<lambda>_. None) =
     [True, True, False, True, True]"
  using rate_limiter_counts [OF mem.redis_kv_axioms, of "\<lambda>_. None" 2 0
      "[(0, ''a''), (5, ''a''), (1, ''a''), (0, ''b''), (60, ''a'')]"]
  by (simp add: WINDOW_SECONDS_def Let_def)

end
