(* ===== verification/Db_Session.thy ===== *)
theory Db_Session
  imports Py_Text
begin

text \<open>
  \<open>sutram_core/db/session.py\<close>: which connection pool an engine gets, and the life of a session, which
  every service repeats: commit when the body returns, roll back and raise again when it raises.
\<close>

section \<open>Engines\<close>

datatype pool = StaticPool | NullPool | QueuePool nat nat bool
  \<comment> \<open>pool size, overflow, pre-ping\<close>

record engine =
  en_url :: string
  en_pool :: pool
  en_check_same_thread :: "bool option"
    \<comment> \<open>the connect argument, where it is given\<close>

record session_factory =
  sf_engine :: engine
  sf_expire_on_commit :: bool

definition create_engine :: "string \<Rightarrow> bool \<Rightarrow> engine" where
  "create_engine database_url use_nullpool =
     (if startswith (lower database_url) ''sqlite''
      then \<lparr>en_url = database_url, en_pool = StaticPool, en_check_same_thread = Some False\<rparr>
      else if use_nullpool
      then \<lparr>en_url = database_url, en_pool = NullPool, en_check_same_thread = None\<rparr>
      else \<lparr>en_url = database_url, en_pool = QueuePool 5 10 True, en_check_same_thread = None\<rparr>)"

definition create_session_factory :: "engine \<Rightarrow> session_factory" where
  "create_session_factory e = \<lparr>sf_engine = e, sf_expire_on_commit = False\<rparr>"

text \<open>
  An in-memory database is shared by its sessions only through a StaticPool; a pool of SQLAlchemy's
  own in front of PgBouncer is excluded by the NullPool.
\<close>

lemma engine_pool:
  "en_pool (create_engine url np) =
     (if startswith (lower url) ''sqlite'' then StaticPool else if np then NullPool else QueuePool 5 10 True)"
  "en_url (create_engine url np) = url"
  by (simp_all add: create_engine_def)

section \<open>Sessions\<close>

text \<open>\<open>get_session\<close>, over the operations that open, commit and roll back a session.\<close>

definition get_session ::
  "('s, unit) py \<Rightarrow> ('s, unit) py \<Rightarrow> ('s, unit) py \<Rightarrow> ('s, 'a) py \<Rightarrow> ('s, 'a) py" where
  "get_session open_session commit rollback body =
     seq open_session
       (tryexcept (andthen body (\<lambda>a. seq commit (ret a)))
                  (\<lambda>e. seq rollback (throw e)))"

named_theorems wp_funs "weakest-precondition equations as equations of predicates"

lemma wp_ret_fun [wp_funs]: "wp (ret a) Q X = Q a"
  by (rule ext) simp

lemma wp_throw_fun [wp_funs]: "wp (throw e) Q X = X e"
  by (rule ext) simp

lemma wp_andthen_fun [wp_funs]: "wp (andthen m f) Q X = wp m (\<lambda>a. wp (f a) Q X) X"
  by (rule ext) simp

lemma wp_seq_fun [wp_funs]: "wp (seq m n) Q X = wp m (\<lambda>_. wp n Q X) X"
  by (rule ext) simp

lemma wp_tryexcept_fun [wp_funs]: "wp (tryexcept m h) Q X = wp m Q (\<lambda>e. wp (h e) Q X)"
  by (rule ext) simp

lemma wp_get_session:
  "wp (get_session op cm rb body) Q X =
     wp op (\<lambda>_. wp body (\<lambda>a. wp cm (\<lambda>_. Q a) (\<lambda>e. wp rb (\<lambda>_. X e) X)) (\<lambda>e. wp rb (\<lambda>_. X e) X)) X"
  by (simp add: get_session_def wp_funs)

text \<open>
  A session provider: \<open>stored\<close> is what the database has of a state. Opening and rolling back leave it
  alone, and so does the body, whose writes stay in the transaction.
\<close>

locale session_provider =
  fixes op cm rb :: "('s, unit) py" and stored :: "'s \<Rightarrow> 'd"
  assumes op_stored: "wp op (\<lambda>_ s'. stored s' = stored s) (\<lambda>_ s'. stored s' = stored s) s"
    and rb_stored: "wp rb (\<lambda>_ s'. stored s' = stored s) (\<lambda>_ s'. stored s' = stored s) s"
    and cm_stored: "wp cm (\<lambda>_ _. True) (\<lambda>_ s'. stored s' = stored s) s"
begin

text \<open>A session that raises has written nothing, whether its body or the commit raised.\<close>

lemma raising_session:
  assumes "\<And>s. wp body (\<lambda>_ s'. stored s' = stored s) (\<lambda>_ s'. stored s' = stored s) s"
    and "get_session op cm rb body s = (Inl e, s')"
  shows "stored s' = stored s"
proof -
  have rb: "wp rb (\<lambda>_ s2. stored s2 = stored s) (\<lambda>_ s2. stored s2 = stored s) s1" if "stored s1 = stored s" for s1
    using rb_stored [of s1] that by simp
  have cm: "wp cm (\<lambda>_ _. True) (\<lambda>e. wp rb (\<lambda>_ s2. stored s2 = stored s) (\<lambda>_ s2. stored s2 = stored s)) s1"
    if "stored s1 = stored s" for s1
    by (rule wp_mono [OF cm_stored]) (simp_all add: rb that)
  have body: "wp body (\<lambda>a. wp cm (\<lambda>_ _. True) (\<lambda>e. wp rb (\<lambda>_ s2. stored s2 = stored s) (\<lambda>_ s2. stored s2 = stored s)))
      (\<lambda>e. wp rb (\<lambda>_ s2. stored s2 = stored s) (\<lambda>_ s2. stored s2 = stored s)) s1" if "stored s1 = stored s" for s1
    by (rule wp_mono [OF assms(1)]) (simp_all add: cm rb that)
  have "wp (get_session op cm rb body) (\<lambda>_ _. True) (\<lambda>_ s2. stored s2 = stored s) s"
    unfolding wp_get_session
    by (rule wp_mono [OF op_stored]) (simp_all add: body)
  from wp_result [OF this assms(2)] show ?thesis by simp
qed

end

end
