(* ===== verification/Workflow_Api.thy ===== *)
theory Workflow_Api
  imports Tasks Core_Middleware Db_Session
begin

text \<open>
  The routes of the workflow service: \<open>routes/executions.py\<close>, \<open>routes/workflows.py\<close>,
  \<open>routes/internal.py\<close>, with the database session of \<open>dependencies.py\<close>.

  A request works on its session's view \<open>rq_db\<close> of the database; a commit makes it the
  service's database and ends the transaction's row-level security context, an exception
  throws it away. Requests of different sessions do not interleave here; what interleaving
  does to the execution row is the subject of the executor's environment.
\<close>

section \<open>Requests and their session\<close>

record 'r request =
  rq_sv :: "'r service"
  rq_db :: wf_db
  rq_rls :: rls_ctx

definition session_commit :: "('r request, unit) py" where
  "session_commit = modify (\<lambda>q. q\<lparr>rq_sv := (rq_sv q)\<lparr>sv_db := rq_db q\<rparr>, rq_rls := end_transaction (rq_rls q)\<rparr>)"

text \<open>\<open>get_db_session\<close>: \<open>byp\<close> says whether the service's database role bypasses row-level security.\<close>

definition with_db_session :: "bool \<Rightarrow> ('r request, 'a) py \<Rightarrow> ('r service, 'a) py" where
  "with_db_session byp body = (\<lambda>sv.
     case body \<lparr>rq_sv = sv, rq_db = sv_db sv, rq_rls = \<lparr>rls_bypass = byp, rls_tenant = None\<rparr>\<rparr> of
       (Inr a, q) \<Rightarrow> (Inr a, (rq_sv q)\<lparr>sv_db := rq_db q\<rparr>)
     | (Inl e, q) \<Rightarrow> (Inl e, rq_sv q))"

definition tenant_session :: "uuid \<Rightarrow> ('r request, unit) py" where
  "tenant_session tid = modify (\<lambda>q. q\<lparr>rq_rls := set_tenant_context tid (rq_rls q)\<rparr>)"

text \<open>A call of the service outside the session: drawing a UUID, enqueueing a task.\<close>

definition on_service :: "('r service, 'a) py \<Rightarrow> ('r request, 'a) py" where
  "on_service m = (\<lambda>q. case m (rq_sv q) of (res, sv) \<Rightarrow> (res, q\<lparr>rq_sv := sv\<rparr>))"

text \<open>An INSERT: row-level security checks the new row, the foreign key its tenant.\<close>

definition insert_allowed :: "rls_ctx \<Rightarrow> wf_db \<Rightarrow> uuid \<Rightarrow> exn + unit" where
  "insert_allowed c db tid =
     (if \<not> tenant_isolation c tid then Inl (LibraryError ''row-level security'')
      else if tid \<notin> set (map tn_id (db_tenants db)) then Inl (LibraryError ''IntegrityError'')
      else Inr ())"

section \<open>Executions\<close>

definition find_execution :: "uuid \<Rightarrow> uuid \<Rightarrow> ('r request, exec_row) py" where
  "find_execution eid tid =
     andthen (gets (\<lambda>q. select_rows (rq_rls q) ex_tenant_id (\<lambda>r. ex_id r = eid \<and> ex_tenant_id r = tid)
       (db_executions (rq_db q)))) (\<lambda>rows.
     andthen (liftsum (scalar_one_or_none rows)) (\<lambda>found.
     case found of None \<Rightarrow> throw (HTTPException 404 ''Execution not found'') | Some ex \<Rightarrow> ret ex))"

text \<open>\<open>fsm.transition\<close> with its error turned into a 409.\<close>

definition api_transition :: "execution_status \<Rightarrow> string \<Rightarrow> ('r request, execution_status) py" where
  "api_transition st trigger =
     (case transition st trigger of
        Inl (InvalidTransitionError m) \<Rightarrow> throw (HTTPException 409 m)
      | Inl e \<Rightarrow> throw e
      | Inr st' \<Rightarrow> ret st')"

definition save_execution :: "exec_row \<Rightarrow> ('r request, unit) py" where
  "save_execution ex = modify (\<lambda>q. q\<lparr>rq_db := put_execution ex (rq_db q)\<rparr>)"

definition get_execution :: "bool \<Rightarrow> uuid \<Rightarrow> uuid \<Rightarrow> ('r service, exec_row) py" where
  "get_execution byp eid tid = with_db_session byp (seq (tenant_session tid) (find_execution eid tid))"

definition pause_execution :: "bool \<Rightarrow> uuid \<Rightarrow> uuid \<Rightarrow> ('r service, exec_row) py" where
  "pause_execution byp eid tid = with_db_session byp
     (seq (tenant_session tid)
     (andthen (find_execution eid tid) (\<lambda>ex.
      andthen (api_transition (ex_status ex) ''manual_pause'') (\<lambda>st.
      let ex' = ex\<lparr>ex_status := st, ex_pause_reason := Some ''manual_pause''\<rparr>
      in seq (save_execution ex') (ret ex')))))"

definition resume_execution :: "bool \<Rightarrow> (uuid \<Rightarrow> exn option) \<Rightarrow> uuid \<Rightarrow> uuid \<Rightarrow> ('r service, exec_row) py" where
  "resume_execution byp bk eid tid = with_db_session byp
     (seq (tenant_session tid)
     (andthen (find_execution eid tid) (\<lambda>ex.
      andthen (api_transition (ex_status ex) ''resume'') (\<lambda>st.
      let ex' = ex\<lparr>ex_status := st, ex_pause_reason := None\<rparr>
      in seq (save_execution ex')
         (seq session_commit
         (seq (on_service (celery_delay bk eid)) (ret ex')))))))"

definition cancel_execution :: "bool \<Rightarrow> uuid \<Rightarrow> uuid \<Rightarrow> ('r service, exec_row) py" where
  "cancel_execution byp eid tid = with_db_session byp
     (seq (tenant_session tid)
     (andthen (find_execution eid tid) (\<lambda>ex.
      andthen (api_transition (ex_status ex) ''cancel'') (\<lambda>st.
      let ex' = ex\<lparr>ex_status := st\<rparr>
      in seq (save_execution ex') (ret ex')))))"

text \<open>\<open>POST /workflows/{workflow_id}/execute\<close>\<close>

definition execute_workflow ::
  "bool \<Rightarrow> exec_env \<Rightarrow> (uuid \<Rightarrow> exn option) \<Rightarrow> uuid \<Rightarrow> variables \<Rightarrow> uuid \<Rightarrow> ('r service, exec_row) py" where
  "execute_workflow byp E bk wid inputs tid = with_db_session byp
     (seq (tenant_session tid)
     (andthen (gets (\<lambda>q. select_rows (rq_rls q) wf_tenant_id (\<lambda>r. wf_id r = wid) (db_workflows (rq_db q)))) (\<lambda>rows.
      andthen (liftsum (scalar_one_or_none rows)) (\<lambda>found.
      case found of
        None \<Rightarrow> throw (HTTPException 404 ''Workflow not found'')
      | Some wfl \<Rightarrow>
          andthen (on_service (new_uuid E)) (\<lambda>eid.
          let ex = \<lparr>ex_id = eid, ex_tenant_id = tid, ex_workflow_id = wid, ex_status = PENDING,
                    ex_context = new_context eid tid wid inputs, ex_error_message = None,
                    ex_pause_reason = None, ex_last_heartbeat = None,
                    ex_definition_snapshot = Some (wf_definition wfl)\<rparr>
          in andthen (gets (\<lambda>q. insert_allowed (rq_rls q) (rq_db q) tid)) (\<lambda>ok.
             seq (liftsum ok)
             (seq (modify (\<lambda>q. q\<lparr>rq_db := (rq_db q)\<lparr>db_executions := db_executions (rq_db q) @ [ex]\<rparr>\<rparr>))
             (seq session_commit
             (seq (on_service (celery_delay bk eid)) (ret ex))))))))))"

section \<open>The event stream of an execution\<close>

text \<open>The ownership check runs in a session of its own that sets no tenant context.\<close>

definition stream_allowed :: "bool \<Rightarrow> uuid \<Rightarrow> uuid \<Rightarrow> wf_db \<Rightarrow> exn + unit" where
  "stream_allowed byp eid tid db =
     (case scalar_one_or_none (select_rows \<lparr>rls_bypass = byp, rls_tenant = None\<rparr> ex_tenant_id
        (\<lambda>r. ex_id r = eid \<and> ex_tenant_id r = tid) (db_executions db)) of
        Inl e \<Rightarrow> Inl e
      | Inr None \<Rightarrow> Inl (HTTPException 404 ''Execution not found'')
      | Inr (Some _) \<Rightarrow> Inr ())"

definition SSE_TERMINAL :: "string list" where
  "SSE_TERMINAL = [''execution.completed'', ''execution.paused'', ''execution.failed'']"

text \<open>One server-sent event; \<open>dumps\<close> is \<open>json.dumps\<close>.\<close>

definition sse_frame :: "((string \<times> string) list \<Rightarrow> string) \<Rightarrow> (string \<times> string) list \<Rightarrow> string" where
  "sse_frame dumps decoded =
     ''event: '' @ (case map_of decoded ''event_type'' of None \<Rightarrow> ''message'' | Some t \<Rightarrow> t) @
     [CHR 0x0A] @ ''data: '' @ dumps decoded @ [CHR 0x0A, CHR 0x0A]"

text \<open>
  \<open>event_generator\<close> over what successive reads of the stream return: the frames it yields,
  the messages it acknowledges, and whether it has returned. A read without messages is an
  empty batch, after which the loop goes on.
\<close>

fun sse_entries ::
  "((string \<times> string) list \<Rightarrow> string) \<Rightarrow> (string \<times> (string \<times> string) list) list \<Rightarrow>
     string list \<times> string list \<times> bool" where
  "sse_entries dumps [] = ([], [], False)"
| "sse_entries dumps ((msg_id, decoded) # rest) =
     (if (case map_of decoded ''event_type'' of None \<Rightarrow> False | Some t \<Rightarrow> t \<in> set SSE_TERMINAL)
      then ([sse_frame dumps decoded], [msg_id], True)
      else (case sse_entries dumps rest of
              (frames, acks, finished) \<Rightarrow> (sse_frame dumps decoded # frames, msg_id # acks, finished)))"

fun sse_generator ::
  "((string \<times> string) list \<Rightarrow> string) \<Rightarrow> (string \<times> (string \<times> string) list) list list \<Rightarrow>
     string list \<times> string list \<times> bool" where
  "sse_generator dumps [] = ([], [], False)"
| "sse_generator dumps (batch # batches) =
     (case sse_entries dumps batch of
        (frames, acks, True) \<Rightarrow> (frames, acks, True)
      | (frames, acks, False) \<Rightarrow>
          (case sse_generator dumps batches of
             (frames', acks', finished) \<Rightarrow> (frames @ frames', acks @ acks', finished)))"

section \<open>Workflows and tenants\<close>

definition create_workflow ::
  "bool \<Rightarrow> exec_env \<Rightarrow> string \<Rightarrow> string \<Rightarrow> workflow_definition \<Rightarrow> uuid \<Rightarrow> ('r service, workflow_row) py" where
  "create_workflow byp E name description defn tid = with_db_session byp
     (seq (tenant_session tid)
     (andthen (on_service (new_uuid E)) (\<lambda>wid.
      let w = \<lparr>wf_id = wid, wf_tenant_id = tid, wf_name = name, wf_description = description,
               wf_definition = defn, wf_version = 1\<rparr>
      in andthen (gets (\<lambda>q. insert_allowed (rq_rls q) (rq_db q) tid)) (\<lambda>ok.
         seq (liftsum ok)
         (seq (modify (\<lambda>q. q\<lparr>rq_db := (rq_db q)\<lparr>db_workflows := db_workflows (rq_db q) @ [w]\<rparr>\<rparr>))
         (ret w))))))"

definition get_workflow :: "bool \<Rightarrow> uuid \<Rightarrow> uuid \<Rightarrow> ('r service, workflow_row) py" where
  "get_workflow byp wid tid = with_db_session byp
     (seq (tenant_session tid)
     (andthen (gets (\<lambda>q. select_rows (rq_rls q) wf_tenant_id (\<lambda>r. wf_id r = wid \<and> wf_tenant_id r = tid)
        (db_workflows (rq_db q)))) (\<lambda>rows.
      andthen (liftsum (scalar_one_or_none rows)) (\<lambda>found.
      case found of None \<Rightarrow> throw (HTTPException 404 ''Workflow not found'') | Some w \<Rightarrow> ret w))))"

text \<open>The internal route sets no tenant context; the tenants table has no tenant policy.\<close>

definition get_tenant :: "string \<Rightarrow> string \<Rightarrow> uuid \<Rightarrow> wf_db \<Rightarrow> exn + (string \<times> string \<times> variables)" where
  "get_tenant expected_token token tid db =
     (case verify_internal_token token expected_token of
        Inl (InternalAuthError m) \<Rightarrow> Inl (HTTPException 401 m)
      | Inl e \<Rightarrow> Inl e
      | Inr _ \<Rightarrow>
          (case scalar_one_or_none (filter (\<lambda>r. tn_id r = tid) (db_tenants db)) of
             Inl e \<Rightarrow> Inl e
           | Inr None \<Rightarrow> Inl (HTTPException 404 ''Tenant not found'')
           | Inr (Some t) \<Rightarrow> Inr (uuid_str (tn_id t), tn_name t, tn_settings t)))"

section \<open>What the routes do to the database\<close>

lemma wp_with_db_session:
  "wp (with_db_session byp body) Q X sv =
     wp body (\<lambda>a q. Q a ((rq_sv q)\<lparr>sv_db := rq_db q\<rparr>)) (\<lambda>e q. X e (rq_sv q))
       \<lparr>rq_sv = sv, rq_db = sv_db sv, rq_rls = \<lparr>rls_bypass = byp, rls_tenant = None\<rparr>\<rparr>"
  by (simp add: wp_def with_db_session_def split: prod.split sum.split)

lemma wp_on_service [simp]:
  "wp (on_service m) Q X q = wp m (\<lambda>a sv. Q a (q\<lparr>rq_sv := sv\<rparr>)) (\<lambda>e sv. X e (q\<lparr>rq_sv := sv\<rparr>)) (rq_sv q)"
  by (simp add: wp_def on_service_def split: prod.split sum.split)

lemma wp_session_ops [simp]:
  "wp session_commit Q X q =
     Q () (q\<lparr>rq_sv := (rq_sv q)\<lparr>sv_db := rq_db q\<rparr>, rq_rls := end_transaction (rq_rls q)\<rparr>)"
  "wp (tenant_session tid) Q X q = Q () (q\<lparr>rq_rls := set_tenant_context tid (rq_rls q)\<rparr>)"
  "wp (save_execution ex) Q X q = Q () (q\<lparr>rq_db := put_execution ex (rq_db q)\<rparr>)"
  by (simp_all add: session_commit_def tenant_session_def save_execution_def)

text \<open>The request's session is an instance of the core's.\<close>

definition session_rollback :: "('r request, unit) py" where
  "session_rollback = modify (\<lambda>q. q\<lparr>rq_db := sv_db (rq_sv q)\<rparr>)"

abbreviation request_stored :: "'r request \<Rightarrow> wf_db" where
  "request_stored q \<equiv> sv_db (rq_sv q)"

lemma with_db_session_get:
  "with_db_session byp body sv =
     (case get_session (ret ()) session_commit session_rollback body
        \<lparr>rq_sv = sv, rq_db = sv_db sv, rq_rls = \<lparr>rls_bypass = byp, rls_tenant = None\<rparr>\<rparr> of
      (res, q) \<Rightarrow> (res, rq_sv q))"
  by (simp add: with_db_session_def get_session_def py_defs session_commit_def session_rollback_def
      split: prod.split sum.split)

interpretation request_db: session_provider "ret ()" session_commit session_rollback request_stored
  by unfold_locales (simp_all add: session_rollback_def)

lemma at_most_one:
  "length rows \<le> 1 \<Longrightarrow> (\<And>x. x \<in> set rows \<Longrightarrow> P x) \<Longrightarrow> (\<exists>x. rows = [x] \<and> P x) \<or> rows = []"
  by (cases rows) auto

lemma own_execution:
  assumes "wf_db_ok db"
  shows "(\<exists>ex. select_rows c ex_tenant_id (\<lambda>r. ex_id r = eid \<and> ex_tenant_id r = tid) (db_executions db) = [ex] \<and>
      ex \<in> set (db_executions db) \<and> ex_id ex = eid \<and> ex_tenant_id ex = tid) \<or>
    select_rows c ex_tenant_id (\<lambda>r. ex_id r = eid \<and> ex_tenant_id r = tid) (db_executions db) = []"
proof -
  let ?rows = "select_rows c ex_tenant_id (\<lambda>r. ex_id r = eid \<and> ex_tenant_id r = tid) (db_executions db)"
  have "distinct (map ex_id (db_executions db))" using assms by (simp add: wf_db_ok_def)
  from filter_key_unique [OF this, of eid "\<lambda>r. tenant_isolation c (ex_tenant_id r) \<and> ex_tenant_id r = tid"]
  have "length ?rows \<le> 1" by (simp add: select_rows_def conj_ac)
  then show ?thesis
    by (rule at_most_one) (simp add: select_rows_def)
qed

lemma wp_find_execution:
  assumes "wf_db_ok (rq_db q)"
    and "\<And>ex. ex \<in> set (db_executions (rq_db q)) \<Longrightarrow> ex_id ex = eid \<Longrightarrow> ex_tenant_id ex = tid \<Longrightarrow> Q ex q"
    and "X (HTTPException 404 ''Execution not found'') q"
  shows "wp (find_execution eid tid) Q X q"
  using own_execution [OF assms(1), of "rq_rls q" eid tid] assms(2,3)
  by (auto simp: find_execution_def)

text \<open>The three routes that change an execution's status.\<close>

datatype api_op = Pause | Resume | Cancel

fun op_trigger :: "api_op \<Rightarrow> string" where
  "op_trigger Pause = ''manual_pause''"
| "op_trigger Resume = ''resume''"
| "op_trigger Cancel = ''cancel''"

fun op_row :: "api_op \<Rightarrow> exec_row \<Rightarrow> execution_status \<Rightarrow> exec_row" where
  "op_row Pause ex st = ex\<lparr>ex_status := st, ex_pause_reason := Some ''manual_pause''\<rparr>"
| "op_row Resume ex st = ex\<lparr>ex_status := st, ex_pause_reason := None\<rparr>"
| "op_row Cancel ex st = ex\<lparr>ex_status := st\<rparr>"

fun api_step :: "bool \<Rightarrow> (uuid \<Rightarrow> exn option) \<Rightarrow> api_op \<Rightarrow> uuid \<Rightarrow> uuid \<Rightarrow> ('r service, exec_row) py" where
  "api_step byp bk Pause eid tid = pause_execution byp eid tid"
| "api_step byp bk Resume eid tid = resume_execution byp bk eid tid"
| "api_step byp bk Cancel eid tid = cancel_execution byp eid tid"

definition changes_by_op :: "api_op \<Rightarrow> uuid \<Rightarrow> uuid \<Rightarrow> wf_db \<Rightarrow> wf_db \<Rightarrow> bool" where
  "changes_by_op op eid tid db db' \<longleftrightarrow>
     (\<exists>ex st. ex \<in> set (db_executions db) \<and> ex_id ex = eid \<and> ex_tenant_id ex = tid \<and>
        transition (ex_status ex) (op_trigger op) = Inr st \<and> db' = put_execution (op_row op ex st) db)"

lemma changes_by_opI:
  "ex \<in> set (db_executions db) \<Longrightarrow> ex_id ex = eid \<Longrightarrow> ex_tenant_id ex = tid \<Longrightarrow>
   transition (ex_status ex) (op_trigger op) = Inr st \<Longrightarrow>
   changes_by_op op eid tid db (put_execution (op_row op ex st) db)"
  unfolding changes_by_op_def by blast

lemma wp_api_transition:
  assumes "\<And>st'. transition st trigger = Inr st' \<Longrightarrow> Q st' q" and "\<And>e. X e q"
  shows "wp (api_transition st trigger) Q X q"
  using assms by (auto simp: api_transition_def split: sum.split exn.split)

lemma api_step_effect:
  assumes "wf_db_ok (sv_db sv)"
  shows "wp (api_step byp bk op eid tid)
    (\<lambda>ex sv'. ex_id ex = eid \<and> ex_tenant_id ex = tid \<and> changes_by_op op eid tid (sv_db sv) (sv_db sv'))
    (\<lambda>_ sv'. sv_db sv' = sv_db sv \<or> changes_by_op op eid tid (sv_db sv) (sv_db sv')) sv"
proof (cases op)
  case Pause
  show ?thesis
    using assms changes_by_opI [of _ "sv_db sv" eid tid Pause]
    by (auto simp: Pause pause_execution_def wp_with_db_session Let_def
        intro!: wp_find_execution wp_api_transition)
next
  case Resume
  show ?thesis
    using assms changes_by_opI [of _ "sv_db sv" eid tid Resume]
    by (auto simp: Resume resume_execution_def wp_with_db_session Let_def
        intro!: wp_find_execution wp_api_transition split: option.split)
next
  case Cancel
  show ?thesis
    using assms changes_by_opI [of _ "sv_db sv" eid tid Cancel]
    by (auto simp: Cancel cancel_execution_def wp_with_db_session Let_def
        intro!: wp_find_execution wp_api_transition)
qed

lemma put_other_tenants:
  assumes "wf_db_ok db" and "ex \<in> set (db_executions db)" and "ex_id ex' = ex_id ex" and "ex_tenant_id ex' = ex_tenant_id ex"
  shows "filter (\<lambda>r. ex_tenant_id r \<noteq> ex_tenant_id ex) (db_executions (put_execution ex' db)) =
    filter (\<lambda>r. ex_tenant_id r \<noteq> ex_tenant_id ex) (db_executions db)"
proof -
  have "filter (\<lambda>r. ex_tenant_id r \<noteq> ex_tenant_id ex) (map (\<lambda>r. if ex_id r = ex_id ex then ex' else r) rows) =
      filter (\<lambda>r. ex_tenant_id r \<noteq> ex_tenant_id ex) rows"
    if "\<And>r. r \<in> set rows \<Longrightarrow> ex_id r = ex_id ex \<Longrightarrow> r = ex" for rows
    using that by (induction rows) (auto simp: assms(4))
  moreover have "r = ex" if "r \<in> set (db_executions db)" and "ex_id r = ex_id ex" for r
    using assms(1,2) that by (auto simp: wf_db_ok_def distinct_map dest: inj_onD)
  ultimately show ?thesis by (simp add: put_execution_def update_rows_def assms(3))
qed

lemma changes_by_op_others:
  assumes "wf_db_ok db" and "changes_by_op op eid tid db db'"
  shows "filter (\<lambda>r. ex_tenant_id r \<noteq> tid) (db_executions db') = filter (\<lambda>r. ex_tenant_id r \<noteq> tid) (db_executions db)"
proof -
  from assms(2) obtain ex st where ex: "ex \<in> set (db_executions db)" "ex_id ex = eid" "ex_tenant_id ex = tid"
    and db': "db' = put_execution (op_row op ex st) db" unfolding changes_by_op_def by blast
  have "ex_id (op_row op ex st) = ex_id ex" "ex_tenant_id (op_row op ex st) = ex_tenant_id ex"
    by (cases op; simp)+
  from put_other_tenants [OF assms(1) ex(1) this] ex(3) db' show ?thesis by simp
qed

text \<open>The row that \<open>execute\<close> creates.\<close>

definition new_execution :: "uuid \<Rightarrow> uuid \<Rightarrow> workflow_row \<Rightarrow> variables \<Rightarrow> exec_row" where
  "new_execution eid tid w inputs =
     \<lparr>ex_id = eid, ex_tenant_id = tid, ex_workflow_id = wf_id w, ex_status = PENDING,
      ex_context = new_context eid tid (wf_id w) inputs, ex_error_message = None,
      ex_pause_reason = None, ex_last_heartbeat = None, ex_definition_snapshot = Some (wf_definition w)\<rparr>"

lemma execute_workflow_visible:
  assumes "wf_db_ok (sv_db sv)" and "w \<in> set (db_workflows (sv_db sv))"
    and "byp \<or> wf_tenant_id w = tid" and "tid \<in> set (map tn_id (db_tenants (sv_db sv)))"
  shows "execute_workflow byp E bk (wf_id w) inputs tid sv =
    (let ex = new_execution (ee_uuid E (sv_tick sv)) tid w inputs;
         sv' = sv\<lparr>sv_tick := Suc (sv_tick sv),
                  sv_db := (sv_db sv)\<lparr>db_executions := db_executions (sv_db sv) @ [ex]\<rparr>\<rparr>
     in case bk (ex_id ex) of
          Some e \<Rightarrow> (Inl e, sv')
        | None \<Rightarrow> (Inr ex, sv'\<lparr>sv_queue := sv_queue sv @ [ex_id ex]\<rparr>))"
proof -
  have dist: "distinct (map wf_id (db_workflows (sv_db sv)))" using assms(1) by (simp add: wf_db_ok_def)
  have rows: "select_rows (tenant_ctx byp tid) wf_tenant_id (\<lambda>r. wf_id r = wf_id w) (db_workflows (sv_db sv)) = [w]"
    using select_rows_id [OF dist assms(2), of "tenant_ctx byp tid" wf_tenant_id] assms(3) by auto
  show ?thesis
    using assms(3,4)
    by (simp add: execute_workflow_def with_db_session_def seq_def andthen_def tenant_session_def rows
        on_service_def new_uuid_def insert_allowed_def session_commit_def celery_delay_def new_execution_def Let_def
        split: option.split)
qed

lemma execute_workflow_hidden:
  assumes "wf_db_ok (sv_db sv)" and "w \<in> set (db_workflows (sv_db sv))" and "wf_tenant_id w \<noteq> tid"
  shows "execute_workflow False E bk (wf_id w) inputs tid sv = (Inl (HTTPException 404 ''Workflow not found''), sv)"
proof -
  have dist: "distinct (map wf_id (db_workflows (sv_db sv)))" using assms(1) by (simp add: wf_db_ok_def)
  have rows: "select_rows (tenant_ctx False tid) wf_tenant_id (\<lambda>r. wf_id r = wf_id w) (db_workflows (sv_db sv)) = []"
    using select_rows_id [OF dist assms(2), of "tenant_ctx False tid" wf_tenant_id] assms(3) by auto
  show ?thesis
    by (simp add: execute_workflow_def with_db_session_def seq_def andthen_def tenant_session_def rows)
qed

lemma get_workflow_hidden:
  assumes "wf_db_ok (sv_db sv)" and "w \<in> set (db_workflows (sv_db sv))" and "wf_tenant_id w \<noteq> tid"
  shows "get_workflow byp (wf_id w) tid sv = (Inl (HTTPException 404 ''Workflow not found''), sv)"
proof -
  have dist: "distinct (map wf_id (db_workflows (sv_db sv)))" using assms(1) by (simp add: wf_db_ok_def)
  have rows: "select_rows (tenant_ctx byp tid) wf_tenant_id (\<lambda>r. wf_id r = wf_id w \<and> wf_tenant_id r = tid)
      (db_workflows (sv_db sv)) = []"
    using select_rows_key [OF dist assms(2), of "tenant_ctx byp tid" wf_tenant_id "\<lambda>r. wf_tenant_id r = tid"] assms(3)
    by auto
  show ?thesis
    by (simp add: get_workflow_def with_db_session_def seq_def andthen_def tenant_session_def rows)
qed

text \<open>What a client sees of a stream: everything up to and including the first terminal event.\<close>

definition terminal_message :: "string \<times> (string \<times> string) list \<Rightarrow> bool" where
  "terminal_message m \<longleftrightarrow> (case map_of (snd m) ''event_type'' of None \<Rightarrow> False | Some t \<Rightarrow> t \<in> set SSE_TERMINAL)"

definition until_terminal :: "(string \<times> (string \<times> string) list) list \<Rightarrow> (string \<times> (string \<times> string) list) list" where
  "until_terminal ms = takeWhile (\<lambda>m. \<not> terminal_message m) ms @ take 1 (dropWhile (\<lambda>m. \<not> terminal_message m) ms)"

lemma until_terminal_Cons:
  "until_terminal (m # ms) = (if terminal_message m then [m] else m # until_terminal ms)"
  by (simp add: until_terminal_def)

lemma until_terminal_append:
  "until_terminal (xs @ ys) =
     (if \<exists>m \<in> set xs. terminal_message m then until_terminal xs else xs @ until_terminal ys)"
  by (induction xs) (auto simp: until_terminal_Cons)

lemma sse_entries_spec:
  "sse_entries dumps ms = (map (sse_frame dumps \<circ> snd) (until_terminal ms), map fst (until_terminal ms),
     \<exists>m \<in> set ms. terminal_message m)"
  by (induction dumps ms rule: sse_entries.induct)
    (auto simp: until_terminal_Cons terminal_message_def until_terminal_def split: option.splits)

lemma until_terminal_none: "\<not> (\<exists>m \<in> set ms. terminal_message m) \<Longrightarrow> until_terminal ms = ms"
  by (induction ms) (auto simp: until_terminal_Cons until_terminal_def)

section \<open>Properties\<close>

text \<open>Two tenants, of which the second owns a workflow.\<close>

definition sample_workflow :: workflow_row where
  "sample_workflow = \<lparr>wf_id = 9, wf_tenant_id = 8, wf_name = ''w'', wf_description = [], wf_definition = sample_wd,
     wf_version = 1\<rparr>"

definition sample_tenants :: "keyspace service" where
  "sample_tenants = (sample_service RUNNING)\<lparr>sv_db :=
     \<lparr>db_tenants = [\<lparr>tn_id = 7, tn_name = ''a'', tn_settings = []\<rparr>, \<lparr>tn_id = 8, tn_name = ''b'', tn_settings = []\<rparr>],
      db_workflows = [sample_workflow], db_executions = [sample_row RUNNING], db_checkpoints = []\<rparr>,
     sv_tick := 5\<rparr>"

lemma sample_tenants_simps [simp]:
  "wf_db_ok (sv_db sample_tenants)" "sample_workflow \<in> set (db_workflows (sv_db sample_tenants))"
  "map tn_id (db_tenants (sv_db sample_tenants)) = [7, 8]" "wf_id sample_workflow = 9"
  "wf_tenant_id sample_workflow = 8" "db_executions (sv_db sample_tenants) = [sample_row RUNNING]"
  "sv_tick sample_tenants = 5"
  by (simp_all add: sample_tenants_def sample_workflow_def wf_db_ok_def)

text \<open>
  C20: Pausing, resuming and cancelling change at most the execution with the given id of the
  requesting tenant, only along a transition of the state machine, and leave the executions of all
  other tenants as they are; a successful reply is about that execution.
\<close>

lemma status_routes_are_isolated:
  assumes "wf_db_ok (sv_db sv)" and "api_step byp bk op eid tid sv = (res, sv')"
  shows "(sv_db sv' = sv_db sv \<or> changes_by_op op eid tid (sv_db sv) (sv_db sv')) \<and>
    filter (\<lambda>r. ex_tenant_id r \<noteq> tid) (db_executions (sv_db sv')) =
      filter (\<lambda>r. ex_tenant_id r \<noteq> tid) (db_executions (sv_db sv)) \<and>
    (\<forall>ex. res = Inr ex \<longrightarrow> ex_id ex = eid \<and> ex_tenant_id ex = tid)"
proof -
  have "sv_db sv' = sv_db sv \<or> changes_by_op op eid tid (sv_db sv) (sv_db sv')"
    and "\<forall>ex. res = Inr ex \<longrightarrow> ex_id ex = eid \<and> ex_tenant_id ex = tid"
    using wp_result [OF api_step_effect [OF assms(1), of byp bk op eid tid] assms(2)]
    by (auto split: sum.splits)
  moreover from this(1) have "filter (\<lambda>r. ex_tenant_id r \<noteq> tid) (db_executions (sv_db sv')) =
      filter (\<lambda>r. ex_tenant_id r \<noteq> tid) (db_executions (sv_db sv))"
    using changes_by_op_others [OF assms(1)] by auto
  ultimately show ?thesis by blast
qed

lemma status_routes_are_isolated_witness:
  "sv_db (snd (api_step True (\<lambda>_. None) Cancel 1 8 (sample_service RUNNING))) = sv_db (sample_service RUNNING)"
proof -
  obtain res sv' where step: "api_step True (\<lambda>_. None) Cancel 1 8 (sample_service RUNNING) = (res, sv')" by fastforce
  from status_routes_are_isolated [OF _ step]
  have "sv_db sv' = sv_db (sample_service RUNNING)"
    by (auto simp: changes_by_op_def) (simp_all add: sample_row_def)
  with step show ?thesis by simp
qed

text \<open>
  The route that starts an execution does not restrict the workflow to the tenant: where row-level
  security is enforced another tenant's workflow is not found, but where the service's role bypasses it
  the tenant runs the other tenant's definition, which reading the workflow refuses in both cases.
\<close>

lemma execute_crosses_tenants:
  assumes "wf_db_ok (sv_db sv)" and "w \<in> set (db_workflows (sv_db sv))" and "wf_tenant_id w \<noteq> tid"
    and "tid \<in> set (map tn_id (db_tenants (sv_db sv)))" and "\<And>e. bk e = None"
  shows "fst (execute_workflow False E bk (wf_id w) inputs tid sv) = Inl (HTTPException 404 ''Workflow not found'') \<and>
    fst (get_workflow True (wf_id w) tid sv) = Inl (HTTPException 404 ''Workflow not found'') \<and>
    fst (execute_workflow True E bk (wf_id w) inputs tid sv) =
      Inr (new_execution (ee_uuid E (sv_tick sv)) tid w inputs)"
  using assms by (simp add: execute_workflow_hidden get_workflow_hidden execute_workflow_visible Let_def)

lemma execute_crosses_tenants_witness:
  "fst (execute_workflow True sample_env (\<lambda>_. None) 9 [] 7 sample_tenants) =
     Inr (new_execution 5 7 sample_workflow [])"
  using execute_crosses_tenants [of sample_tenants sample_workflow 7 "\<lambda>_. None" sample_env "[]"]
  by (simp add: sample_env_def)

text \<open>
  When the broker refuses the task, the execution stays committed as PENDING, is in no queue, and no
  later recovery scan selects it: the client gets an error and the execution is never run.
\<close>

lemma failed_enqueue_strands:
  assumes "wf_db_ok (sv_db sv)" and "w \<in> set (db_workflows (sv_db sv))" and "wf_tenant_id w = tid"
    and "tid \<in> set (map tn_id (db_tenants (sv_db sv)))" and "\<And>eid. bk eid = Some e"
    and "ee_uuid E (sv_tick sv) \<notin> ex_id ` set (db_executions (sv_db sv))"
  shows "\<exists>ex sv'. execute_workflow byp E bk (wf_id w) inputs tid sv = (Inl e, sv') \<and>
    ex \<in> set (db_executions (sv_db sv')) \<and> ex_status ex = PENDING \<and> ex_tenant_id ex = tid \<and>
    sv_queue sv' = sv_queue sv \<and> (\<forall>c now thr. ex_id ex \<notin> set (get_stale_executions c now thr (sv_db sv')))"
proof -
  let ?ex = "new_execution (ee_uuid E (sv_tick sv)) tid w inputs"
  let ?sv = "sv\<lparr>sv_tick := Suc (sv_tick sv),
    sv_db := (sv_db sv)\<lparr>db_executions := db_executions (sv_db sv) @ [?ex]\<rparr>\<rparr>"
  have "execute_workflow byp E bk (wf_id w) inputs tid sv = (Inl e, ?sv)"
    using assms(3,5) by (subst execute_workflow_visible [OF assms(1,2) _ assms(4)]) (simp_all add: Let_def)
  moreover have "ex_id ?ex \<notin> set (get_stale_executions c now thr (sv_db ?sv))" for c now thr
    using assms(6) by (auto simp: get_stale_executions_def Let_def select_rows_def new_execution_def image_iff)
  ultimately show ?thesis
    by (intro exI [of _ ?ex] exI [of _ ?sv]) (simp add: new_execution_def)
qed

lemma failed_enqueue_strands_witness:
  "\<exists>ex sv'. execute_workflow True sample_env (\<lambda>_. Some (LibraryError ''broker'')) 9 [] 8 sample_tenants =
      (Inl (LibraryError ''broker''), sv') \<and> ex \<in> set (db_executions (sv_db sv')) \<and> ex_status ex = PENDING"
  using failed_enqueue_strands [of sample_tenants sample_workflow 8 "\<lambda>_. Some (LibraryError ''broker'')"
      "LibraryError ''broker''" sample_env True "[]"]
  by (auto simp: sample_env_def sample_row_def)

text \<open>
  A stream client receives, and the service acknowledges, every message in order up to and
  including the first completed, paused or failed event, however the messages are batched; without
  such an event the generator never returns.
\<close>

lemma sse_stream_is_complete:
  "sse_generator dumps batches =
     (map (sse_frame dumps \<circ> snd) (until_terminal (concat batches)), map fst (until_terminal (concat batches)),
      \<exists>m \<in> set (concat batches). terminal_message m)"
proof (induction batches)
  case Nil
  then show ?case by (simp add: until_terminal_def)
next
  case (Cons batch batches)
  then show ?case
    by (cases "\<exists>m \<in> set batch. terminal_message m")
      (auto simp: sse_entries_spec until_terminal_append until_terminal_none)
qed

end
