(* ===== verification/Workflow_System.thy ===== *)
theory Workflow_System
  imports Workflow_Api
begin

text \<open>
  The workflow service as a whole: a transition system whose steps are the requests of any tenant,
  the workers that take tasks, the recovery pass and the passing of time, and the invariant of its
  database: primary keys are unique, foreign keys refer to rows that exist, checkpoints belong to a
  step of their execution's workflow.
\<close>

section \<open>Well-formed databases\<close>

text \<open>A checkpoint of the execution \<open>ex\<close>: \<open>ex\<close> has such a step if it has its own definition.\<close>

definition ckpt_typed :: "exec_row \<Rightarrow> ckpt_row \<Rightarrow> bool" where
  "ckpt_typed ex c \<longleftrightarrow> ck_execution_id c = ex_id ex \<and> ck_tenant_id c = ex_tenant_id ex \<and>
     (case ex_definition_snapshot ex of None \<Rightarrow> True | Some d \<Rightarrow> ck_step_index c < length (wd_steps d))"

definition exec_typed :: "wf_db \<Rightarrow> exec_row \<Rightarrow> bool" where
  "exec_typed db ex \<longleftrightarrow> ex_tenant_id ex \<in> tn_id ` set (db_tenants db) \<and>
     ex_workflow_id ex \<in> wf_id ` set (db_workflows db)"

definition wf_db_typed :: "wf_db \<Rightarrow> bool" where
  "wf_db_typed db \<longleftrightarrow> wf_db_ok db \<and>
     (\<forall>w \<in> set (db_workflows db). wf_tenant_id w \<in> tn_id ` set (db_tenants db)) \<and>
     (\<forall>ex \<in> set (db_executions db). exec_typed db ex) \<and>
     (\<forall>c \<in> set (db_checkpoints db). \<exists>ex \<in> set (db_executions db). ckpt_typed ex c)"

text \<open>Every execution is of a workflow of its own tenant.\<close>

definition own_workflows :: "wf_db \<Rightarrow> bool" where
  "own_workflows db \<longleftrightarrow> (\<forall>ex \<in> set (db_executions db). \<forall>w \<in> set (db_workflows db).
     wf_id w = ex_workflow_id ex \<longrightarrow> wf_tenant_id w = ex_tenant_id ex)"

text \<open>
  The ids that \<open>uuid4\<close> will have drawn before tick \<open>N\<close> are not yet in the database. That it does not
  repeat itself can hold for a bounded time only, since there are finitely many UUIDs.
\<close>

definition ids_of_db :: "wf_db \<Rightarrow> uuid set" where
  "ids_of_db db = wf_id ` set (db_workflows db) \<union> ex_id ` set (db_executions db) \<union> ck_id ` set (db_checkpoints db)"

definition supply_fresh :: "nat \<Rightarrow> (nat \<Rightarrow> uuid) \<Rightarrow> nat \<Rightarrow> wf_db \<Rightarrow> bool" where
  "supply_fresh N U t db \<longleftrightarrow> (\<forall>n. t \<le> n \<and> n < N \<longrightarrow> U n \<notin> ids_of_db db)"

lemma supply_fresh_mono: "supply_fresh N U t db \<Longrightarrow> t \<le> t' \<Longrightarrow> supply_fresh N U t' db"
  by (simp add: supply_fresh_def)

section \<open>The world of a run\<close>

text \<open>
  \<open>new_ckpts\<close>: the checkpoints a run has written since tick \<open>t0\<close> are of the execution \<open>ex\<close>, of steps
  below \<open>n\<close>, with ids drawn since.
\<close>

definition new_ckpts :: "nat \<Rightarrow> (nat \<Rightarrow> uuid) \<Rightarrow> exec_row \<Rightarrow> nat \<Rightarrow> nat \<Rightarrow> nat \<Rightarrow> ckpt_row list \<Rightarrow> bool" where
  "new_ckpts N U ex n t0 t cs \<longleftrightarrow> (t \<le> N \<longrightarrow> distinct (map ck_id cs)) \<and> ck_id ` set cs \<subseteq> U ` {t0..<t} \<and>
     (\<forall>c \<in> set cs. ck_execution_id c = ex_id ex \<and> ck_tenant_id c = ex_tenant_id ex \<and> ck_step_index c < n)"

lemma new_ckpts_mono: "new_ckpts N U ex n t0 t cs \<Longrightarrow> t \<le> t' \<Longrightarrow> new_ckpts N U ex n t0 t' cs"
  by (fastforce simp: new_ckpts_def)

lemma new_ckpts_Suc: "new_ckpts N U ex n t0 t cs \<Longrightarrow> new_ckpts N U ex n t0 (Suc t) cs"
  by (erule new_ckpts_mono) simp

lemma new_ckpts_prefix: "new_ckpts N U ex n t0 t (xs @ ys) \<Longrightarrow> new_ckpts N U ex n t0 t xs"
  by (auto simp: new_ckpts_def)

lemma new_ckpts_snoc:
  assumes "inj_on U {..<N}" and "new_ckpts N U ex n t0 t cs" and "t0 \<le> t" and "t < t'" and "ck_id c = U t"
    and "ck_execution_id c = ex_id ex" and "ck_tenant_id c = ex_tenant_id ex" and "ck_step_index c < n"
  shows "new_ckpts N U ex n t0 t' (cs @ [c])"
proof -
  have "U t \<notin> U ` {t0..<t}" if "t' \<le> N" using assms(1,4) that by (auto dest: inj_onD)
  with assms(2) have "t' \<le> N \<Longrightarrow> U t \<notin> ck_id ` set cs" by (auto simp: new_ckpts_def)
  with assms show ?thesis by (fastforce simp: new_ckpts_def)
qed

definition run_inv ::
  "nat \<Rightarrow> (nat \<Rightarrow> uuid) \<Rightarrow> exec_row \<Rightarrow> nat \<Rightarrow> nat \<Rightarrow> ckpt_row list \<Rightarrow> 'r exec_world \<Rightarrow> bool" where
  "run_inv N U ex n t0 cs w \<longleftrightarrow> t0 \<le> xw_tick w \<and>
     same_identity (xw_disk w) ex \<and> same_identity (xw_row w) ex \<and> same_identity (xw_loaded w) ex \<and>
     same_identity (seen_row w) ex \<and>
     (\<exists>new. xw_disk_ckpts w = cs @ new \<and> new_ckpts N U ex n t0 (xw_tick w) (new @ xw_new_ckpts w))"

text \<open>Other sessions are the API's: they never write the columns that identify a row.\<close>

definition others_keep :: "exec_env \<Rightarrow> bool" where
  "others_keep E \<longleftrightarrow> (\<forall>t r. same_identity (ee_others E t r) r)"

lemma same_identity_trans: "same_identity a b \<Longrightarrow> same_identity b c \<Longrightarrow> same_identity a c"
  by (simp add: same_identity_def)

lemma others_keepD: "others_keep E \<Longrightarrow> same_identity r ex \<Longrightarrow> same_identity (ee_others E t r) ex"
  unfolding others_keep_def using same_identity_trans by blast

lemma merge_identity [simp]: "same_identity (merge_columns row loaded base) ex = same_identity base ex"
  by (simp add: merge_columns_def same_identity_def)

lemma seen_row_fields [simp]:
  "seen_row (w\<lparr>xw_tick := t\<rparr>) = seen_row w" "seen_row (w\<lparr>xw_sent := l\<rparr>) = seen_row w"
  "seen_row (w\<lparr>xw_ctx := c\<rparr>) = seen_row w" "seen_row (w\<lparr>xw_cost := k\<rparr>) = seen_row w"
  "seen_row (w\<lparr>xw_locks := r\<rparr>) = seen_row w" "seen_row (w\<lparr>xw_step_name := s\<rparr>) = seen_row w"
  "seen_row (w\<lparr>xw_row := x\<rparr>) = seen_row w" "seen_row (w\<lparr>xw_new_ckpts := cs\<rparr>) = seen_row w"
  by (simp_all add: seen_row_def split: option.splits)

lemma run_inv_frame:
  "run_inv N U ex n t0 cs w \<Longrightarrow> xw_tick w \<le> t \<Longrightarrow> run_inv N U ex n t0 cs (w\<lparr>xw_tick := t, xw_sent := l\<rparr>)"
  "run_inv N U ex n t0 cs w \<Longrightarrow> xw_tick w \<le> t \<Longrightarrow> run_inv N U ex n t0 cs (w\<lparr>xw_tick := t\<rparr>)"
  "run_inv N U ex n t0 cs w \<Longrightarrow> xw_tick w \<le> t \<Longrightarrow> run_inv N U ex n t0 cs (w\<lparr>xw_sent := l, xw_tick := t\<rparr>)"
  by (auto simp: run_inv_def intro: new_ckpts_mono)

lemma run_inv_fields [simp]:
  "run_inv N U ex n t0 cs (w\<lparr>xw_ctx := c\<rparr>) = run_inv N U ex n t0 cs w"
  "run_inv N U ex n t0 cs (w\<lparr>xw_cost := k\<rparr>) = run_inv N U ex n t0 cs w"
  "run_inv N U ex n t0 cs (w\<lparr>xw_locks := r\<rparr>) = run_inv N U ex n t0 cs w"
  "run_inv N U ex n t0 cs (w\<lparr>xw_step_name := s\<rparr>) = run_inv N U ex n t0 cs w"
  by (simp_all add: run_inv_def)

lemma run_inv_row: "run_inv N U ex n t0 cs w \<Longrightarrow> same_identity r (xw_row w) \<Longrightarrow> run_inv N U ex n t0 cs (w\<lparr>xw_row := r\<rparr>)"
  by (auto simp: run_inv_def intro: same_identity_trans)

lemma run_inv_flush: "others_keep E \<Longrightarrow> run_inv N U ex n t0 cs w \<Longrightarrow> run_inv N U ex n t0 cs (flush_row E w)"
  by (auto simp: run_inv_def flush_row_def seen_row_def Let_def others_keepD intro: new_ckpts_Suc split: option.splits)

lemma run_inv_refresh: "others_keep E \<Longrightarrow> run_inv N U ex n t0 cs w \<Longrightarrow> run_inv N U ex n t0 cs (refresh_row E w)"
  by (auto simp: run_inv_def refresh_row_def seen_row_def Let_def others_keepD intro: new_ckpts_Suc split: option.splits)

lemma run_inv_commit:
  assumes "others_keep E" and "run_inv N U ex n t0 cs w"
  shows "run_inv N U ex n t0 cs (commit_tx E w)"
  using run_inv_flush [OF assms] by (auto simp: run_inv_def commit_tx_def seen_row_def Let_def split: option.splits)

lemma run_inv_rollback: "run_inv N U ex n t0 cs w \<Longrightarrow> run_inv N U ex n t0 cs (rollback_tx w)"
  by (auto simp: run_inv_def rollback_tx_def seen_row_def intro: new_ckpts_prefix)

section \<open>A run keeps the invariant\<close>

lemma run_inv_tick: "run_inv N U ex n t0 cs w \<Longrightarrow> run_inv N U ex n t0 cs (w\<lparr>xw_tick := Suc (xw_tick w)\<rparr>)"
  by (rule run_inv_frame) simp_all

lemma publish_inv:
  assumes "run_inv N U ex n t0 cs w"
  shows "wp (publish E body) (\<lambda>_. run_inv N U ex n t0 cs) (\<lambda>_. run_inv N U ex n t0 cs) w"
  using assms unfolding wp_publish_eq Let_def by (auto intro: run_inv_frame split: option.split)

lemma status_identity:
  "same_identity (r\<lparr>ex_status := st, ex_last_heartbeat := h, ex_error_message := m, ex_pause_reason := p\<rparr>) r"
  by (simp add: same_identity_def)

lemma update_status_inv:
  assumes "others_keep E" and "run_inv N U ex n t0 cs w"
  shows "wp (update_status E st err reason) (\<lambda>_. run_inv N U ex n t0 cs) (\<lambda>_. run_inv N U ex n t0 cs) w"
  unfolding wp_update_status
  by (intro run_inv_flush assms(1)) (use run_inv_row [OF run_inv_tick [OF assms(2)]] status_identity in fastforce)

lemma checkpoint_inv:
  assumes "inj_on U {..<N}" and "ee_uuid E = U" and "others_keep E" and "i < n" and "run_inv N U ex n t0 cs w"
  shows "wp (checkpoint_before_step E i cfg) (\<lambda>_. run_inv N U ex n t0 cs) (\<lambda>_. run_inv N U ex n t0 cs) w"
proof -
  let ?w = "flush_row E (w\<lparr>xw_tick := Suc (xw_tick w)\<rparr>)"
  have inv: "run_inv N U ex n t0 cs ?w" by (rule run_inv_flush [OF assms(3) run_inv_tick [OF assms(5)]])
  have le: "xw_tick w < xw_tick ?w"
    by (simp add: flush_row_def Let_def split: option.split)
  have id: "same_identity (xw_row w) ex" using assms(5) by (simp add: run_inv_def)
  have "run_inv N U ex n t0 cs (?w\<lparr>xw_new_ckpts := xw_new_ckpts ?w @ [c]\<rparr>)"
    if "ck_id c = U (xw_tick w)" "ck_execution_id c = ex_id (xw_row w)" "ck_tenant_id c = ex_tenant_id (xw_row w)"
      "ck_step_index c = i" for c
  proof -
    obtain new where new: "xw_disk_ckpts w = cs @ new" "new_ckpts N U ex n t0 (xw_tick w) (new @ xw_new_ckpts w)"
      and t0: "t0 \<le> xw_tick w" using assms(5) by (auto simp: run_inv_def)
    from new_ckpts_snoc [OF assms(1) new(2) t0 le] that id assms(4)
    have "new_ckpts N U ex n t0 (xw_tick ?w) ((new @ xw_new_ckpts w) @ [c])" by (simp add: same_identity_def)
    with inv new(1) show ?thesis by (auto simp: run_inv_def)
  qed
  with inv show ?thesis
    using assms(2,3,5) by (auto simp: checkpoint_before_step_def Let_def intro!: run_inv_commit)
qed

lemma context_identity: "same_identity (r\<lparr>ex_context := c\<rparr>) r"
  by (simp add: same_identity_def)

lemma run_inv_context:
  "run_inv N U ex n t0 cs w \<Longrightarrow> run_inv N U ex n t0 cs (w\<lparr>xw_row := (xw_row w)\<lparr>ex_context := c\<rparr>\<rparr>)"
  by (rule run_inv_row [OF _ context_identity])

lemma step_work_inv:
  assumes "others_keep E" and "run_inv N U ex n t0 cs w"
  shows "wp (step_work E i name) (\<lambda>_. run_inv N U ex n t0 cs) (\<lambda>_. run_inv N U ex n t0 cs) w"
  using assms
  by (auto simp: step_work_def Let_def split: sum.split
      intro!: wp_mono [OF publish_inv] run_inv_flush run_inv_row run_inv_frame(2) context_identity)

lemma run_step_inv:
  assumes "inj_on U {..<N}" and "ee_uuid E = U" and "others_keep E" and "i < n" and "run_inv N U ex n t0 cs w"
  shows "wp (run_step E (i, step)) (\<lambda>_. run_inv N U ex n t0 cs) (\<lambda>_. run_inv N U ex n t0 cs) w"
  using run_inv_refresh [OF assms(3,5)]
  by (auto simp: run_step_def Let_def
      intro!: wp_mono [OF checkpoint_inv [OF assms(1-4)]] wp_mono [OF step_work_inv [OF assms(3)]])

lemma step_loop_inv:
  assumes "inj_on U {..<N}" and "ee_uuid E = U" and "others_keep E" and "fst ` set xs \<subseteq> {..<n}" and "run_inv N U ex n t0 cs w"
  shows "wp (step_loop E xs) (\<lambda>_. run_inv N U ex n t0 cs) (\<lambda>_. run_inv N U ex n t0 cs) w"
  using assms(4,5)
proof (induction xs arbitrary: w)
  case Nil
  then show ?case by simp
next
  case (Cons x xs)
  obtain i st where x: "x = (i, st)" by fastforce
  have "i < n" using Cons.prems(1) by (simp add: x)
  show ?case unfolding step_loop.simps x
    by (rule wp_bind [OF run_step_inv [OF assms(1-3) \<open>i < n\<close> Cons.prems(2)]])
      (use Cons.prems(1) in \<open>auto intro: Cons.IH\<close>)
qed

lemma pause_run_inv:
  assumes "others_keep E" and "run_inv N U ex n t0 cs w"
  shows "wp (pause_run E tr err rs er) (\<lambda>_. run_inv N U ex n t0 cs) (\<lambda>_. run_inv N U ex n t0 cs) w"
  using assms
  by (auto simp: pause_run_def split: sum.split
      intro!: wp_mono [OF update_status_inv [OF assms]] wp_mono [OF publish_inv] run_inv_commit)

lemma loop_exception_inv:
  assumes "others_keep E" and "run_inv N U ex n t0 cs w"
  shows "wp (loop_exception E e) (\<lambda>_. run_inv N U ex n t0 cs) (\<lambda>_. run_inv N U ex n t0 cs) w"
  using pause_run_inv [OF assms] by (simp add: loop_exception_def split: exn.split)

lemma finish_run_inv:
  assumes "others_keep E" and "run_inv N U ex n t0 cs w"
  shows "wp (finish_run E t k) (\<lambda>_. run_inv N U ex n t0 cs) (\<lambda>_. run_inv N U ex n t0 cs) w"
  using assms
  by (auto simp: finish_run_def split: sum.split
      intro!: wp_mono [OF update_status_inv [OF assms(1)]] wp_mono [OF publish_inv] run_inv_commit run_inv_tick)

lemma start_run_inv:
  assumes "others_keep E" and "run_inv N U ex n t0 cs w"
  shows "wp (start_run E) (\<lambda>_. run_inv N U ex n t0 cs) (\<lambda>_. run_inv N U ex n t0 cs) w"
  using assms
  by (auto simp: start_run_def split: sum.split
      intro!: wp_mono [OF update_status_inv [OF assms(1)]] wp_mono [OF publish_inv] run_inv_commit run_inv_tick)

lemma load_run_tick [simp]: "xw_tick (snd (load_run E w)) = xw_tick w"
  by (simp add: load_run_def Let_def split: prod.split)

lemma load_run_inv: "run_inv N U ex n t0 cs w \<Longrightarrow> run_inv N U ex n t0 cs (snd (load_run E w))"
  by (simp add: run_inv_def)

lemma run_locked_inv:
  assumes "inj_on U {..<N}" and "ee_uuid E = U" and "others_keep E" and "run_inv N U ex (length (wd_steps wd)) t0 cs w"
  shows "wp (run_locked E wd) (\<lambda>_. run_inv N U ex (length (wd_steps wd)) t0 cs)
    (\<lambda>_. run_inv N U ex (length (wd_steps wd)) t0 cs) w"
proof (rule wp_run_locked)
  show "wp (start_run E) (\<lambda>_. run_inv N U ex (length (wd_steps wd)) t0 cs)
      (\<lambda>_. run_inv N U ex (length (wd_steps wd)) t0 cs) (snd (load_run E w))"
    by (rule start_run_inv [OF assms(3) load_run_inv [OF assms(4)]])
next
  fix w' assume inv: "run_inv N U ex (length (wd_steps wd)) t0 cs w'"
  have "fst ` set (steps_to_run wd w) \<subseteq> {..<length (wd_steps wd)}"
    by (auto simp: steps_to_run_def in_set_enumerate_eq dest!: in_set_dropD)
  then show "wp (step_loop E (steps_to_run wd w)) (\<lambda>_. run_inv N U ex (length (wd_steps wd)) t0 cs)
      (\<lambda>_. run_inv N U ex (length (wd_steps wd)) t0 cs) (w'\<lparr>xw_step_name := ''unknown''\<rparr>)"
    by (rule step_loop_inv [OF assms(1-3)]) (simp add: inv)
qed (auto intro: loop_exception_inv [OF assms(3)] finish_run_inv [OF assms(3)])

lemma run_keeps_inv:
  assumes "inj_on U {..<N}" and "ee_uuid E = U" and "others_keep E" and "run_inv N U ex (length (wd_steps wd)) t0 cs w"
  shows "wp (run R E wd) (\<lambda>_. run_inv N U ex (length (wd_steps wd)) t0 cs)
    (\<lambda>_. run_inv N U ex (length (wd_steps wd)) t0 cs) w"
  using assms(4)
  by (auto simp: run_def wp_with_lock split: prod.split sum.split exn.split
      intro!: wp_mono [OF run_locked_inv [OF assms(1-3)]] run_inv_tick)

section \<open>What the operations do to a well-formed database\<close>

text \<open>Replacing a row by one of the same identity.\<close>

lemma put_execution_tables [simp]:
  "db_tenants (put_execution ex db) = db_tenants db" "db_workflows (put_execution ex db) = db_workflows db"
  "db_checkpoints (put_execution ex db) = db_checkpoints db"
  by (simp_all add: put_execution_def)

lemma ckpt_typed_identity: "same_identity a b \<Longrightarrow> ckpt_typed a c = ckpt_typed b c"
  by (simp add: same_identity_def ckpt_typed_def)

lemma set_put_execution:
  "set (db_executions (put_execution ex db)) =
     (\<lambda>r. if ex_id r = ex_id ex then ex else r) ` set (db_executions db)"
  by (simp add: put_execution_def set_update_rows)

lemma same_row:
  assumes "wf_db_ok db" and "a \<in> set (db_executions db)" and "b \<in> set (db_executions db)" and "ex_id a = ex_id b"
  shows "a = b"
  using assms by (auto simp: wf_db_ok_def distinct_map dest: inj_onD)

lemma put_keeps_rows:
  assumes "wf_db_ok db" and "ex \<in> set (db_executions db)" and "same_identity ex' ex"
  shows "\<forall>r \<in> set (db_executions (put_execution ex' db)). \<exists>r0 \<in> set (db_executions db). same_identity r r0"
    and "\<forall>r0 \<in> set (db_executions db). \<exists>r \<in> set (db_executions (put_execution ex' db)). same_identity r r0"
proof -
  have same: "same_identity (if ex_id r = ex_id ex' then ex' else r) r" if "r \<in> set (db_executions db)" for r
    using same_row [OF assms(1) that assms(2)] assms(3) by (auto simp: same_identity_def)
  then show "\<forall>r \<in> set (db_executions (put_execution ex' db)). \<exists>r0 \<in> set (db_executions db). same_identity r r0"
    and "\<forall>r0 \<in> set (db_executions db). \<exists>r \<in> set (db_executions (put_execution ex' db)). same_identity r r0"
    unfolding set_put_execution by blast+
qed

lemma put_execution_typed:
  assumes "wf_db_typed db" and "ex \<in> set (db_executions db)" and "same_identity ex' ex"
  shows "wf_db_typed (put_execution ex' db)"
proof -
  have ok: "wf_db_ok db" using assms(1) by (simp add: wf_db_typed_def)
  note rows = put_keeps_rows [OF ok assms(2,3)]
  have "exec_typed (put_execution ex' db) r" if "r \<in> set (db_executions (put_execution ex' db))" for r
    using rows(1) that assms(1) by (fastforce simp: wf_db_typed_def exec_typed_def same_identity_def)
  moreover have "\<exists>r \<in> set (db_executions (put_execution ex' db)). ckpt_typed r c" if "c \<in> set (db_checkpoints db)" for c
    using rows(2) that assms(1) ckpt_typed_identity unfolding wf_db_typed_def by metis
  ultimately show ?thesis
    using assms(1) put_execution_ok [OF ok] by (simp add: wf_db_typed_def)
qed

lemma put_own_workflows:
  assumes "wf_db_ok db" and "own_workflows db" and "ex \<in> set (db_executions db)" and "same_identity ex' ex"
  shows "own_workflows (put_execution ex' db)"
  using put_keeps_rows(1) [OF assms(1,3,4)] assms(2) by (fastforce simp: own_workflows_def same_identity_def)

lemma put_execution_db_ids:
  assumes "ex \<in> set (db_executions db)" and "same_identity ex' ex"
  shows "ids_of_db (put_execution ex' db) = ids_of_db db"
proof -
  have "ex_id ` set (db_executions (put_execution ex' db)) = ex_id ` set (db_executions db)"
    by (metis list.set_map put_execution_ids)
  then show ?thesis by (simp add: ids_of_db_def)
qed

text \<open>Appending the checkpoints of a run.\<close>

lemma add_checkpoints_typed:
  assumes "wf_db_typed db" and "ex \<in> set (db_executions db)" and "supply_fresh N U t0 db"
    and "new_ckpts N U ex n t0 t new" and "t \<le> N"
    and "case ex_definition_snapshot ex of None \<Rightarrow> True | Some d \<Rightarrow> n = length (wd_steps d)"
  shows "wf_db_typed (db\<lparr>db_checkpoints := db_checkpoints db @ new\<rparr>)"
proof -
  have "i \<notin> ids_of_db db" if "i \<in> ck_id ` set new" for i
    using assms(3-5) that unfolding new_ckpts_def supply_fresh_def by fastforce
  then have "ck_id ` set new \<inter> ck_id ` set (db_checkpoints db) = {}" by (auto simp: ids_of_db_def)
  moreover have "\<forall>c \<in> set new. ckpt_typed ex c"
    using assms(4,6) by (auto simp: new_ckpts_def ckpt_typed_def split: option.splits)
  ultimately show ?thesis
    using assms(1,2,4,5) by (auto simp: wf_db_typed_def wf_db_ok_def exec_typed_def new_ckpts_def)
qed

section \<open>The system\<close>

text \<open>
  One step: a request, a worker that runs an execution (after any delivery of its task, repeated
  ones included), a recovery pass, or time passing at the lock server. Every environment draws its
  UUIDs from \<open>U\<close>; \<open>byp\<close> says whether the role of the API bypasses row-level security.
\<close>

inductive sys_step ::
  "(nat \<Rightarrow> uuid) \<Rightarrow> bool \<Rightarrow> 'r redis_ops \<Rightarrow> 'r service \<Rightarrow> 'r service \<Rightarrow> bool"
  for U :: "nat \<Rightarrow> uuid" and byp :: bool and R :: "'r redis_ops" where
  status: "sys_step U byp R sv (snd (api_step byp bk op eid tid sv))"
| create: "ee_uuid E = U \<Longrightarrow> sys_step U byp R sv (snd (create_workflow byp E name descr defn tid sv))"
| execute: "ee_uuid E = U \<Longrightarrow> sys_step U byp R sv (snd (execute_workflow byp E bk wid inputs tid sv))"
| work: "ee_uuid E = U \<Longrightarrow> others_keep E \<Longrightarrow> sys_step U byp R sv (snd (execute_run R E c eid sv))"
| recover: "ee_uuid E = U \<Longrightarrow> sys_step U byp R sv (snd (recover_run R E bk c now thr sv))"
| elapse: "sys_step U byp R sv (sv\<lparr>sv_locks := r_elapse R d (sv_locks sv)\<rparr>)"

definition sys_ok :: "nat \<Rightarrow> (nat \<Rightarrow> uuid) \<Rightarrow> bool \<Rightarrow> 'r service \<Rightarrow> bool" where
  "sys_ok N U byp sv \<longleftrightarrow> wf_db_typed (sv_db sv) \<and> supply_fresh N U (sv_tick sv) (sv_db sv) \<and>
     (byp \<or> own_workflows (sv_db sv))"

lemma sys_ok_same_db: "sys_ok N U byp sv \<Longrightarrow> sv_db sv' = sv_db sv \<Longrightarrow> sv_tick sv \<le> sv_tick sv' \<Longrightarrow> sys_ok N U byp sv'"
  by (auto simp: sys_ok_def intro: supply_fresh_mono)

lemma sys_ok_put:
  assumes "sys_ok N U byp sv" and "ex \<in> set (db_executions (sv_db sv))" and "same_identity ex' ex"
    and "sv_db sv' = put_execution ex' (sv_db sv)" and "sv_tick sv \<le> sv_tick sv'"
  shows "sys_ok N U byp sv'"
proof -
  have ok: "wf_db_ok (sv_db sv)" using assms(1) by (simp add: sys_ok_def wf_db_typed_def)
  show ?thesis
    using assms(1,4) put_execution_typed [OF _ assms(2,3)] put_own_workflows [OF ok _ assms(2,3)]
      put_execution_db_ids [OF assms(2,3)] supply_fresh_mono [OF _ assms(5)]
    by (auto simp: sys_ok_def supply_fresh_def)
qed

lemma op_row_identity: "same_identity (op_row op ex st) ex"
  by (cases op) (simp_all add: same_identity_def)

lemma find_execution_keeps:
  assumes "\<And>ex. Q ex q" and "\<And>e. X e q"
  shows "wp (find_execution eid tid) Q X q"
  using assms by (simp add: find_execution_def split: sum.split option.split)

lemma api_step_tick:
  "wp (api_step byp bk op eid tid) (\<lambda>_ sv'. sv_tick sv' = sv_tick sv) (\<lambda>_ sv'. sv_tick sv' = sv_tick sv) sv"
  by (cases op) (auto simp: pause_execution_def resume_execution_def cancel_execution_def wp_with_db_session Let_def
      intro!: find_execution_keeps wp_api_transition split: option.split)

lemma status_step:
  assumes "sys_ok N U byp sv"
  shows "sys_ok N U byp (snd (api_step byp bk op eid tid sv))"
proof -
  let ?sv' = "snd (api_step byp bk op eid tid sv)"
  have ok: "wf_db_ok (sv_db sv)" using assms by (simp add: sys_ok_def wf_db_typed_def)
  have tick: "sv_tick ?sv' = sv_tick sv" using api_step_tick unfolding wp_state by blast
  have "wp (api_step byp bk op eid tid)
      (\<lambda>_ sv'. sv_db sv' = sv_db sv \<or> changes_by_op op eid tid (sv_db sv) (sv_db sv'))
      (\<lambda>_ sv'. sv_db sv' = sv_db sv \<or> changes_by_op op eid tid (sv_db sv) (sv_db sv')) sv"
    by (rule wp_mono [OF api_step_effect [OF ok]]) auto
  then have "sv_db ?sv' = sv_db sv \<or> changes_by_op op eid tid (sv_db sv) (sv_db ?sv')" by (simp only: wp_state)
  then consider "sv_db ?sv' = sv_db sv"
    | ex st where "ex \<in> set (db_executions (sv_db sv))" "sv_db ?sv' = put_execution (op_row op ex st) (sv_db sv)"
    unfolding changes_by_op_def by blast
  then show ?thesis
  proof cases
    case 1
    with tick show ?thesis by (intro sys_ok_same_db [OF assms]) simp_all
  next
    case 2
    with tick show ?thesis by (intro sys_ok_put [OF assms _ op_row_identity]) simp_all
  qed
qed

lemma recover_tick:
  "wp (recover_all R E bk eids) (\<lambda>_ sv'. sv_db sv' = sv_db sv \<and> sv_tick sv \<le> sv_tick sv')
     (\<lambda>_ sv'. sv_db sv' = sv_db sv \<and> sv_tick sv \<le> sv_tick sv') sv"
proof (induction eids arbitrary: sv)
  case (Cons e es)
  have "wp (try_recover R E bk e) (\<lambda>_ sv'. sv_db sv' = sv_db sv \<and> sv_tick sv \<le> sv_tick sv')
     (\<lambda>_ sv'. sv_db sv' = sv_db sv \<and> sv_tick sv \<le> sv_tick sv') sv"
    by (auto simp: try_recover_def wp_with_lock split: prod.split sum.split exn.split option.split)
  then show ?case by (auto intro: wp_mono [OF Cons.IH] elim!: wp_mono)
qed simp

lemma recover_run_tick:
  "sv_db (snd (recover_run R E bk c now thr sv)) = sv_db sv \<and> sv_tick sv \<le> sv_tick (snd (recover_run R E bk c now thr sv))"
proof -
  have "wp (recover_run R E bk c now thr) (\<lambda>_ sv'. sv_db sv' = sv_db sv \<and> sv_tick sv \<le> sv_tick sv')
      (\<lambda>_ sv'. sv_db sv' = sv_db sv \<and> sv_tick sv \<le> sv_tick sv') sv"
    by (simp add: recover_run_def run_once_def recover_tick)
  then show ?thesis by (simp only: wp_state)
qed

lemma recover_step: "sys_ok N U byp sv \<Longrightarrow> sys_ok N U byp (snd (recover_run R E bk c now thr sv))"
  using recover_run_tick sys_ok_same_db by blast

text \<open>A new workflow or execution with a fresh id.\<close>

lemma add_workflow_ok:
  assumes "inj_on U {..<N}" and "sys_ok N U byp sv" and "wf_id w = U (sv_tick sv)"
    and "wf_tenant_id w \<in> tn_id ` set (db_tenants (sv_db sv))"
    and "sv_db sv' = (sv_db sv)\<lparr>db_workflows := db_workflows (sv_db sv) @ [w]\<rparr>" and "sv_tick sv' = Suc (sv_tick sv)" and N: "sv_tick sv < N"
  shows "sys_ok N U byp sv'"
proof -
  have fresh: "U (sv_tick sv) \<notin> ids_of_db (sv_db sv)" using assms(2) N by (simp add: sys_ok_def supply_fresh_def)
  have "U n \<noteq> U (sv_tick sv)" if "Suc (sv_tick sv) \<le> n" "n < N" for n using that assms(1) by (auto dest: inj_onD)
  then have "supply_fresh N U (Suc (sv_tick sv)) (sv_db sv')"
    using assms(2,3,5) by (auto simp: sys_ok_def supply_fresh_def ids_of_db_def)
  moreover have "wf_db_typed (sv_db sv')"
    using assms(2-5) fresh by (auto simp: sys_ok_def wf_db_typed_def wf_db_ok_def exec_typed_def ids_of_db_def)
  moreover have "own_workflows (sv_db sv) \<Longrightarrow> own_workflows (sv_db sv')"
    using assms(2,3,5) fresh by (fastforce simp: sys_ok_def wf_db_typed_def exec_typed_def own_workflows_def ids_of_db_def)
  ultimately show ?thesis using assms(2,6) by (auto simp: sys_ok_def)
qed

lemma add_execution_ok:
  assumes "inj_on U {..<N}" and "sys_ok N U byp sv" and "w \<in> set (db_workflows (sv_db sv))" and "byp \<or> wf_tenant_id w = tid"
    and "tid \<in> tn_id ` set (db_tenants (sv_db sv))"
    and "ex_id ex = U (sv_tick sv)" and "ex_tenant_id ex = tid" and "ex_workflow_id ex = wf_id w"
    and "sv_db sv' = (sv_db sv)\<lparr>db_executions := db_executions (sv_db sv) @ [ex]\<rparr>" and "sv_tick sv' = Suc (sv_tick sv)" and N: "sv_tick sv < N"
  shows "sys_ok N U byp sv'"
proof -
  have fresh: "U (sv_tick sv) \<notin> ids_of_db (sv_db sv)" using assms(2) N by (simp add: sys_ok_def supply_fresh_def)
  have "U n \<noteq> U (sv_tick sv)" if "Suc (sv_tick sv) \<le> n" "n < N" for n using that assms(1) by (auto dest: inj_onD)
  then have "supply_fresh N U (Suc (sv_tick sv)) (sv_db sv')"
    using assms(2,6,9) by (auto simp: sys_ok_def supply_fresh_def ids_of_db_def)
  moreover have "wf_db_typed (sv_db sv')"
    using assms(2,3,5-9) fresh by (fastforce simp: sys_ok_def wf_db_typed_def wf_db_ok_def exec_typed_def ids_of_db_def)
  moreover have "own_workflows (sv_db sv')" if "own_workflows (sv_db sv)" "wf_tenant_id w = tid"
  proof -
    have "v = w" if "v \<in> set (db_workflows (sv_db sv))" "wf_id v = wf_id w" for v
      using assms(2,3) that by (auto simp: sys_ok_def wf_db_typed_def wf_db_ok_def distinct_map dest: inj_onD)
    with that assms(7-9) show ?thesis by (auto simp: own_workflows_def)
  qed
  ultimately show ?thesis using assms(2,4,10) by (auto simp: sys_ok_def)
qed

lemma insert_allowed_tenant: "insert_allowed c db tid = Inr a \<Longrightarrow> tid \<in> tn_id ` set (db_tenants db)"
  by (auto simp: insert_allowed_def split: if_splits)

definition until :: "nat \<Rightarrow> (nat \<Rightarrow> uuid) \<Rightarrow> bool \<Rightarrow> 'r service \<Rightarrow> 'r service \<Rightarrow> bool" where
  "until N U byp sv sv' \<longleftrightarrow> sv_tick sv \<le> sv_tick sv' \<and> (sv_tick sv' \<le> N \<longrightarrow> sys_ok N U byp sv')"

lemma untilI: "sv_tick sv \<le> sv_tick sv' \<Longrightarrow> (sv_tick sv' \<le> N \<Longrightarrow> sys_ok N U byp sv') \<Longrightarrow> until N U byp sv sv'"
  by (simp add: until_def)

lemma create_step:
  assumes "inj_on (ee_uuid E) {..<N}" and "sys_ok N (ee_uuid E) byp sv"
  shows "until N (ee_uuid E) byp sv (snd (create_workflow byp E name descr defn tid sv))"
proof -
  have drawn: "until N (ee_uuid E) byp sv (sv\<lparr>sv_tick := Suc (sv_tick sv)\<rparr>)"
    by (rule untilI, simp, rule sys_ok_same_db [OF assms(2)]) simp_all
  have added: "until N (ee_uuid E) byp sv (sv\<lparr>sv_tick := Suc (sv_tick sv),
      sv_db := sv_db sv\<lparr>db_workflows := db_workflows (sv_db sv) @ [w]\<rparr>\<rparr>)"
    if "wf_id w = ee_uuid E (sv_tick sv)" "wf_tenant_id w \<in> tn_id ` set (db_tenants (sv_db sv))" for w
    by (rule untilI, simp, rule add_workflow_ok [OF assms that]) simp_all
  have "wp (create_workflow byp E name descr defn tid) (\<lambda>_. until N (ee_uuid E) byp sv) (\<lambda>_. until N (ee_uuid E) byp sv) sv"
    by (auto simp: create_workflow_def wp_with_db_session Let_def drawn
        intro!: added dest: insert_allowed_tenant split: sum.split)
  then show ?thesis by (simp only: wp_state)
qed

lemma execute_step:
  assumes "inj_on (ee_uuid E) {..<N}" and "sys_ok N (ee_uuid E) byp sv"
  shows "until N (ee_uuid E) byp sv (snd (execute_workflow byp E bk wid inputs tid sv))"
proof -
  have drawn: "until N (ee_uuid E) byp sv (sv\<lparr>sv_tick := Suc (sv_tick sv)\<rparr>)"
    by (rule untilI, simp, rule sys_ok_same_db [OF assms(2)]) simp_all
  have found: "w \<in> set (db_workflows (sv_db sv)) \<and> wf_id w = wid \<and> (byp \<or> wf_tenant_id w = tid)"
    if "scalar_one_or_none (select_rows (tenant_ctx byp tid) wf_tenant_id (\<lambda>r. wf_id r = wid)
      (db_workflows (sv_db sv))) = Inr (Some w)" for w
  proof -
    from scalar_one_or_none_Some [OF that]
    have "w \<in> set (select_rows (tenant_ctx byp tid) wf_tenant_id (\<lambda>r. wf_id r = wid) (db_workflows (sv_db sv)))"
      by simp
    then show ?thesis by (auto simp: select_rows_def)
  qed
  have same: "until N (ee_uuid E) byp sv sv" using assms(2) by (simp add: until_def)
  have added: "until N (ee_uuid E) byp sv (sv\<lparr>sv_tick := Suc (sv_tick sv), sv_queue := q,
        sv_db := sv_db sv\<lparr>db_executions := db_executions (sv_db sv) @ [ex]\<rparr>\<rparr>) \<and>
      until N (ee_uuid E) byp sv (sv\<lparr>sv_tick := Suc (sv_tick sv),
        sv_db := sv_db sv\<lparr>db_executions := db_executions (sv_db sv) @ [ex]\<rparr>\<rparr>)"
    if "insert_allowed (tenant_ctx byp tid) (sv_db sv) tid = Inr ()"
      and "scalar_one_or_none (select_rows (tenant_ctx byp tid) wf_tenant_id (\<lambda>r. wf_id r = wid)
        (db_workflows (sv_db sv))) = Inr (Some w)"
      and "ex_id ex = ee_uuid E (sv_tick sv)" "ex_tenant_id ex = tid" "ex_workflow_id ex = wid" for w ex q
    using found [OF that(2)] insert_allowed_tenant [OF that(1)] that(3-5)
    by (intro conjI untilI; simp?) (rule add_execution_ok [OF assms, of w tid ex]; simp)+
  have "wp (execute_workflow byp E bk wid inputs tid) (\<lambda>_. until N (ee_uuid E) byp sv) (\<lambda>_. until N (ee_uuid E) byp sv) sv"
    by (auto simp: execute_workflow_def wp_with_db_session Let_def drawn same added
        split: sum.split option.split)
  then show ?thesis by (simp only: wp_state)
qed

text \<open>What a session leaves behind when its world satisfies the invariant.\<close>

lemma service_of_ok:
  assumes "inj_on U {..<N}" and "sys_ok N U byp sv" and "ex \<in> set (db_executions (sv_db sv))"
    and "run_inv N U ex n (sv_tick sv) (db_checkpoints (sv_db sv)) w" and "xw_new_ckpts w = []"
    and "case ex_definition_snapshot ex of None \<Rightarrow> True | Some d \<Rightarrow> n = length (wd_steps d)"
  shows "until N U byp sv (service_of w sv)"
proof -
  let ?db = "put_execution (xw_disk w) (sv_db sv)"
  obtain new where disk: "xw_disk_ckpts w = db_checkpoints (sv_db sv) @ new"
    and new: "new_ckpts N U ex n (sv_tick sv) (xw_tick w) new"
    and tick: "sv_tick sv \<le> xw_tick w" and same: "same_identity (xw_disk w) ex"
    using assms(4,5) by (auto simp: run_inv_def)
  have db: "sv_db (service_of w sv) = ?db\<lparr>db_checkpoints := db_checkpoints ?db @ new\<rparr>"
    "sv_tick (service_of w sv) = xw_tick w" by (simp_all add: service_of_def disk)
  show ?thesis
  proof (rule untilI)
  show "sv_tick sv \<le> sv_tick (service_of w sv)" by (simp add: db tick)
  assume "sv_tick (service_of w sv) \<le> N"
  then have N: "xw_tick w \<le> N" by (simp add: db)
  have ok: "wf_db_ok (sv_db sv)" using assms(2) by (simp add: sys_ok_def wf_db_typed_def)
  have fresh: "supply_fresh N U (sv_tick sv) ?db"
    using assms(2) put_execution_db_ids [OF assms(3) same] by (simp add: sys_ok_def supply_fresh_def)
  have mem: "xw_disk w \<in> set (db_executions ?db)"
    using assms(3) same by (force simp: set_put_execution same_identity_def)
  have new': "new_ckpts N U (xw_disk w) n (sv_tick sv) (xw_tick w) new"
    using new same by (simp add: new_ckpts_def same_identity_def)
  have "wf_db_typed ?db" using assms(2) same by (intro put_execution_typed [OF _ assms(3)]) (simp_all add: sys_ok_def)
  from add_checkpoints_typed [OF this mem fresh new' N] assms(6) same
  have "wf_db_typed (sv_db (service_of w sv))" by (simp add: db same_identity_def split: option.splits)
  moreover have "supply_fresh N U (xw_tick w) (sv_db (service_of w sv))"
  proof -
    have "U m \<notin> ck_id ` set new" if "xw_tick w \<le> m" "m < N" for m
    proof
      assume "U m \<in> ck_id ` set new"
      with new obtain k where "U m = U k" "k < xw_tick w" by (auto simp: new_ckpts_def)
      with assms(1) that show False by (auto dest: inj_onD)
    qed
    moreover have "ids_of_db (sv_db (service_of w sv)) = ids_of_db ?db \<union> ck_id ` set new"
      by (auto simp: db ids_of_db_def)
    ultimately show ?thesis using fresh tick by (simp add: supply_fresh_def)
  qed
  moreover have "own_workflows (sv_db (service_of w sv))" if "own_workflows (sv_db sv)"
    using put_own_workflows [OF ok that assms(3) same] by (simp add: db own_workflows_def)
  ultimately show "sys_ok N U byp (service_of w sv)" using assms(2) by (auto simp: sys_ok_def db)
  qed
qed

lemma session_inv:
  assumes "inj_on (ee_uuid E) {..<N}" and "others_keep E"
  shows "\<exists>w. snd (in_session E ex (run R E d) sv) = service_of w sv \<and> xw_new_ckpts w = [] \<and>
    run_inv N (ee_uuid E) ex (length (wd_steps d)) (sv_tick sv) (db_checkpoints (sv_db sv)) w"
proof -
  let ?inv = "run_inv N (ee_uuid E) ex (length (wd_steps d)) (sv_tick sv) (db_checkpoints (sv_db sv))"
  have "?inv (world_of ex sv)" by (simp add: run_inv_def world_of_def seen_row_def new_ckpts_def)
  from run_keeps_inv [OF assms(1) refl assms(2) this, of R]
  have "?inv (snd (run R E d (world_of ex sv)))" by (simp only: wp_state)
  then obtain res w where run: "run R E d (world_of ex sv) = (res, w)" and w: "?inv w" by (metis prod.collapse)
  from run_inv_commit [OF assms(2) w] run_inv_rollback [OF w] show ?thesis
    by (cases res) (auto simp: in_session_def run rollback_tx_def intro: exI [where x = "commit_tx E w"])
qed

lemma session_step:
  assumes "inj_on (ee_uuid E) {..<N}" and "others_keep E" and "sys_ok N (ee_uuid E) byp sv"
    and "ex \<in> set (db_executions (sv_db sv))"
    and "case ex_definition_snapshot ex of None \<Rightarrow> True | Some d' \<Rightarrow> d' = d"
  shows "until N (ee_uuid E) byp sv (snd (in_session E ex (run R E d) sv))"
proof -
  have "case ex_definition_snapshot ex of None \<Rightarrow> True | Some d' \<Rightarrow> length (wd_steps d) = length (wd_steps d')"
    using assms(5) by (auto split: option.splits)
  then show ?thesis
    using session_inv [OF assms(1,2), of ex R d sv] service_of_ok [OF assms(1,3,4)] by metis
qed

lemma session_tick:
  assumes "others_keep E"
  shows "sv_tick sv \<le> sv_tick (snd (in_session E ex (run R E d) sv))"
  using session_inv [OF _ assms, of 0 ex R d sv] by (auto simp: run_inv_def service_of_def)

lemma work_step:
  assumes "inj_on (ee_uuid E) {..<N}" and "others_keep E" and "sys_ok N (ee_uuid E) byp sv"
  shows "until N (ee_uuid E) byp sv (snd (execute_run R E c eid sv))"
proof -
  have found: "ex \<in> set (db_executions (sv_db sv))"
    if "scalar_one_or_none (select_rows c ex_tenant_id (\<lambda>r. ex_id r = eid) (db_executions (sv_db sv))) = Inr (Some ex)" for ex
    using select_rows_subset [of c ex_tenant_id "\<lambda>r. ex_id r = eid" "db_executions (sv_db sv)"]
      scalar_one_or_none_Some [OF that] by simp
  have "until N (ee_uuid E) byp sv (snd (in_session E ex (run R E d) sv))"
    if "scalar_one_or_none (select_rows c ex_tenant_id (\<lambda>r. ex_id r = eid) (db_executions (sv_db sv))) = Inr (Some ex)"
      "case ex_definition_snapshot ex of None \<Rightarrow> True | Some d' \<Rightarrow> d' = d" for ex d
    by (rule session_step [OF assms found [OF that(1)] that(2)])
  moreover have "until N (ee_uuid E) byp sv sv" using assms(3) by (simp add: until_def)
  ultimately show ?thesis
    by (auto simp: execute_run_def andthen_def split: sum.split option.split)
qed

lemma sys_step_tick:
  assumes "sys_step U byp R sv sv'"
  shows "sv_tick sv \<le> sv_tick sv'"
  using assms
proof cases
  case (status bk op eid tid)
  then show ?thesis using api_step_tick [of byp bk op eid tid sv] by (simp add: wp_state)
next
  case (create E name descr defn tid)
  have "wp (create_workflow byp E name descr defn tid) (\<lambda>_ sv'. sv_tick sv \<le> sv_tick sv')
      (\<lambda>_ sv'. sv_tick sv \<le> sv_tick sv') sv"
    by (simp add: create_workflow_def wp_with_db_session Let_def split: sum.split)
  then show ?thesis by (simp add: wp_state create)
next
  case (execute E bk wid inputs tid)
  have "wp (execute_workflow byp E bk wid inputs tid) (\<lambda>_ sv'. sv_tick sv \<le> sv_tick sv')
      (\<lambda>_ sv'. sv_tick sv \<le> sv_tick sv') sv"
    by (simp add: execute_workflow_def wp_with_db_session Let_def split: sum.split option.split)
  then show ?thesis by (simp add: wp_state execute)
next
  case (work E c eid)
  then show ?thesis
    by (auto simp: execute_run_def andthen_def session_tick split: sum.split option.split)
next
  case (recover E bk c now thr)
  then show ?thesis using recover_run_tick [of R E bk c now thr sv] by simp
qed simp

lemma sys_ok_until: "sys_ok N U byp sv' \<Longrightarrow> sv_tick sv \<le> sv_tick sv' \<Longrightarrow> until N U byp sv sv'"
  by (simp add: until_def)

lemma sys_step_ok:
  assumes "sys_step U byp R sv sv'" and "inj_on U {..<N}" and "sys_ok N U byp sv"
  shows "until N U byp sv sv'"
  using assms(1)
proof cases
  case (status bk op eid tid)
  then show ?thesis using status_step [OF assms(3)] sys_step_tick [OF assms(1)] by (intro sys_ok_until) simp_all
next
  case (recover E bk c now thr)
  then show ?thesis using recover_step [OF assms(3)] sys_step_tick [OF assms(1)] by (intro sys_ok_until) simp_all
next
  case (work E c eid)
  then show ?thesis using work_step [of E N byp sv R c eid] assms(2,3) by simp
next
  case (elapse d)
  then show ?thesis by (intro sys_ok_until sys_ok_same_db [OF assms(3)]) simp_all
qed (use assms(2,3) create_step execute_step in blast)+

lemma sys_steps_ok:
  assumes "(sys_step U byp R)\<^sup>*\<^sup>* sv sv'" and "inj_on U {..<N}" and "sys_ok N U byp sv"
  shows "until N U byp sv sv'"
  using assms(1)
proof induction
  case base
  then show ?case using assms(3) by (simp add: until_def)
next
  case (step sv1 sv2)
  show ?case
  proof (cases "sv_tick sv1 \<le> N")
    case True
    with step sys_step_ok [OF step(2) assms(2)] show ?thesis by (auto simp: until_def)
  next
    case False
    then show ?thesis using step.IH sys_step_tick [OF step(2)] by (auto simp: until_def)
  qed
qed

section \<open>Properties\<close>

text \<open>Every run starts at a step of its definition or right behind the last one.\<close>

definition resumes_in_range :: "wf_db \<Rightarrow> bool" where
  "resumes_in_range db \<longleftrightarrow> list_all (\<lambda>ex. case ex_definition_snapshot ex of
       None \<Rightarrow> True
     | Some d \<Rightarrow> fst (resume_point (ex_id ex) (db_checkpoints db)) \<le> length (wd_steps d)) (db_executions db)"

lemma typed_resumes:
  assumes "wf_db_typed db"
  shows "resumes_in_range db"
proof -
  have "fst (resume_point (ex_id ex) (db_checkpoints db)) \<le> length (wd_steps d)"
    if ex: "ex \<in> set (db_executions db)" "ex_definition_snapshot ex = Some d" for ex d
  proof (cases "get_latest (ex_id ex) (db_checkpoints db)")
    case (Some cp)
    have "cp \<in> set (db_checkpoints db)" "ck_execution_id cp = ex_id ex"
      using get_latest_max [OF Some] by simp_all
    then obtain ex' where ex': "ex' \<in> set (db_executions db)" "ckpt_typed ex' cp" "ex_id ex' = ex_id ex"
      using assms by (auto simp: wf_db_typed_def ckpt_typed_def)
    with same_row [OF _ ex'(1) ex(1)] assms have "ex' = ex" by (simp add: wf_db_typed_def)
    with ex' ex(2) Some show ?thesis by (simp add: resume_point_def ckpt_typed_def)
  qed (simp add: resume_point_def)
  then show ?thesis by (auto simp: resumes_in_range_def list_all_iff split: option.split)
qed

text \<open>
  C3: Whatever requests, deliveries of tasks, recovery passes and passing of time, in any order and
  with any failures, the database of the workflow service stays well-formed: primary keys are
  unique, foreign keys refer to existing rows, a checkpoint is of its execution's tenant and of a
  step that the execution's definition has, and a run never resumes behind the end of its
  definition. If the role of the API does not bypass row-level security, every execution is of a
  workflow of its own tenant.
\<close>

lemma database_stays_well_formed:
  assumes "(sys_step U byp R)\<^sup>*\<^sup>* sv sv'" and "inj_on U {..<N}" and "sv_tick sv' \<le> N"
    and "wf_db_typed (sv_db sv)" and "supply_fresh N U (sv_tick sv) (sv_db sv)"
    and "byp \<or> own_workflows (sv_db sv)"
  shows "wf_db_typed (sv_db sv') \<and> resumes_in_range (sv_db sv') \<and> (byp \<or> own_workflows (sv_db sv'))"
  using sys_steps_ok [OF assms(1,2)] assms(3-6) typed_resumes by (auto simp: until_def sys_ok_def)

definition sample_start :: "keyspace service" where
  "sample_start = sample_tenants\<lparr>sv_tick := 100, sv_db := (sv_db sample_tenants)\<lparr>db_executions := []\<rparr>\<rparr>"

definition sample_end :: "keyspace service" where
  "sample_end = snd (api_step False (\<lambda>_. None) Cancel 100 8
     (snd (execute_workflow False sample_env (\<lambda>_. None) 9 [] 8 sample_start)))"

lemma sample_start_ok:
  "wf_db_typed (sv_db sample_start)" "supply_fresh 1000 word_of_nat 100 (sv_db sample_start)"
  "own_workflows (sv_db sample_start)" "sv_tick sample_start = 100"
proof -
  have "word_of_nat n \<noteq> (9 :: uuid)" if "100 \<le> n" "n < 1000" for n
  proof
    assume "word_of_nat n = (9 :: uuid)"
    then have "unat (word_of_nat n :: uuid) = 9" by simp
    with that show False by (simp add: unat_of_nat)
  qed
  then show "supply_fresh 1000 word_of_nat 100 (sv_db sample_start)"
    by (auto simp: supply_fresh_def ids_of_db_def sample_start_def sample_tenants_def sample_workflow_def)
qed (simp_all add: sample_start_def sample_tenants_def sample_workflow_def wf_db_typed_def wf_db_ok_def own_workflows_def)

lemma database_stays_well_formed_witness:
  "wf_db_typed (sv_db sample_end) \<and> resumes_in_range (sv_db sample_end) \<and> own_workflows (sv_db sample_end)"
proof -
  have uuid: "ee_uuid sample_env = word_of_nat" by (simp add: sample_env_def)
  let ?sv1 = "snd (execute_workflow False sample_env (\<lambda>_. None) 9 [] 8 sample_start)"
  have "sys_step word_of_nat False mem_redis sample_start ?sv1" by (rule sys_step.execute [OF uuid])
  moreover have "sys_step word_of_nat False mem_redis ?sv1 sample_end"
    unfolding sample_end_def by (rule sys_step.status)
  ultimately have steps: "(sys_step word_of_nat False mem_redis)\<^sup>*\<^sup>* sample_start sample_end"
    by (meson converse_rtranclp_into_rtranclp rtranclp.rtrancl_refl)
  have inj: "inj_on (word_of_nat :: nat \<Rightarrow> uuid) {..<1000}"
  proof (rule inj_onI)
    fix x y :: nat assume "x \<in> {..<1000}" "y \<in> {..<1000}" "(word_of_nat x :: uuid) = word_of_nat y"
    then have "unat (word_of_nat x :: uuid) = unat (word_of_nat y :: uuid)" by simp
    with \<open>x \<in> _\<close> \<open>y \<in> _\<close> show "x = y" by (simp add: unat_of_nat)
  qed
  have "sv_tick sample_end = sv_tick ?sv1"
    using api_step_tick [of False "\<lambda>_. None" Cancel 100 8 ?sv1] by (simp add: wp_state sample_end_def)
  also have "sv_tick ?sv1 = 101"
    by (simp add: execute_workflow_def with_db_session_def seq_def andthen_def tenant_session_def select_rows_def
        on_service_def new_uuid_def insert_allowed_def session_commit_def celery_delay_def Let_def sample_start_def
        sample_tenants_def sample_workflow_def)
  finally have tick: "sv_tick sample_end \<le> 1000" by simp
  show ?thesis
    using database_stays_well_formed [OF steps inj tick] sample_start_ok by simp
qed

end
