(* ===== verification/Json_Body.thy ===== *)
theory Json_Body
  imports Prelude Py_Text
begin

text \<open>
  Reading JSON into the fields of a pydantic model, in its lax mode, for the request bodies and the
  stored documents of the services. \<open>None\<close> is a ValidationError, which a route answers with 422. A text
  where a number is expected is read by the argument \<open>num\<close>.
\<close>

definition unprocessable :: exn where
  "unprocessable = HTTPException 422 ''Unprocessable Entity''"

section \<open>Readers\<close>

type_synonym 'a reader = "json \<Rightarrow> 'a option"

fun read_str :: "string reader" where
  "read_str (JStr s) = Some s"
| "read_str _ = None"

fun read_dict :: "variables reader" where
  "read_dict (JObj d) = Some d"
| "read_dict _ = None"

fun read_list :: "'a reader \<Rightarrow> 'a list reader" where
  "read_list read (JList js) = those (map read js)"
| "read_list read _ = None"

fun read_optional :: "'a reader \<Rightarrow> 'a option reader" where
  "read_optional read j = (if j = JNull then Some None else map_option Some (read j))"

text \<open>An int field also takes a boolean, a float without fraction and the text of an integer.\<close>

fun read_int :: "(string \<Rightarrow> int option) \<Rightarrow> int reader" where
  "read_int num (JInt i) = Some i"
| "read_int num (JBool b) = Some (if b then 1 else 0)"
| "read_int num (JFloat r) = (if of_int \<lfloor>r\<rfloor> = r then Some \<lfloor>r\<rfloor> else None)"
| "read_int num (JStr s) = num s"
| "read_int num _ = None"

text \<open>A bool field also takes 0, 1 and the usual words.\<close>

definition TRUE_WORDS :: "string list" where
  "TRUE_WORDS = [''1'', ''on'', ''t'', ''true'', ''y'', ''yes'']"

definition FALSE_WORDS :: "string list" where
  "FALSE_WORDS = [''0'', ''off'', ''f'', ''false'', ''n'', ''no'']"

fun read_bool :: "bool reader" where
  "read_bool (JBool b) = Some b"
| "read_bool (JInt i) = (if i = 0 then Some False else if i = 1 then Some True else None)"
| "read_bool (JFloat r) = (if r = 0 then Some False else if r = 1 then Some True else None)"
| "read_bool (JStr s) =
     (if lower s \<in> set TRUE_WORDS then Some True else if lower s \<in> set FALSE_WORDS then Some False else None)"
| "read_bool _ = None"

text \<open>A field: without it the default, and an error where there is none.\<close>

definition field :: "'a reader \<Rightarrow> 'a option \<Rightarrow> string \<Rightarrow> variables \<Rightarrow> 'a option" where
  "field read dflt k d = (case map_of d k of None \<Rightarrow> dflt | Some j \<Rightarrow> read j)"

lemma field_simps [simp]:
  "map_of d k = Some j \<Longrightarrow> field read dflt k d = read j" "map_of d k = None \<Longrightarrow> field read dflt k d = dflt"
  by (simp_all add: field_def)

lemma those_map: "(\<And>x. x \<in> set xs \<Longrightarrow> f (g x) = Some x) \<Longrightarrow> those (map f (map g xs)) = Some xs"
  by (induction xs) simp_all

section \<open>Routes with a caller and a body\<close>

definition valid_body :: "'b option \<Rightarrow> exn + 'b" where
  "valid_body b = (case b of None \<Rightarrow> Inl unprocessable | Some b' \<Rightarrow> Inr b')"

text \<open>The dependency that names the tenant raises before the body is validated; then the handler runs.\<close>

definition admitted :: "exn + uuid \<Rightarrow> 'b option \<Rightarrow> (uuid \<Rightarrow> 'b \<Rightarrow> ('s, 'a) py) \<Rightarrow> ('s, 'a) py" where
  "admitted caller body handler =
     andthen (liftsum caller) (\<lambda>tid. andthen (liftsum (valid_body body)) (\<lambda>b. handler tid b))"

lemma admitted_apply:
  "admitted caller body handler s =
     (case caller of
        Inl e \<Rightarrow> (Inl e, s)
      | Inr tid \<Rightarrow> (case body of None \<Rightarrow> (Inl unprocessable, s) | Some b \<Rightarrow> handler tid b s))"
  by (simp add: admitted_def valid_body_def andthen_def split: sum.split option.split)

lemma admitted_Inr:
  "admitted caller body handler s = (Inr a, s') \<longleftrightarrow>
     (\<exists>tid b. caller = Inr tid \<and> body = Some b \<and> handler tid b s = (Inr a, s'))"
  by (auto simp: admitted_apply split: sum.splits option.splits)

lemma andthen_ret_Inr: "andthen m (\<lambda>a. ret (f a)) s = (Inr b, s') \<longleftrightarrow> (\<exists>a. m s = (Inr a, s') \<and> b = f a)"
  by (cases "m s") (auto simp: andthen_def split: sum.split)

end
