(* ===== verification/Workflow_Schemas.thy ===== *)
theory Workflow_Schemas
  imports Json_Body Workflow_Api
begin

text \<open>
  The surface of the workflow service: \<open>schemas/workflows.py\<close>, the JSON form of a workflow definition
  (\<open>models/workflow.py\<close>) as it is stored in the database and validated again by the worker, and the
  routes from the JSON body to the JSON of the response.
\<close>

section \<open>Workflow definitions as JSON\<close>

fun backoff_value :: "retry_backoff \<Rightarrow> string" where
  "backoff_value Exponential = ''exponential''"
| "backoff_value Linear = ''linear''"
| "backoff_value Fixed = ''fixed''"

fun read_backoff :: "retry_backoff reader" where
  "read_backoff (JStr s) = map_of (map (\<lambda>b. (backoff_value b, b)) [Exponential, Linear, Fixed]) s"
| "read_backoff _ = None"

definition read_step_config :: "(string \<Rightarrow> int option) \<Rightarrow> step_config reader" where
  "read_step_config num j =
     Option.bind (read_dict j) (\<lambda>d.
     Option.bind (field read_str None ''name'' d) (\<lambda>name.
     Option.bind (field read_bool (Some False) ''checkpoint_before'' d) (\<lambda>before.
     Option.bind (field (read_int num) (Some 3) ''max_retries'' d) (\<lambda>retries.
     Option.bind (field (read_int num) (Some 300) ''timeout_seconds'' d) (\<lambda>timeout.
     Option.bind (field read_backoff (Some Exponential) ''retry_backoff'' d) (\<lambda>backoff.
       Some \<lparr>sc_name = name, sc_checkpoint_before = before, sc_max_retries = retries,
             sc_timeout_seconds = timeout, sc_retry_backoff = backoff\<rparr>))))))"

definition read_workflow_step :: "(string \<Rightarrow> int option) \<Rightarrow> workflow_step reader" where
  "read_workflow_step num j =
     Option.bind (read_dict j) (\<lambda>d.
     Option.bind (field (read_step_config num) None ''config'' d) (\<lambda>config.
     Option.bind (field read_dict (Some []) ''input_schema'' d) (\<lambda>inputs.
     Option.bind (field read_dict (Some []) ''output_schema'' d) (\<lambda>outputs.
       Some \<lparr>ws_config = config, ws_input_schema = inputs, ws_output_schema = outputs\<rparr>))))"

text \<open>\<open>WorkflowDefinition.model_validate\<close> and \<open>model_dump\<close>.\<close>

definition read_workflow_definition :: "(string \<Rightarrow> int option) \<Rightarrow> workflow_definition reader" where
  "read_workflow_definition num j =
     Option.bind (read_dict j) (\<lambda>d.
     Option.bind (field (read_list (read_workflow_step num)) None ''steps'' d) (\<lambda>steps.
     Option.bind (field (read_int num) (Some 1) ''version'' d) (\<lambda>version.
       Some \<lparr>wd_steps = steps, wd_version = version\<rparr>)))"

definition step_config_json :: "step_config \<Rightarrow> json" where
  "step_config_json c = JObj
     [(''name'', JStr (sc_name c)), (''checkpoint_before'', JBool (sc_checkpoint_before c)),
      (''max_retries'', JInt (sc_max_retries c)), (''timeout_seconds'', JInt (sc_timeout_seconds c)),
      (''retry_backoff'', JStr (backoff_value (sc_retry_backoff c)))]"

definition workflow_step_json :: "workflow_step \<Rightarrow> json" where
  "workflow_step_json s = JObj
     [(''config'', step_config_json (ws_config s)), (''input_schema'', JObj (ws_input_schema s)),
      (''output_schema'', JObj (ws_output_schema s))]"

definition workflow_definition_json :: "workflow_definition \<Rightarrow> json" where
  "workflow_definition_json w = JObj
     [(''steps'', JList (map workflow_step_json (wd_steps w))), (''version'', JInt (wd_version w))]"

lemma read_backoff_value [simp]: "read_backoff (JStr (backoff_value b)) = Some b"
  by (cases b) simp_all

lemma read_step_config_json [simp]: "read_step_config num (step_config_json c) = Some c"
  by (cases "sc_retry_backoff c") (simp_all add: read_step_config_def step_config_json_def)

lemma read_workflow_step_json [simp]: "read_workflow_step num (workflow_step_json s) = Some s"
  by (simp add: read_workflow_step_def workflow_step_json_def)

lemma read_workflow_definition_json: "read_workflow_definition num (workflow_definition_json w) = Some w"
  by (simp add: read_workflow_definition_def workflow_definition_json_def those_map del: map_map)

section \<open>Request bodies\<close>

record create_workflow_request =
  cw_name :: string
  cw_description :: string
  cw_definition :: workflow_definition

definition parse_create_workflow :: "(string \<Rightarrow> int option) \<Rightarrow> create_workflow_request reader" where
  "parse_create_workflow num body =
     Option.bind (read_dict body) (\<lambda>d.
     Option.bind (field read_str None ''name'' d) (\<lambda>name.
     Option.bind (field read_str (Some []) ''description'' d) (\<lambda>description.
     Option.bind (field (read_workflow_definition num) None ''definition'' d) (\<lambda>defn.
       Some \<lparr>cw_name = name, cw_description = description, cw_definition = defn\<rparr>))))"

definition parse_execute_workflow :: "variables reader" where
  "parse_execute_workflow body = Option.bind (read_dict body) (\<lambda>d. field read_dict (Some []) ''inputs'' d)"

section \<open>Responses\<close>

definition workflow_response :: "workflow_row \<Rightarrow> json" where
  "workflow_response w = JObj
     [(''id'', JStr (uuid_str (wf_id w))), (''tenant_id'', JStr (uuid_str (wf_tenant_id w))),
      (''name'', JStr (wf_name w)), (''description'', JStr (wf_description w)), (''version'', JInt (wf_version w))]"

definition json_option :: "string option \<Rightarrow> json" where
  "json_option s = (case s of None \<Rightarrow> JNull | Some t \<Rightarrow> JStr t)"

definition execution_response :: "exec_row \<Rightarrow> json" where
  "execution_response x = JObj
     [(''id'', JStr (uuid_str (ex_id x))), (''tenant_id'', JStr (uuid_str (ex_tenant_id x))),
      (''workflow_id'', JStr (uuid_str (ex_workflow_id x))), (''status'', JStr (status_value (ex_status x))),
      (''error_message'', json_option (ex_error_message x)), (''pause_reason'', json_option (ex_pause_reason x))]"

section \<open>The routes\<close>

definition post_workflow ::
  "bool \<Rightarrow> exec_env \<Rightarrow> (string \<Rightarrow> int option) \<Rightarrow> exn + uuid \<Rightarrow> json \<Rightarrow> ('r service, json) py" where
  "post_workflow byp E num caller body =
     admitted caller (parse_create_workflow num body) (\<lambda>tid b.
       andthen (create_workflow byp E (cw_name b) (cw_description b) (cw_definition b) tid)
         (\<lambda>w. ret (workflow_response w)))"

definition get_workflow_json :: "bool \<Rightarrow> exn + uuid \<Rightarrow> uuid \<Rightarrow> ('r service, json) py" where
  "get_workflow_json byp caller wid =
     admitted caller (Some ()) (\<lambda>tid _. andthen (get_workflow byp wid tid) (\<lambda>w. ret (workflow_response w)))"

definition post_execute ::
  "bool \<Rightarrow> exec_env \<Rightarrow> (uuid \<Rightarrow> exn option) \<Rightarrow> exn + uuid \<Rightarrow> uuid \<Rightarrow> json \<Rightarrow> ('r service, json) py" where
  "post_execute byp E bk caller wid body =
     admitted caller (parse_execute_workflow body) (\<lambda>tid inputs.
       andthen (execute_workflow byp E bk wid inputs tid) (\<lambda>x. ret (execution_response x)))"

definition get_execution_json :: "bool \<Rightarrow> exn + uuid \<Rightarrow> uuid \<Rightarrow> ('r service, json) py" where
  "get_execution_json byp caller eid =
     admitted caller (Some ()) (\<lambda>tid _. andthen (get_execution byp eid tid) (\<lambda>x. ret (execution_response x)))"

section \<open>A created workflow\<close>

lemma create_workflow_effect:
  "wp (create_workflow byp E name description defn tid)
     (\<lambda>w sv'. w = \<lparr>wf_id = ee_uuid E (sv_tick sv), wf_tenant_id = tid, wf_name = name, wf_description = description,
          wf_definition = defn, wf_version = 1\<rparr> \<and>
        sv_db sv' = (sv_db sv)\<lparr>db_workflows := db_workflows (sv_db sv) @ [w]\<rparr>)
     (\<lambda>_ _. True) sv"
  by (simp add: create_workflow_def wp_with_db_session Let_def split: sum.split)

lemma get_workflow_row:
  "get_workflow byp wid tid sv =
     (case filter (\<lambda>r. wf_id r = wid \<and> wf_tenant_id r = tid) (db_workflows (sv_db sv)) of
        [] \<Rightarrow> (Inl (HTTPException 404 ''Workflow not found''), sv)
      | [w] \<Rightarrow> (Inr w, sv)
      | _ \<Rightarrow> (Inl (LibraryError ''MultipleResultsFound''), sv))"
proof -
  have rows: "select_rows (set_tenant_context tid c) wf_tenant_id (\<lambda>r. wf_id r = wid \<and> wf_tenant_id r = tid) rs =
      filter (\<lambda>r. wf_id r = wid \<and> wf_tenant_id r = tid) rs" for c and rs :: "workflow_row list"
    by (auto simp: select_rows_def tenant_isolation_def set_tenant_context_def intro: filter_cong)
  show ?thesis
    by (simp add: get_workflow_def with_db_session_def tenant_session_def seq_def andthen_def rows split: list.split)
qed

section \<open>Properties\<close>

text \<open>
  C24: A workflow created through the API is stored with the definition of the request's body, defaults
  filled in; dumped to the JSON column and validated again, as the worker does, it is that definition.
  Its tenant reads the JSON it was answered, under the answered id; every other tenant gets a 404.
\<close>

lemma created_workflow_is_read_back:
  assumes "post_workflow byp E num (tenant_id_from_header expected token tid) body sv = (Inr j, sv1)"
    and "ee_uuid E (sv_tick sv) \<notin> wf_id ` set (db_workflows (sv_db sv))" and "tid' \<noteq> tid"
  shows "\<exists>b w. parse_create_workflow num body = Some b \<and>
    db_workflows (sv_db sv1) = db_workflows (sv_db sv) @ [w] \<and> wf_tenant_id w = tid \<and> wf_definition w = cw_definition b \<and>
    read_workflow_definition num (workflow_definition_json (wf_definition w)) = Some (cw_definition b) \<and>
    get_workflow_json byp (tenant_id_from_header expected token tid) (wf_id w) sv1 = (Inr j, sv1) \<and>
    fst (get_workflow_json byp (tenant_id_from_header expected token tid') (wf_id w) sv1) =
      Inl (HTTPException 404 ''Workflow not found'')"
proof -
  obtain b t w where b: "parse_create_workflow num body = Some b" "tenant_id_from_header expected token tid = Inr t"
      and post: "create_workflow byp E (cw_name b) (cw_description b) (cw_definition b) t sv = (Inr w, sv1)"
      and j: "j = workflow_response w"
    using assms(1) by (auto simp: post_workflow_def admitted_Inr andthen_ret_Inr)
  have t: "t = tid" "tenant_id_from_header expected token t' = Inr t'" for t'
    using b(2) by (auto simp: tenant_id_from_header_def split: sum.splits exn.splits)
  have w: "w = \<lparr>wf_id = ee_uuid E (sv_tick sv), wf_tenant_id = tid, wf_name = cw_name b,
        wf_description = cw_description b, wf_definition = cw_definition b, wf_version = 1\<rparr>"
      "db_workflows (sv_db sv1) = db_workflows (sv_db sv) @ [w]"
    using wp_result [OF create_workflow_effect post] t(1) by simp_all
  have "wf_id r \<noteq> wf_id w" if "r \<in> set (db_workflows (sv_db sv))" for r
    using assms(2) that by (auto simp: w(1) image_iff)
  then have "filter (\<lambda>r. wf_id r = wf_id w \<and> wf_tenant_id r = t') (db_workflows (sv_db sv1)) = (if t' = tid then [w] else [])" for t'
    using w by (auto simp: filter_empty_conv)
  then have "get_workflow byp (wf_id w) tid sv1 = (Inr w, sv1)"
      "get_workflow byp (wf_id w) tid' sv1 = (Inl (HTTPException 404 ''Workflow not found''), sv1)"
    using assms(3) by (simp_all add: get_workflow_row)
  then show ?thesis
    using b(1) t(2) w(2) read_workflow_definition_json [of num "cw_definition b"]
    by (intro exI [of _ b] exI [of _ w]) (simp add: j get_workflow_json_def admitted_apply andthen_def w(1))
qed

definition sample_workflow_body :: json where
  "sample_workflow_body = JObj [(''name'', JStr ''w''),
     (''definition'', JObj [(''steps'', JList [JObj [(''config'', JObj [(''name'', JStr ''a'')])]])])]"

lemma created_workflow_is_read_back_witness:
  "\<exists>j sv1 w.
    post_workflow True sample_env (\<lambda>_. None) (tenant_id_from_header ''k'' ''k'' 7) sample_workflow_body sample_tenants =
      (Inr j, sv1) \<and> w \<in> set (db_workflows (sv_db sv1)) \<and>
    wf_definition w = \<lparr>wd_steps = [\<lparr>ws_config = step_config_default ''a'', ws_input_schema = [], ws_output_schema = []\<rparr>],
      wd_version = 1\<rparr> \<and>
    get_workflow_json True (tenant_id_from_header ''k'' ''k'' 7) (wf_id w) sv1 = (Inr j, sv1)"
proof -
  let ?b = "\<lparr>cw_name = ''w'', cw_description = [], cw_definition = \<lparr>wd_steps = [\<lparr>ws_config = step_config_default ''a'',
    ws_input_schema = [], ws_output_schema = []\<rparr>], wd_version = 1\<rparr>\<rparr>"
  have parsed: "parse_create_workflow (\<lambda>_. None) sample_workflow_body = Some ?b"
    by (simp add: parse_create_workflow_def sample_workflow_body_def read_workflow_definition_def read_workflow_step_def
        read_step_config_def step_config_default_def)
  have "tenant_id_from_header ''k'' ''k'' 7 = Inr 7"
    by (simp add: tenant_id_from_header_def verify_internal_token_def compare_digest_def)
  then have "wp (post_workflow True sample_env (\<lambda>_. None) (tenant_id_from_header ''k'' ''k'' 7) sample_workflow_body)
      (\<lambda>_ _. True) (\<lambda>_ _. False) sample_tenants"
    by (simp add: post_workflow_def admitted_def valid_body_def parsed create_workflow_def wp_with_db_session Let_def
        insert_allowed_def sample_tenants_def)
  then obtain j sv1 where post: "post_workflow True sample_env (\<lambda>_. None) (tenant_id_from_header ''k'' ''k'' 7)
      sample_workflow_body sample_tenants = (Inr j, sv1)" by (auto simp: wp_Inr)
  moreover have "ee_uuid sample_env (sv_tick sample_tenants) \<notin> wf_id ` set (db_workflows (sv_db sample_tenants))"
    by (simp add: sample_tenants_def sample_env_def sample_workflow_def)
  ultimately show ?thesis
    using created_workflow_is_read_back [OF post, of 8] parsed by fastforce
qed

end
