(* ===== verification/Event_Dispatch.thy ===== *)
theory Event_Dispatch
  imports Events Py_Text
begin

text \<open>
  \<open>app/consumer/dispatcher.py\<close> of the observability service: the registry of event classes and
  \<open>parse_event\<close>. \<open>model_validate\<close> is pydantic's; what it does follows from the fields that the
  event classes declare: a field that is present is converted from its text, an absent one takes
  its default. The conversions of single texts are the record \<open>pydantic\<close>; a text is never
  accepted for a field of type \<open>dict\<close>. Indices, durations and counts are natural numbers in the
  model, so a message with a negative one is outside it.
\<close>

section \<open>Validation\<close>

datatype event_class =
    ExecutionStartedEvent
  | StepCompletedEvent
  | StepFailedEvent
  | ExecutionCompletedEvent
  | ExecutionPausedEvent
  | MemoryWrittenEvent
  | MemorySearchedEvent

datatype field_type =
    TStr | TUuid | TCount | TInt | TFloat | TBool | TTime | TStatus | TMemoryType | TDict

record pydantic =
  pd_uuid :: "string \<Rightarrow> uuid option"
  pd_int :: "string \<Rightarrow> int option"
  pd_float :: "string \<Rightarrow> rat option"
  pd_bool :: "string \<Rightarrow> bool option"
  pd_time :: "string \<Rightarrow> nat option"

definition parse_status :: "string \<Rightarrow> execution_status option" where
  "parse_status s = map_of (map (\<lambda>st. (status_value st, st))
     [PENDING, RUNNING, PAUSED, COMPLETED, FAILED, CANCELLED]) s"

definition parse_memory_type :: "string \<Rightarrow> memory_type option" where
  "parse_memory_type s = map_of (map (\<lambda>m. (memory_type_value m, m)) [EPISODIC, SEMANTIC, PROCEDURAL]) s"

definition nat_of_int :: "int \<Rightarrow> nat option" where
  "nat_of_int i = (if 0 \<le> i then Some (nat i) else None)"

fun coerce :: "pydantic \<Rightarrow> field_type \<Rightarrow> string \<Rightarrow> pyval option" where
  "coerce P TStr s = Some (VStr s)"
| "coerce P TUuid s = map_option VUuid (pd_uuid P s)"
| "coerce P TCount s = map_option VNat (Option.bind (pd_int P s) nat_of_int)"
| "coerce P TInt s = map_option VInt (pd_int P s)"
| "coerce P TFloat s = map_option VFloat (pd_float P s)"
| "coerce P TBool s = map_option VBool (pd_bool P s)"
| "coerce P TTime s = map_option VTime (pd_time P s)"
| "coerce P TStatus s = map_option VStatus (parse_status s)"
| "coerce P TMemoryType s = map_option VMemoryType (parse_memory_type s)"
| "coerce P TDict s = None"

text \<open>The fields of the classes: name, type and default. \<open>u\<close> and \<open>now\<close> are what the factories draw.\<close>

type_synonym field_spec = "string \<times> field_type \<times> pyval option"

definition base_fields :: "uuid \<Rightarrow> nat \<Rightarrow> field_spec list" where
  "base_fields u now =
     [(''trace_id'', TUuid, Some (VUuid u)), (''tenant_id'', TUuid, None),
      (''timestamp'', TTime, Some (VTime now)), (''schema_version'', TInt, Some (VInt 1))]"

fun class_fields :: "event_class \<Rightarrow> field_spec list" where
  "class_fields ExecutionStartedEvent =
     [(''execution_id'', TUuid, None), (''workflow_id'', TUuid, None)]"
| "class_fields StepCompletedEvent =
     [(''execution_id'', TUuid, None), (''workflow_id'', TUuid, None), (''step_name'', TStr, None),
      (''step_index'', TCount, None), (''duration_ms'', TCount, None),
      (''cost_usd'', TFloat, Some (VFloat 0)), (''outputs'', TDict, Some (VDict []))]"
| "class_fields StepFailedEvent =
     [(''execution_id'', TUuid, None), (''workflow_id'', TUuid, None), (''step_name'', TStr, None),
      (''step_index'', TCount, None), (''error_type'', TStr, None), (''error_message'', TStr, None),
      (''will_retry'', TBool, Some (VBool False))]"
| "class_fields ExecutionCompletedEvent =
     [(''execution_id'', TUuid, None), (''workflow_id'', TUuid, None), (''status'', TStatus, None),
      (''total_duration_ms'', TCount, None), (''total_cost_usd'', TFloat, None),
      (''total_steps'', TCount, None)]"
| "class_fields ExecutionPausedEvent =
     [(''execution_id'', TUuid, None), (''workflow_id'', TUuid, None),
      (''pause_reason'', TStr, None), (''paused_at_step'', TStr, None)]"
| "class_fields MemoryWrittenEvent =
     [(''memory_item_id'', TUuid, None), (''memory_type'', TMemoryType, None)]"
| "class_fields MemorySearchedEvent =
     [(''query_hash'', TStr, None), (''results_count'', TCount, None), (''latency_ms'', TCount, None),
      (''cache_hit'', TBool, Some (VBool False))]"

fun validate_fields :: "pydantic \<Rightarrow> field_spec list \<Rightarrow> (string \<times> string) list \<Rightarrow> pyval list option" where
  "validate_fields P [] d = Some []"
| "validate_fields P ((k, ty, dflt) # fs) d =
     (case (case map_of d k of Some s \<Rightarrow> coerce P ty s | None \<Rightarrow> dflt) of
        None \<Rightarrow> None
      | Some v \<Rightarrow> map_option ((#) v) (validate_fields P fs d))"

text \<open>The instance with the given values of the fields.\<close>

fun build_body :: "event_class \<Rightarrow> pyval list \<Rightarrow> event_body option" where
  "build_body ExecutionStartedEvent vs =
     (case vs of [VUuid e, VUuid w] \<Rightarrow>
        Some (ExecutionStarted e w) | _ \<Rightarrow> None)"
| "build_body StepCompletedEvent vs =
     (case vs of [VUuid e, VUuid w, VStr n, VNat i, VNat d, VFloat c, VDict outs] \<Rightarrow>
        Some (StepCompleted e w n i d c outs) | _ \<Rightarrow> None)"
| "build_body StepFailedEvent vs =
     (case vs of [VUuid e, VUuid w, VStr n, VNat i, VStr t, VStr m, VBool r] \<Rightarrow>
        Some (StepFailed e w n i t m r) | _ \<Rightarrow> None)"
| "build_body ExecutionCompletedEvent vs =
     (case vs of [VUuid e, VUuid w, VStatus s, VNat d, VFloat c, VNat n] \<Rightarrow>
        Some (ExecutionCompleted e w s d c n) | _ \<Rightarrow> None)"
| "build_body ExecutionPausedEvent vs =
     (case vs of [VUuid e, VUuid w, VStr r, VStr s] \<Rightarrow>
        Some (ExecutionPaused e w r s) | _ \<Rightarrow> None)"
| "build_body MemoryWrittenEvent vs =
     (case vs of [VUuid i, VMemoryType t] \<Rightarrow>
        Some (MemoryWritten i t) | _ \<Rightarrow> None)"
| "build_body MemorySearchedEvent vs =
     (case vs of [VStr q, VNat n, VNat l, VBool h] \<Rightarrow>
        Some (MemorySearched q n l h) | _ \<Rightarrow> None)"

definition model_validate ::
  "pydantic \<Rightarrow> uuid \<Rightarrow> nat \<Rightarrow> event_class \<Rightarrow> (string \<times> string) list \<Rightarrow> exn + event" where
  "model_validate P u now cls d =
     (case (validate_fields P (base_fields u now) d,
            Option.bind (validate_fields P (class_fields cls) d) (build_body cls)) of
        (Some [VUuid tr, VUuid tn, VTime t, VInt s], Some b) \<Rightarrow>
          Inr \<lparr>ev_trace_id = tr, ev_tenant_id = tn, ev_timestamp = t, ev_schema_version = s, ev_body = b\<rparr>
      | _ \<Rightarrow> Inl (LibraryError ''ValidationError''))"

section \<open>The dispatcher\<close>

definition REGISTRY :: "(string \<times> event_class) list" where
  "REGISTRY =
     [(''execution.started'', ExecutionStartedEvent),
      (''execution.step.completed'', StepCompletedEvent),
      (''execution.step.failed'', StepFailedEvent),
      (''execution.completed'', ExecutionCompletedEvent),
      (''execution.paused'', ExecutionPausedEvent),
      (''memory.written'', MemoryWrittenEvent),
      (''memory.searched'', MemorySearchedEvent)]"

definition dict_get :: "(string \<times> string) list \<Rightarrow> string \<Rightarrow> string \<Rightarrow> string" where
  "dict_get d k dflt = (case map_of d k of Some v \<Rightarrow> v | None \<Rightarrow> dflt)"

definition parse_event :: "pydantic \<Rightarrow> uuid \<Rightarrow> nat \<Rightarrow> (string \<times> string) list \<Rightarrow> exn + event" where
  "parse_event P u now d =
     (let event_type = dict_get d ''event_type'' '''' in
      case map_of REGISTRY event_type of
        None \<Rightarrow> Inl (UnknownEventType (''Unknown event_type: '' @ py_repr event_type))
      | Some cls \<Rightarrow> model_validate P u now cls d)"

section \<open>What was published is read back\<close>

text \<open>Each text conversion reads what the producer wrote.\<close>

locale pydantic_laws =
  fixes P :: pydantic and F :: text_format
  assumes read_uuid: "pd_uuid P (uuid_str u) = Some u"
    and read_nat: "pd_int P (str_nat n) = Some (int n)"
    and read_int: "pd_int P (str_int i) = Some i"
    and read_float: "pd_float P (tf_float F r) = Some r"
    and read_bool: "pd_bool P ''True'' = Some True" "pd_bool P ''False'' = Some False"
    and read_time: "pd_time P (tf_time F t) = Some t"
begin

lemmas reads = read_uuid read_nat read_int read_float read_bool read_time

end

lemma parse_status_value [simp]: "parse_status (status_value st) = Some st"
  by (cases st) (simp_all add: parse_status_def)

lemma parse_memory_type_value [simp]: "parse_memory_type (memory_type_value m) = Some m"
  by (cases m) (simp_all add: parse_memory_type_def)

lemma nat_of_int_nat [simp]: "nat_of_int (int n) = Some n"
  by (simp add: nat_of_int_def)

fun class_of :: "event_body \<Rightarrow> event_class" where
  "class_of (ExecutionStarted _ _) = ExecutionStartedEvent"
| "class_of (StepCompleted _ _ _ _ _ _ _) = StepCompletedEvent"
| "class_of (StepFailed _ _ _ _ _ _ _) = StepFailedEvent"
| "class_of (ExecutionCompleted _ _ _ _ _ _) = ExecutionCompletedEvent"
| "class_of (ExecutionPaused _ _ _ _) = ExecutionPausedEvent"
| "class_of (MemoryWritten _ _) = MemoryWrittenEvent"
| "class_of (MemorySearched _ _ _ _) = MemorySearchedEvent"

lemma registry_event_type [simp]: "map_of REGISTRY (event_type b) = Some (class_of b)"
  by (cases b) (simp_all add: REGISTRY_def)

definition readable :: "event_body \<Rightarrow> bool" where
  "readable b \<longleftrightarrow> class_of b \<noteq> StepCompletedEvent"

context pydantic_laws
begin

lemma base_fields_read:
  "validate_fields P (base_fields u now) (to_stream_dict F ev) =
     Some [VUuid (ev_trace_id ev), VUuid (ev_tenant_id ev), VTime (ev_timestamp ev),
       VInt (ev_schema_version ev)]"
  by (simp add: base_fields_def stream_dict_lookup model_dump_def reads)

lemma class_fields_read:
  "validate_fields P (class_fields (class_of (ev_body ev))) (to_stream_dict F ev) =
     (if readable (ev_body ev) then Some (map snd (body_fields (ev_body ev))) else None)"
  by (cases "ev_body ev") (simp_all add: stream_dict_lookup model_dump_def reads readable_def)

lemma build_body_fields: "build_body (class_of b) (map snd (body_fields b)) = Some b"
  by (cases b) simp_all

lemma parse_stream_dict:
  "parse_event P u now (to_stream_dict F ev) =
     (if readable (ev_body ev) then Inr ev else Inl (LibraryError ''ValidationError''))"
  by (cases "readable (ev_body ev)")
    (simp_all add: parse_event_def dict_get_def stream_dict_event_type model_validate_def base_fields_read
      class_fields_read build_body_fields)

end

text \<open>Text forms for which the laws hold: a float is written as a fraction.\<close>

definition rat_text :: "rat \<Rightarrow> string" where
  "rat_text r = (case quotient_of r of (a, b) \<Rightarrow> str_int a @ CHR ''/'' # str_int b)"

definition rat_read :: "string \<Rightarrow> rat option" where
  "rat_read s =
     (let a = takeWhile (\<lambda>c. c \<noteq> CHR ''/'') s; b = drop (length a + 1) s in
      case (int_base10 a, int_base10 b) of
        (Some x, Some y) \<Rightarrow> Some (of_int x / of_int y)
      | _ \<Rightarrow> None)"

definition sample_format :: text_format where
  "sample_format = \<lparr>tf_float = rat_text, tf_time = str_nat, tf_dumps = (\<lambda>_. ''{}'')\<rparr>"

definition sample_pydantic :: pydantic where
  "sample_pydantic =
     \<lparr>pd_uuid = uuid_parse, pd_int = int_base10, pd_float = rat_read,
      pd_bool = (\<lambda>s. if s = ''True'' then Some True else if s = ''False'' then Some False else None),
      pd_time = (\<lambda>s. Option.bind (int_base10 s) nat_of_int)\<rparr>"

lemma int_base10_str_int [simp]: "int_base10 (str_int i) = Some i"
  by (simp add: str_int_def int_base10_str_nat int_base10_neg)

lemma rat_read_text: "rat_read (rat_text r) = Some r"
proof -
  obtain a b where q: "quotient_of r = (a, b)" by fastforce
  have "c \<noteq> CHR ''/''" if "c \<in> set (str_int a)" for c
    using that str_nat_absent [of "CHR ''/''"] by (auto simp: str_int_def split: if_splits)
  then have "takeWhile (\<lambda>c. c \<noteq> CHR ''/'') (str_int a @ CHR ''/'' # str_int b) = str_int a"
    by (subst takeWhile_append2) auto
  with q show ?thesis by (simp add: rat_text_def rat_read_def quotient_of_div [OF q, symmetric])
qed

interpretation sample_pd: pydantic_laws sample_pydantic sample_format
  by unfold_locales
    (simp_all add: sample_pydantic_def sample_format_def uuid_parse_str int_base10_str_nat rat_read_text)

section \<open>Properties\<close>

text \<open>
  C34: Every event is read back from its stream form as it was published, except a completed step, which
  is refused whatever it holds: its outputs arrive as a text where the class declares a dict.
\<close>

lemma published_events_are_read_back:
  assumes "pydantic_laws P F"
  shows "parse_event P u now (to_stream_dict F ev) =
    (case ev_body ev of StepCompleted _ _ _ _ _ _ _ \<Rightarrow> Inl (LibraryError ''ValidationError'') | _ \<Rightarrow> Inr ev)"
  by (cases "ev_body ev") (simp_all add: pydantic_laws.parse_stream_dict [OF assms] readable_def)

definition sample_event :: "event_body \<Rightarrow> event" where
  "sample_event b =
     \<lparr>ev_trace_id = 3, ev_tenant_id = 7, ev_timestamp = 0, ev_schema_version = 1, ev_body = b\<rparr>"

lemma published_events_are_read_back_witness:
  "parse_event sample_pydantic 0 0 (to_stream_dict sample_format (sample_event (StepCompleted 1 9 ''a'' 0 5 0 []))) =
     Inl (LibraryError ''ValidationError'') \<and>
   parse_event sample_pydantic 0 0 (to_stream_dict sample_format (sample_event (ExecutionPaused 1 9 ''error'' ''a''))) =
     Inr (sample_event (ExecutionPaused 1 9 ''error'' ''a''))"
  by (simp add: published_events_are_read_back [OF sample_pd.pydantic_laws_axioms] sample_event_def)

end
