(* ===== verification/Observability.thy ===== *)
theory Observability
  imports Event_Dispatch Redis Db_Session
begin

text \<open>
  The state of the observability service: settings, the two append-only tables with the database
  session over them, and the Prometheus metrics. \<open>os_streams\<close> is the stream server, \<open>os_buffer\<close> the
  Redis database of the tail sampler. Everything outside the process (clock, \<open>uuid4\<close>, \<open>random\<close>,
  failures of the database and of the buffer) is the environment, read at the next tick.
\<close>

section \<open>Settings\<close>

record obs_settings =
  os_consumer_group :: string
  os_consumer_name :: string
  os_executions_stream :: string
  os_memory_stream :: string
  os_trace_buffer_ttl_seconds :: nat
  os_slow_execution_threshold_ms :: int
  os_fast_execution_sample_rate :: rat
  os_consumer_poll_count :: nat
  os_consumer_block_ms :: nat
  os_reclaim_min_idle_ms :: nat
  os_audit_log_default_page_size :: int
  os_audit_log_max_page_size :: int

definition default_obs_settings :: "string \<Rightarrow> obs_settings" where
  "default_obs_settings hostname =
     \<lparr>os_consumer_group = ''observability-workers'', os_consumer_name = ''obs-worker-'' @ hostname,
      os_executions_stream = ''executions'', os_memory_stream = ''memory.events'',
      os_trace_buffer_ttl_seconds = 600, os_slow_execution_threshold_ms = 30000,
      os_fast_execution_sample_rate = 1 / 10, os_consumer_poll_count = 100, os_consumer_block_ms = 1000,
      os_reclaim_min_idle_ms = 60000, os_audit_log_default_page_size = 100,
      os_audit_log_max_page_size = 1000\<rparr>"

section \<open>Tables\<close>

record trace =
  tr_trace_id :: uuid
  tr_execution_id :: uuid
  tr_tenant_id :: uuid
  tr_workflow_id :: uuid
  tr_event_type :: string
  tr_step_name :: "string option"
  tr_step_index :: "int option"
  tr_duration_ms :: "int option"
  tr_cost_usd :: "rat option"
  tr_status :: "string option"
  tr_error_type :: "string option"
  tr_error_message :: "string option"

text \<open>A stored row has the columns that the insert fills in: \<open>uuid4\<close> and the transaction's \<open>NOW()\<close>.\<close>

record trace_row = trace +
  tr_id :: uuid
  tr_start_time :: nat

record audit =
  au_tenant_id :: uuid
  au_actor_id :: "uuid option"
  au_action :: string
  au_resource_id :: "uuid option"
  au_extra_metadata :: variables

record audit_row = audit +
  au_id :: uuid
  au_timestamp :: nat

datatype obs_object = NewTrace trace | NewAudit audit

datatype obs_row = TraceRow trace_row | AuditRow audit_row

fun stored_row :: "uuid \<Rightarrow> nat \<Rightarrow> obs_object \<Rightarrow> obs_row" where
  "stored_row u now (NewTrace t) = TraceRow (trace.extend t \<lparr>tr_id = u, tr_start_time = now\<rparr>)"
| "stored_row u now (NewAudit a) = AuditRow (audit.extend a \<lparr>au_id = u, au_timestamp = now\<rparr>)"

fun trace_rows :: "obs_row list \<Rightarrow> trace_row list" where
  "trace_rows [] = []"
| "trace_rows (TraceRow t # rs) = t # trace_rows rs"
| "trace_rows (AuditRow a # rs) = trace_rows rs"

fun audit_rows :: "obs_row list \<Rightarrow> audit_row list" where
  "audit_rows [] = []"
| "audit_rows (TraceRow t # rs) = audit_rows rs"
| "audit_rows (AuditRow a # rs) = a # audit_rows rs"

lemma trace_rows_append [simp]: "trace_rows (xs @ ys) = trace_rows xs @ trace_rows ys"
  by (induction xs rule: trace_rows.induct) simp_all

lemma audit_rows_append [simp]: "audit_rows (xs @ ys) = audit_rows xs @ audit_rows ys"
  by (induction xs rule: audit_rows.induct) simp_all

section \<open>Metrics\<close>

text \<open>A metric with labels is a function of them; a histogram keeps what it observed.\<close>

record obs_metrics =
  EXECUTION_TOTAL :: "string \<times> string \<Rightarrow> nat"
  EXECUTION_DURATION :: "string \<times> string \<Rightarrow> rat list"
  EXECUTION_COST :: "string \<Rightarrow> rat list"
  STEP_DURATION :: "string \<times> string \<Rightarrow> rat list"
  MEMORY_LATENCY :: "rat list"
  ACTIVE_EXECUTIONS :: "string \<Rightarrow> int"
  CHECKPOINT_FAILURES :: nat

definition new_metrics :: obs_metrics where
  "new_metrics =
     \<lparr>EXECUTION_TOTAL = (\<lambda>_. 0), EXECUTION_DURATION = (\<lambda>_. []), EXECUTION_COST = (\<lambda>_. []),
      STEP_DURATION = (\<lambda>_. []), MEMORY_LATENCY = [], ACTIVE_EXECUTIONS = (\<lambda>_. 0),
      CHECKPOINT_FAILURES = 0\<rparr>"

definition observe :: "'l \<Rightarrow> rat \<Rightarrow> ('l \<Rightarrow> rat list) \<Rightarrow> 'l \<Rightarrow> rat list" where
  "observe l v h = h(l := h l @ [v])"

definition record_execution_started :: "string \<Rightarrow> obs_metrics \<Rightarrow> obs_metrics" where
  "record_execution_started tenant_id m =
     m\<lparr>ACTIVE_EXECUTIONS := (ACTIVE_EXECUTIONS m)(tenant_id := ACTIVE_EXECUTIONS m tenant_id + 1)\<rparr>"

definition record_execution_completed :: "string \<Rightarrow> string \<Rightarrow> nat \<Rightarrow> rat \<Rightarrow> obs_metrics \<Rightarrow> obs_metrics" where
  "record_execution_completed tenant_id status duration_ms cost_usd m0 =
     (let l = (tenant_id, status);
          m = m0\<lparr>EXECUTION_TOTAL := (EXECUTION_TOTAL m0)(l := EXECUTION_TOTAL m0 l + 1),
                 EXECUTION_DURATION := observe l (of_nat duration_ms / 1000) (EXECUTION_DURATION m0),
                 EXECUTION_COST := observe tenant_id cost_usd (EXECUTION_COST m0)\<rparr>
      in if status \<in> {''COMPLETED'', ''FAILED'', ''CANCELLED''}
         then m\<lparr>ACTIVE_EXECUTIONS := (ACTIVE_EXECUTIONS m)(tenant_id := ACTIVE_EXECUTIONS m tenant_id - 1)\<rparr>
         else m)"

definition record_step_completed :: "string \<Rightarrow> string \<Rightarrow> nat \<Rightarrow> obs_metrics \<Rightarrow> obs_metrics" where
  "record_step_completed workflow_id step_name duration_ms m =
     m\<lparr>STEP_DURATION := observe (workflow_id, step_name) (of_nat duration_ms / 1000) (STEP_DURATION m)\<rparr>"

definition record_memory_searched :: "nat \<Rightarrow> obs_metrics \<Rightarrow> obs_metrics" where
  "record_memory_searched latency_ms m =
     m\<lparr>MEMORY_LATENCY := MEMORY_LATENCY m @ [of_nat latency_ms / 1000]\<rparr>"

section \<open>State and environment\<close>

record obs_env =
  oe_settings :: obs_settings
  oe_pydantic :: pydantic
  oe_uuid :: "nat \<Rightarrow> uuid"
  oe_now :: "nat \<Rightarrow> nat"
  oe_random :: "nat \<Rightarrow> rat"
  oe_buffer_fails :: "nat \<Rightarrow> exn option"
  oe_db_fails :: "nat \<Rightarrow> exn option"
  oe_dumps :: "(string \<times> string) list \<Rightarrow> string"
  oe_loads :: "string \<Rightarrow> exn + (string \<times> string) list"
  oe_float :: "string \<Rightarrow> rat option"

record ('q, 'r) obs =
  os_streams :: 'q
  os_buffer :: 'r
  os_traces :: "trace_row list"
  os_audit :: "audit_row list"
  os_new :: "obs_object list"
  os_flushed :: "obs_row list"
  os_tx_start :: "nat option"
  os_metrics :: obs_metrics
  os_processed :: nat
  os_tick :: nat

definition obs_tick :: "(nat \<Rightarrow> 'a) \<Rightarrow> (('q, 'r) obs, 'a) py" where
  "obs_tick f = (\<lambda>w. (Inr (f (os_tick w)), w\<lparr>os_tick := Suc (os_tick w)\<rparr>))"

text \<open>A call of a server that may fail at this tick.\<close>

definition obs_call :: "(nat \<Rightarrow> exn option) \<Rightarrow> (('q, 'r) obs, unit) py" where
  "obs_call fails = andthen (obs_tick fails) (\<lambda>f. case f of Some e \<Rightarrow> throw e | None \<Rightarrow> ret ())"

definition record_metric :: "(obs_metrics \<Rightarrow> obs_metrics) \<Rightarrow> (('q, 'r) obs, unit) py" where
  "record_metric f = modify (\<lambda>w. w\<lparr>os_metrics := f (os_metrics w)\<rparr>)"

section \<open>The database session\<close>

definition obs_add :: "obs_object \<Rightarrow> (('q, 'r) obs, unit) py" where
  "obs_add x = modify (\<lambda>w. w\<lparr>os_new := os_new w @ [x]\<rparr>)"

definition insert_new :: "obs_env \<Rightarrow> ('q, 'r) obs \<Rightarrow> ('q, 'r) obs" where
  "insert_new E w =
     (let start = (case os_tx_start w of Some t \<Rightarrow> t | None \<Rightarrow> oe_now E (os_tick w)) in
      w\<lparr>os_flushed := os_flushed w @
          map (\<lambda>(i, x). stored_row (oe_uuid E i) start x) (enumerate (os_tick w) (os_new w)),
        os_new := [], os_tx_start := Some start, os_tick := os_tick w + length (os_new w)\<rparr>)"

definition obs_flush :: "obs_env \<Rightarrow> (('q, 'r) obs, unit) py" where
  "obs_flush E = andthen (gets os_new) (\<lambda>new.
     if new = [] then ret () else seq (obs_call (oe_db_fails E)) (modify (insert_new E)))"

definition close_session :: "('q, 'r) obs \<Rightarrow> ('q, 'r) obs" where
  "close_session w = w\<lparr>os_new := [], os_flushed := [], os_tx_start := None\<rparr>"

definition obs_commit :: "obs_env \<Rightarrow> (('q, 'r) obs, unit) py" where
  "obs_commit E =
     seq (obs_flush E)
    (seq (obs_call (oe_db_fails E))
         (modify (\<lambda>w. close_session (w\<lparr>os_traces := os_traces w @ trace_rows (os_flushed w),
                                       os_audit := os_audit w @ audit_rows (os_flushed w)\<rparr>))))"

text \<open>\<open>get_db_session_context\<close>: commit on return, roll back and re-raise on an exception.\<close>

definition obs_session :: "obs_env \<Rightarrow> (('q, 'r) obs, 'a) py \<Rightarrow> (('q, 'r) obs, 'a) py" where
  "obs_session E body =
     seq (modify close_session)
       (tryexcept (andthen body (\<lambda>a. seq (obs_commit E) (ret a)))
                  (\<lambda>e. seq (modify close_session) (throw e)))"

section \<open>What the operations change\<close>

lemma wp_obs_tick [simp]: "wp (obs_tick f) Q X w = Q (f (os_tick w)) (w\<lparr>os_tick := Suc (os_tick w)\<rparr>)"
  by (simp add: obs_tick_def wp_def)

lemma wp_obs_call [simp]:
  "wp (obs_call fails) Q X w =
     (case fails (os_tick w) of Some e \<Rightarrow> X e (w\<lparr>os_tick := Suc (os_tick w)\<rparr>)
      | None \<Rightarrow> Q () (w\<lparr>os_tick := Suc (os_tick w)\<rparr>))"
  by (simp add: obs_call_def split: option.split)

lemma wp_record_metric [simp]: "wp (record_metric f) Q X w = Q () (w\<lparr>os_metrics := f (os_metrics w)\<rparr>)"
  by (simp add: record_metric_def)

lemma wp_obs_add [simp]: "wp (obs_add x) Q X w = Q () (w\<lparr>os_new := os_new w @ [x]\<rparr>)"
  by (simp add: obs_add_def)

lemma wp_obs_flush [simp]:
  "wp (obs_flush E) Q X w =
     (if os_new w = [] then Q () w
      else case oe_db_fails E (os_tick w) of
        Some e \<Rightarrow> X e (w\<lparr>os_tick := Suc (os_tick w)\<rparr>)
      | None \<Rightarrow> Q () (insert_new E (w\<lparr>os_tick := Suc (os_tick w)\<rparr>)))"
  by (simp add: obs_flush_def split: option.split)

lemma insert_new_simps [simp]:
  "os_new (insert_new E w) = []" "os_traces (insert_new E w) = os_traces w"
  "os_audit (insert_new E w) = os_audit w" "os_streams (insert_new E w) = os_streams w"
  "os_buffer (insert_new E w) = os_buffer w" "os_metrics (insert_new E w) = os_metrics w"
  "os_processed (insert_new E w) = os_processed w"
  by (simp_all add: insert_new_def Let_def)

lemma close_session_simps [simp]:
  "os_new (close_session w) = []" "os_flushed (close_session w) = []" "os_traces (close_session w) = os_traces w"
  "os_audit (close_session w) = os_audit w" "os_streams (close_session w) = os_streams w"
  "os_buffer (close_session w) = os_buffer w" "os_metrics (close_session w) = os_metrics w"
  "os_processed (close_session w) = os_processed w" "os_tick (close_session w) = os_tick w"
  by (simp_all add: close_session_def)

section \<open>The session as an instance of the core's\<close>

lemma obs_session_get:
  "obs_session E body = get_session (modify close_session) (obs_commit E) (modify close_session) body"
  by (simp add: obs_session_def get_session_def)

abbreviation obs_stored :: "('q, 'r) obs \<Rightarrow> trace_row list \<times> audit_row list" where
  "obs_stored w \<equiv> (os_traces w, os_audit w)"

interpretation obs_db: session_provider "modify close_session" "obs_commit E" "modify close_session" obs_stored
  by unfold_locales (auto simp: obs_commit_def split: option.split)

text \<open>A handler that raises, or whose commit does, leaves no row behind.\<close>

lemma raising_session_stores_nothing:
  assumes "\<And>w. wp body (\<lambda>_ w'. obs_stored w' = obs_stored w) (\<lambda>_ w'. obs_stored w' = obs_stored w) w"
    and "obs_session E body w = (Inl e, w')"
  shows "obs_stored w' = obs_stored w"
  using obs_db.raising_session [OF assms(1)] assms(2) unfolding obs_session_get by blast

end
