(* ===== verification/Tail_Sampler.thy ===== *)
theory Tail_Sampler
  imports Observability
begin

text \<open>
  \<open>app/sampling/tail_sampler.py\<close>: the buffer of spans of an execution, a Redis hash, and the
  decision to keep or drop them. The hash commands are a record \<open>hash_ops\<close> beside the string
  commands; the locale \<open>redis_hash\<close> states their documented behaviour through the observable
  hashes \<open>hview\<close> (fields and remaining time to live), and how DEL, EXPIRE, SET and the passing of
  time act on them. An in-memory instance interprets it.
\<close>

section \<open>Redis hashes\<close>

record 'r hash_ops =
  r_hset :: "string \<Rightarrow> string \<Rightarrow> string \<Rightarrow> 'r \<Rightarrow> 'r"
  r_hgetall :: "string \<Rightarrow> 'r \<Rightarrow> (string \<times> string) list"

type_synonym hashes = "string \<Rightarrow> ((string \<times> string) list \<times> nat option) option"

text \<open>The fields of a hash, in the order HGETALL lists them; an absent hash has none.\<close>

definition hash_fields :: "hashes \<Rightarrow> string \<Rightarrow> (string \<times> string) list" where
  "hash_fields h k = (case h k of None \<Rightarrow> [] | Some (fs, _) \<Rightarrow> fs)"

fun age_hash :: "nat \<Rightarrow> ((string \<times> string) list \<times> nat option) option \<Rightarrow>
    ((string \<times> string) list \<times> nat option) option" where
  "age_hash d None = None"
| "age_hash d (Some (v, None)) = Some (v, None)"
| "age_hash d (Some (v, Some t)) = (if t \<le> d then None else Some (v, Some (t - d)))"

locale redis_hash = redis_kv R view
  for R :: "'r redis_ops" and view :: "'r \<Rightarrow> keyspace" +
  fixes H :: "'r hash_ops" and hview :: "'r \<Rightarrow> hashes"
  assumes hset_view: "view r k = None \<Longrightarrow> view (r_hset H k f v r) = view r"
    and hset_fields: "view r k = None \<Longrightarrow>
      map_of (hash_fields (hview (r_hset H k f v r)) k) = (map_of (hash_fields (hview r) k))(f \<mapsto> v)"
    and hset_other: "view r k = None \<Longrightarrow> k' \<noteq> k \<Longrightarrow> hview (r_hset H k f v r) k' = hview r k'"
    and hset_distinct: "view r k = None \<Longrightarrow> distinct (map fst (hash_fields (hview r) k)) \<Longrightarrow>
      distinct (map fst (hash_fields (hview (r_hset H k f v r)) k))"
    and hgetall_view: "r_hgetall H k r = hash_fields (hview r) k"
    and hexpire_view: "0 < ttl \<Longrightarrow> view r k = None \<Longrightarrow> hview (r_expire R k ttl r) =
      (case hview r k of None \<Rightarrow> hview r | Some (fs, _) \<Rightarrow> (hview r)(k \<mapsto> (fs, Some (1000 * ttl))))"
    and hdel_view: "hview (r_del R k r) = (hview r)(k := None)"
    and hsetex_view: "0 < ttl \<Longrightarrow> hview (r_setex R k ttl v r) = (hview r)(k := None)"
    and helapse_view: "hview (r_elapse R d r) = (\<lambda>k. age_hash d (hview r k))"

text \<open>A keyspace with hashes beside it; writing a key of one type removes it from the other.\<close>

definition lift_redis :: "keyspace redis_ops \<Rightarrow> (keyspace \<times> hashes) redis_ops" where
  "lift_redis R =
     \<lparr>r_set_nx_ex = (\<lambda>k v ttl (r, h). case r_set_nx_ex R k v ttl r of
         (b, r') \<Rightarrow> (b, r', if b then h(k := None) else h)),
      r_setex = (\<lambda>k ttl v (r, h). (r_setex R k ttl v r, h(k := None))),
      r_get = (\<lambda>k (r, h). r_get R k r),
      r_del = (\<lambda>k (r, h). (r_del R k r, h(k := None))),
      r_expire = (\<lambda>k ttl (r, h). (r_expire R k ttl r,
         case h k of None \<Rightarrow> h | Some (fs, _) \<Rightarrow> h(k \<mapsto> (fs, Some (1000 * ttl))))),
      r_incr = (\<lambda>k (r, h). case r_incr R k r of (n, r') \<Rightarrow> (n, r', h)),
      r_elapse = (\<lambda>d (r, h). (r_elapse R d r, \<lambda>k. age_hash d (h k)))\<rparr>"

definition mem_hash :: "(keyspace \<times> hashes) hash_ops" where
  "mem_hash =
     \<lparr>r_hset = (\<lambda>k f v (r, h).
         (r, h(k \<mapsto> (AList.update f v (hash_fields h k), case h k of None \<Rightarrow> None | Some (_, t) \<Rightarrow> t)))),
      r_hgetall = (\<lambda>k (r, h). hash_fields h k)\<rparr>"

interpretation mem_kv_hash: redis_kv "lift_redis mem_redis" fst
  by unfold_locales (auto simp: lift_redis_def mem_redis_def Let_def fun_eq_iff split: option.splits)

interpretation mem_hash: redis_hash "lift_redis mem_redis" fst mem_hash snd
  by unfold_locales
    (auto simp: lift_redis_def mem_redis_def mem_hash_def hash_fields_def update_conv' distinct_update
       split: prod.splits option.splits)

section \<open>The sampler\<close>

definition buffer_key :: "uuid \<Rightarrow> string" where
  "buffer_key eid = ''trace:buffer:'' @ uuid_str eid"

definition failure_key :: "uuid \<Rightarrow> string" where
  "failure_key eid = ''trace:has_failure:'' @ uuid_str eid"

text \<open>One command of the buffer's Redis.\<close>

definition buffer_cmd :: "obs_env \<Rightarrow> ('r \<Rightarrow> 'a \<times> 'r) \<Rightarrow> (('q, 'r) obs, 'a) py" where
  "buffer_cmd E f = seq (obs_call (oe_buffer_fails E))
     (\<lambda>w. case f (os_buffer w) of (a, r) \<Rightarrow> (Inr a, w\<lparr>os_buffer := r\<rparr>))"

definition buffer_span ::
  "'r redis_ops \<Rightarrow> 'r hash_ops \<Rightarrow> obs_env \<Rightarrow> uuid \<Rightarrow> string \<Rightarrow> (string \<times> string) list \<Rightarrow>
     (('q, 'r) obs, unit) py" where
  "buffer_span R H E eid span_key span_data =
     (let key = buffer_key eid in
      seq (buffer_cmd E (\<lambda>r. ((), r_hset H key span_key (oe_dumps E span_data) r)))
          (buffer_cmd E (\<lambda>r. ((), r_expire R key (os_trace_buffer_ttl_seconds (oe_settings E)) r))))"

definition mark_has_failure :: "'r redis_ops \<Rightarrow> obs_env \<Rightarrow> uuid \<Rightarrow> (('q, 'r) obs, unit) py" where
  "mark_has_failure R E eid =
     buffer_cmd E (\<lambda>r. ((), r_setex R (failure_key eid) (os_trace_buffer_ttl_seconds (oe_settings E)) ''1'' r))"

definition should_keep :: "'r redis_ops \<Rightarrow> obs_env \<Rightarrow> uuid \<Rightarrow> nat \<Rightarrow> (('q, 'r) obs, bool) py" where
  "should_keep R E eid total_duration_ms =
     andthen (buffer_cmd E (\<lambda>r. (r_get R (failure_key eid) r, r))) (\<lambda>has_failure.
       if has_failure \<noteq> None \<and> has_failure \<noteq> Some [] then ret True
       else if int total_duration_ms > os_slow_execution_threshold_ms (oe_settings E) then ret True
       else andthen (obs_tick (oe_random E))
         (\<lambda>x. ret (x < os_fast_execution_sample_rate (oe_settings E))))"

fun loads_all :: "obs_env \<Rightarrow> string list \<Rightarrow> exn + (string \<times> string) list list" where
  "loads_all E [] = Inr []"
| "loads_all E (v # vs) =
     (case oe_loads E v of
        Inl e \<Rightarrow> Inl e
      | Inr d \<Rightarrow> (case loads_all E vs of Inl e \<Rightarrow> Inl e | Inr ds \<Rightarrow> Inr (d # ds)))"

definition sampler_flush ::
  "'r redis_ops \<Rightarrow> 'r hash_ops \<Rightarrow> obs_env \<Rightarrow> uuid \<Rightarrow> (('q, 'r) obs, (string \<times> string) list list) py" where
  "sampler_flush R H E eid =
     (let key = buffer_key eid in
      andthen (buffer_cmd E (\<lambda>r. (r_hgetall H key r, r))) (\<lambda>raw.
      andthen (liftsum (loads_all E (map snd raw))) (\<lambda>spans.
      seq (buffer_cmd E (\<lambda>r. ((), r_del R (failure_key eid) (r_del R key r))))
          (ret spans))))"

lemma wp_buffer_cmd [simp]:
  "wp (buffer_cmd E f) Q X w =
     (case oe_buffer_fails E (os_tick w) of
        Some e \<Rightarrow> X e (w\<lparr>os_tick := Suc (os_tick w)\<rparr>)
      | None \<Rightarrow> (case f (os_buffer w) of
          (a, r) \<Rightarrow> Q a (w\<lparr>os_tick := Suc (os_tick w), os_buffer := r\<rparr>)))"
  by (simp add: buffer_cmd_def) (simp add: wp_def split: option.split prod.split)

lemma buffer_key_inj [key_inj]: "buffer_key e = buffer_key e' \<longleftrightarrow> e = e'"
  by (simp add: buffer_key_def key_inj)

lemma failure_key_inj [key_inj]: "failure_key e = failure_key e' \<longleftrightarrow> e = e'"
  by (simp add: failure_key_def key_inj)

lemma buffer_failure_key [simp]: "buffer_key e \<noteq> failure_key e'" "failure_key e' \<noteq> buffer_key e"
  by (simp_all add: buffer_key_def failure_key_def)

end
