(* ===== verification/Event_Handler.thy ===== *)
theory Event_Handler
  imports Tail_Sampler
begin

text \<open>
  \<open>app/consumer/handler.py\<close>: what each event does to the tail sampler, the metrics and the
  database session. \<open>raw\<close> is the message the event was read from.
\<close>

section \<open>Rows\<close>

definition write_audit :: "uuid \<Rightarrow> string \<Rightarrow> uuid option \<Rightarrow> (('q, 'r) obs, unit) py" where
  "write_audit tenant_id action resource_id =
     obs_add (NewAudit \<lparr>au_tenant_id = tenant_id, au_actor_id = None, au_action = action,
       au_resource_id = resource_id, au_extra_metadata = []\<rparr>)"

text \<open>A field that may be absent, read with a conversion that may raise.\<close>

definition optional :: "(string \<Rightarrow> 'a option) \<Rightarrow> string option \<Rightarrow> exn + 'a option" where
  "optional conv field =
     (case field of
        None \<Rightarrow> Inr None
      | Some s \<Rightarrow> (case conv s of
          None \<Rightarrow> Inl (PyValueError (''invalid value: '' @ py_repr s)) | Some v \<Rightarrow> Inr (Some v)))"

definition required_uuid :: "string \<Rightarrow> exn + uuid" where
  "required_uuid s = (case uuid_parse s of
     None \<Rightarrow> Inl (PyValueError ''badly formed hexadecimal UUID string'') | Some u \<Rightarrow> Inr u)"

text \<open>\<open>u1\<close> and \<open>u2\<close> are the UUIDs drawn for the defaults, whether they are used or not.\<close>

definition span_of :: "obs_env \<Rightarrow> uuid \<Rightarrow> uuid \<Rightarrow> uuid \<Rightarrow> uuid \<Rightarrow> (string \<times> string) list \<Rightarrow> exn + trace" where
  "span_of E u1 u2 tenant_id workflow_id d =
     (case required_uuid (dict_get d ''trace_id'' (uuid_str u1)) of Inl e \<Rightarrow> Inl e | Inr tr \<Rightarrow>
     (case required_uuid (dict_get d ''execution_id'' (uuid_str u2)) of Inl e \<Rightarrow> Inl e | Inr eid \<Rightarrow>
     (case optional int_base10 (map_of d ''step_index'') of Inl e \<Rightarrow> Inl e | Inr idx \<Rightarrow>
     (case optional int_base10 (map_of d ''duration_ms'') of Inl e \<Rightarrow> Inl e | Inr dur \<Rightarrow>
     (case optional (oe_float E) (map_of d ''cost_usd'') of Inl e \<Rightarrow> Inl e | Inr cost \<Rightarrow>
        Inr \<lparr>tr_trace_id = tr, tr_execution_id = eid, tr_tenant_id = tenant_id,
             tr_workflow_id = workflow_id, tr_event_type = dict_get d ''event_type'' ''unknown'',
             tr_step_name = map_of d ''step_name'', tr_step_index = idx, tr_duration_ms = dur,
             tr_cost_usd = cost, tr_status = None, tr_error_type = map_of d ''error_type'',
             tr_error_message = map_of d ''error_message''\<rparr>)))))"

definition write_span ::
  "obs_env \<Rightarrow> uuid \<Rightarrow> uuid \<Rightarrow> (string \<times> string) list \<Rightarrow> (('q, 'r) obs, unit) py" where
  "write_span E tenant_id workflow_id d =
     andthen (obs_tick (oe_uuid E)) (\<lambda>u1.
     andthen (obs_tick (oe_uuid E)) (\<lambda>u2.
     andthen (liftsum (span_of E u1 u2 tenant_id workflow_id d)) (\<lambda>t. obs_add (NewTrace t))))"

fun write_spans ::
  "obs_env \<Rightarrow> uuid \<Rightarrow> uuid \<Rightarrow> (string \<times> string) list list \<Rightarrow> (('q, 'r) obs, unit) py" where
  "write_spans E tenant_id workflow_id [] = ret ()"
| "write_spans E tenant_id workflow_id (d # ds) =
     seq (write_span E tenant_id workflow_id d) (write_spans E tenant_id workflow_id ds)"

section \<open>The handlers\<close>

definition on_execution_started ::
  "'r redis_ops \<Rightarrow> 'r hash_ops \<Rightarrow> obs_env \<Rightarrow> event \<Rightarrow> (string \<times> string) list \<Rightarrow> uuid \<Rightarrow>
     (('q, 'r) obs, unit) py" where
  "on_execution_started R H E ev raw eid =
     seq (buffer_span R H E eid (''started:'' @ uuid_str eid) raw)
    (seq (record_metric (record_execution_started (uuid_str (ev_tenant_id ev))))
         (write_audit (ev_tenant_id ev) ''execution.started'' (Some eid)))"

definition on_step_completed ::
  "'r redis_ops \<Rightarrow> 'r hash_ops \<Rightarrow> obs_env \<Rightarrow> (string \<times> string) list \<Rightarrow> uuid \<Rightarrow> uuid \<Rightarrow> string \<Rightarrow> nat \<Rightarrow> nat \<Rightarrow>
     (('q, 'r) obs, unit) py" where
  "on_step_completed R H E raw eid wid step_name step_index duration_ms =
     seq (buffer_span R H E eid (''step:'' @ str_nat step_index) raw)
         (record_metric (record_step_completed (uuid_str wid) step_name duration_ms))"

definition on_step_failed ::
  "'r redis_ops \<Rightarrow> 'r hash_ops \<Rightarrow> obs_env \<Rightarrow> event \<Rightarrow> (string \<times> string) list \<Rightarrow> uuid \<Rightarrow> nat \<Rightarrow>
     (('q, 'r) obs, unit) py" where
  "on_step_failed R H E ev raw eid step_index =
     seq (buffer_span R H E eid (''step_failed:'' @ str_nat step_index) raw)
    (seq (mark_has_failure R E eid)
         (write_audit (ev_tenant_id ev) ''execution.step.failed'' (Some eid)))"

text \<open>The row of the completion itself.\<close>

definition completion_trace :: "event \<Rightarrow> uuid \<Rightarrow> uuid \<Rightarrow> execution_status \<Rightarrow> nat \<Rightarrow> rat \<Rightarrow> trace" where
  "completion_trace ev eid wid st dur cost =
     \<lparr>tr_trace_id = ev_trace_id ev, tr_execution_id = eid, tr_tenant_id = ev_tenant_id ev,
      tr_workflow_id = wid, tr_event_type = event_type (ev_body ev), tr_step_name = None,
      tr_step_index = None, tr_duration_ms = Some (int dur), tr_cost_usd = Some cost,
      tr_status = Some (status_value st), tr_error_type = None, tr_error_message = None\<rparr>"

definition on_execution_completed ::
  "'r redis_ops \<Rightarrow> 'r hash_ops \<Rightarrow> obs_env \<Rightarrow> event \<Rightarrow> uuid \<Rightarrow> uuid \<Rightarrow> execution_status \<Rightarrow> nat \<Rightarrow> rat \<Rightarrow>
     (('q, 'r) obs, unit) py" where
  "on_execution_completed R H E ev eid wid st dur cost =
     andthen (should_keep R E eid dur) (\<lambda>keep.
     seq (if keep
          then andthen (sampler_flush R H E eid) (\<lambda>spans.
            seq (obs_add (NewTrace (completion_trace ev eid wid st dur cost)))
           (seq (write_spans E (ev_tenant_id ev) wid spans)
                (obs_flush E)))
          else andthen (sampler_flush R H E eid) (\<lambda>_. ret ()))
    (seq (record_metric (record_execution_completed (uuid_str (ev_tenant_id ev)) (status_value st) dur cost))
         (write_audit (ev_tenant_id ev) (''execution.'' @ lower (status_value st)) (Some eid))))"

definition on_execution_paused :: "event \<Rightarrow> uuid \<Rightarrow> (('q, 'r) obs, unit) py" where
  "on_execution_paused ev eid = write_audit (ev_tenant_id ev) ''execution.paused'' (Some eid)"

definition on_memory_written :: "event \<Rightarrow> uuid \<Rightarrow> (('q, 'r) obs, unit) py" where
  "on_memory_written ev item = write_audit (ev_tenant_id ev) ''memory.written'' (Some item)"

definition on_memory_searched :: "nat \<Rightarrow> (('q, 'r) obs, unit) py" where
  "on_memory_searched latency_ms = record_metric (record_memory_searched latency_ms)"

definition handle ::
  "'r redis_ops \<Rightarrow> 'r hash_ops \<Rightarrow> obs_env \<Rightarrow> event \<Rightarrow> (string \<times> string) list \<Rightarrow> (('q, 'r) obs, unit) py" where
  "handle R H E ev raw =
     (case ev_body ev of
        ExecutionStarted eid _ \<Rightarrow> on_execution_started R H E ev raw eid
      | StepCompleted eid wid name i dur _ _ \<Rightarrow> on_step_completed R H E raw eid wid name i dur
      | StepFailed eid _ _ i _ _ _ \<Rightarrow> on_step_failed R H E ev raw eid i
      | ExecutionCompleted eid wid st dur cost _ \<Rightarrow> on_execution_completed R H E ev eid wid st dur cost
      | ExecutionPaused eid _ _ _ \<Rightarrow> on_execution_paused ev eid
      | MemoryWritten item _ \<Rightarrow> on_memory_written ev item
      | MemorySearched _ _ latency_ms _ \<Rightarrow> on_memory_searched latency_ms)"

section \<open>The audit record of an event\<close>

definition audit_record :: "event \<Rightarrow> string \<Rightarrow> uuid \<Rightarrow> audit" where
  "audit_record ev action resource =
     \<lparr>au_tenant_id = ev_tenant_id ev, au_actor_id = None, au_action = action,
      au_resource_id = Some resource, au_extra_metadata = []\<rparr>"

definition audit_of :: "event \<Rightarrow> audit option" where
  "audit_of ev =
     (case ev_body ev of
        ExecutionStarted eid _ \<Rightarrow> Some (audit_record ev ''execution.started'' eid)
      | StepCompleted _ _ _ _ _ _ _ \<Rightarrow> None
      | StepFailed eid _ _ _ _ _ _ \<Rightarrow> Some (audit_record ev ''execution.step.failed'' eid)
      | ExecutionCompleted eid _ st _ _ _ \<Rightarrow> Some (audit_record ev (''execution.'' @ lower (status_value st)) eid)
      | ExecutionPaused eid _ _ _ \<Rightarrow> Some (audit_record ev ''execution.paused'' eid)
      | MemoryWritten item _ \<Rightarrow> Some (audit_record ev ''memory.written'' item)
      | MemorySearched _ _ _ _ \<Rightarrow> None)"

text \<open>What no handler touches: the tables and the stream server change only at a commit and an ack.\<close>

definition same_tables :: "('q, 'r) obs \<Rightarrow> ('q, 'r) obs \<Rightarrow> bool" where
  "same_tables w w' \<longleftrightarrow> os_streams w' = os_streams w \<and> os_audit w' = os_audit w \<and> os_traces w' = os_traces w \<and>
     os_processed w' = os_processed w"

lemma same_tables_refl [simp]: "same_tables w w"
  by (simp add: same_tables_def)

lemma same_tables_trans: "same_tables w w' \<Longrightarrow> same_tables w' w'' \<Longrightarrow> same_tables w w''"
  by (simp add: same_tables_def)

definition keeps_tables :: "(('q, 'r) obs, 'a) py \<Rightarrow> bool" where
  "keeps_tables m \<longleftrightarrow> (\<forall>w. wp m (\<lambda>_. same_tables w) (\<lambda>_. same_tables w) w)"

named_theorems keeps "computations that leave the tables and the streams alone"

lemma keeps_andthen [keeps]:
  assumes "keeps_tables m" and "\<And>a. keeps_tables (f a)"
  shows "keeps_tables (andthen m f)"
  unfolding keeps_tables_def
proof
  fix w
  have 1: "wp m (\<lambda>_. same_tables w) (\<lambda>_. same_tables w) w" using assms(1) by (simp add: keeps_tables_def)
  have 2: "wp (f a) (\<lambda>_. same_tables w) (\<lambda>_. same_tables w) w'" if "same_tables w w'" for a w'
  proof (rule wp_mono)
    show "wp (f a) (\<lambda>_. same_tables w') (\<lambda>_. same_tables w') w'"
      using assms(2) by (simp add: keeps_tables_def)
  qed (blast intro: same_tables_trans [OF that])+
  show "wp (andthen m f) (\<lambda>_. same_tables w) (\<lambda>_. same_tables w) w"
    by (rule wp_bind [OF 1]) (auto intro: 2)
qed

lemma keeps_seq [keeps]: "keeps_tables m \<Longrightarrow> keeps_tables n \<Longrightarrow> keeps_tables (seq m n)"
  by (simp add: seq_def keeps_andthen)

lemma keeps_if [keeps]: "keeps_tables m \<Longrightarrow> keeps_tables n \<Longrightarrow> keeps_tables (if b then m else n)"
  by simp

lemma keeps_basic [keeps]:
  "keeps_tables (ret a)" "keeps_tables (Pair res)" "keeps_tables (liftsum res)" "keeps_tables (obs_tick f)" "keeps_tables (gets g)"
  "keeps_tables (obs_add x)" "keeps_tables (obs_flush E)" "keeps_tables (record_metric h)"
  by (auto simp: keeps_tables_def same_tables_def split: sum.splits option.splits)

lemma keeps_buffer_cmd [keeps]: "keeps_tables (buffer_cmd E f)"
  by (auto simp: keeps_tables_def same_tables_def split: option.splits prod.splits)

lemma keeps_write_span [keeps]: "keeps_tables (write_span E tid wid d)"
  unfolding write_span_def by (intro keeps)

lemma keeps_write_spans [keeps]: "keeps_tables (write_spans E tid wid ds)"
  by (induction ds) (auto intro: keeps)

lemma keeps_sampler [keeps]:
  "keeps_tables (buffer_span R H E eid k d)" "keeps_tables (mark_has_failure R E eid)"
  "keeps_tables (should_keep R E eid dur)" "keeps_tables (sampler_flush R H E eid)"
  unfolding buffer_span_def mark_has_failure_def should_keep_def sampler_flush_def Let_def
  by (intro keeps)+

text \<open>A handler that ends by writing its audit record.\<close>

lemma audited_last:
  assumes "keeps_tables m"
  shows "wp (seq m (write_audit (ev_tenant_id ev) act (Some i)))
     (\<lambda>_ w'. same_tables w w' \<and> NewAudit (audit_record ev act i) \<in> set (os_new w')) (\<lambda>_ w'. same_tables w w') w"
  using assms [unfolded keeps_tables_def, rule_format, of w]
  by (auto simp: write_audit_def audit_record_def same_tables_def elim!: wp_mono)

lemma handled_audited:
  fixes w :: "('q, 'r) obs" and m :: "(('q, 'r) obs, unit) py"
  assumes "handle R H E ev raw = seq m (write_audit (ev_tenant_id ev) act (Some i))"
    and "audit_of ev = Some (audit_record ev act i)" and "keeps_tables m"
  shows "wp (handle R H E ev raw)
     (\<lambda>_ w'. same_tables w w' \<and> (\<forall>a. audit_of ev = Some a \<longrightarrow> NewAudit a \<in> set (os_new w')))
     (\<lambda>_ w'. same_tables w w') w"
  unfolding assms(1) by (rule wp_mono [OF audited_last [OF assms(3)]]) (simp_all add: assms(2))

lemma handled_silent:
  fixes w :: "('q, 'r) obs"
  assumes "audit_of ev = None" and "keeps_tables (handle R H E ev raw :: (('q, 'r) obs, unit) py)"
  shows "wp (handle R H E ev raw)
     (\<lambda>_ w'. same_tables w w' \<and> (\<forall>a. audit_of ev = Some a \<longrightarrow> NewAudit a \<in> set (os_new w')))
     (\<lambda>_ w'. same_tables w w') w"
  using assms by (simp add: keeps_tables_def)

lemma seq_assoc: "seq a (seq b c) = seq (seq a b) c"
  and seq_andthen: "andthen a' (\<lambda>x. seq (f x) c) = seq (andthen a' f) c"
  and seq_ret: "seq (ret ()) c = c"
  by (auto simp: py_defs fun_eq_iff split: prod.splits sum.splits)

lemma handle_effect:
  "wp (handle R H E ev raw)
     (\<lambda>_ w'. same_tables w w' \<and> (\<forall>a. audit_of ev = Some a \<longrightarrow> NewAudit a \<in> set (os_new w')))
     (\<lambda>_ w'. same_tables w w') w"
proof (cases "ev_body ev")
  case (ExecutionStarted eid wid)
  then show ?thesis
    by (intro handled_audited) (auto simp: handle_def on_execution_started_def seq_assoc audit_of_def intro: keeps)
next
  case (StepCompleted eid wid name i dur c outs)
  then show ?thesis
    by (intro handled_silent) (auto simp: handle_def on_step_completed_def audit_of_def intro: keeps)
next
  case (StepFailed eid wid name i t m r)
  then show ?thesis
    by (intro handled_audited) (auto simp: handle_def on_step_failed_def seq_assoc audit_of_def intro: keeps)
next
  case (ExecutionCompleted eid wid st dur cost n)
  then show ?thesis
    by (intro handled_audited)
      (auto simp: handle_def on_execution_completed_def seq_assoc seq_andthen audit_of_def intro!: keeps)
next
  case (ExecutionPaused eid wid r s)
  then show ?thesis
    by (intro handled_audited [where m = "ret ()"])
      (auto simp: handle_def on_execution_paused_def seq_ret audit_of_def intro: keeps)
next
  case (MemoryWritten item t)
  then show ?thesis
    by (intro handled_audited [where m = "ret ()"])
      (auto simp: handle_def on_memory_written_def seq_ret audit_of_def intro: keeps)
next
  case (MemorySearched q n l h)
  then show ?thesis by (intro handled_silent) (auto simp: handle_def on_memory_searched_def audit_of_def intro: keeps)
qed

section \<open>Handling an event in a session\<close>

lemma set_trace_extend: "NewAudit a \<in> set xs \<Longrightarrow>
    \<exists>r \<in> set (audit_rows (map (\<lambda>(i, x). stored_row (f i) now x) (enumerate n xs))). audit.truncate r = a"
proof (induction xs arbitrary: n)
  case (Cons x xs)
  show ?case
  proof (cases x)
    case (NewAudit b)
    have "audit.truncate (audit.extend b \<lparr>au_id = f n, au_timestamp = now\<rparr>) = b"
      by (simp add: audit.truncate_def audit.extend_def)
    with NewAudit Cons show ?thesis by auto
  qed (use Cons in auto)
qed simp

lemma session_handle_effect:
  "wp (obs_session E (handle R H E ev raw))
     (\<lambda>_ w'. os_streams w' = os_streams w \<and> os_processed w' = os_processed w \<and> set (os_audit w) \<subseteq> set (os_audit w') \<and>
        (\<forall>a. audit_of ev = Some a \<longrightarrow> (\<exists>r \<in> set (os_audit w'). audit.truncate r = a)))
     (\<lambda>_ w'. same_tables w w') w"
proof -
  have h: "wp (handle R H E ev raw)
     (\<lambda>_ w'. same_tables w w' \<and> (\<forall>a. audit_of ev = Some a \<longrightarrow> NewAudit a \<in> set (os_new w')))
     (\<lambda>_ w'. same_tables w w') (close_session w)"
    by (rule wp_mono [OF handle_effect]) (simp_all add: same_tables_def)
  show ?thesis
    unfolding obs_session_def
    by simp (rule wp_mono [OF h];
      auto simp: same_tables_def insert_new_def Let_def obs_commit_def dest!: set_trace_extend
        split: option.splits)
qed

end
