(* ===== verification/Trace_Sampling.thy ===== *)
theory Trace_Sampling
  imports Event_Handler
begin

text \<open>
  What the tail sampler keeps of an execution. \<open>sampled\<close> is the specification: the messages of
  an execution as a map from span keys to the last message, and whether a step failed. The
  handlers implement it on the Redis buffer as long as no command fails and the buffer does not
  expire between the events.
\<close>

section \<open>Specification\<close>

fun span_key :: "event_body \<Rightarrow> (uuid \<times> string) option" where
  "span_key (ExecutionStarted e _) = Some (e, ''started:'' @ uuid_str e)"
| "span_key (StepCompleted e _ _ i _ _ _) = Some (e, ''step:'' @ str_nat i)"
| "span_key (StepFailed e _ _ i _ _ _) = Some (e, ''step_failed:'' @ str_nat i)"
| "span_key _ = None"

fun step_failed :: "uuid \<Rightarrow> event_body \<Rightarrow> bool" where
  "step_failed eid (StepFailed e _ _ _ _ _ _) \<longleftrightarrow> e = eid"
| "step_failed eid _ \<longleftrightarrow> False"

type_synonym spans = "string \<Rightarrow> (string \<times> string) list option"

definition sampled :: "uuid \<Rightarrow> event \<times> (string \<times> string) list \<Rightarrow> spans \<Rightarrow> spans" where
  "sampled eid m sp = (case span_key (ev_body (fst m)) of
     Some (e, k) \<Rightarrow> if e = eid then sp(k \<mapsto> snd m) else sp
   | None \<Rightarrow> sp)"

definition is_completion :: "event_body \<Rightarrow> bool" where
  "is_completion b \<longleftrightarrow> (\<exists>e w st d c n. b = ExecutionCompleted e w st d c n)"

section \<open>One event\<close>

text \<open>No command fails; both texts of the buffer can be read back.\<close>

definition calm :: "obs_env \<Rightarrow> bool" where
  "calm E \<longleftrightarrow> oe_buffer_fails E = (\<lambda>_. None) \<and> oe_db_fails E = (\<lambda>_. None) \<and>
     0 < os_trace_buffer_ttl_seconds (oe_settings E)"

lemma calm_simps [simp]:
  "calm E \<Longrightarrow> oe_buffer_fails E t = None" "calm E \<Longrightarrow> oe_db_fails E t = None"
  "calm E \<Longrightarrow> 0 < os_trace_buffer_ttl_seconds (oe_settings E)"
  by (simp_all add: calm_def)

fun new_traces :: "obs_object list \<Rightarrow> trace list" where
  "new_traces [] = []"
| "new_traces (NewTrace t # xs) = t # new_traces xs"
| "new_traces (NewAudit a # xs) = new_traces xs"

lemma new_traces_append [simp]: "new_traces (xs @ ys) = new_traces xs @ new_traces ys"
  by (induction xs rule: new_traces.induct) simp_all

lemma new_traces_map [simp]: "new_traces (map (NewTrace \<circ> f \<circ> g) xs) = map (f \<circ> g) xs"
  by (induction xs) simp_all

text \<open>The trace rows of the open session, flushed or not.\<close>

definition pending_traces :: "('q, 'r) obs \<Rightarrow> trace list" where
  "pending_traces w = map trace.truncate (trace_rows (os_flushed w)) @ new_traces (os_new w)"

lemma truncate_extend [simp]: "trace.truncate (trace.extend t x) = t"
  by (simp add: trace.truncate_def trace.extend_def)

lemma stored_traces: "map trace.truncate (trace_rows (map (\<lambda>(i, x). stored_row (f i) now x) (enumerate n xs))) = new_traces xs"
  by (induction xs arbitrary: n rule: new_traces.induct) simp_all

lemma flushed_insert [simp]:
  "map trace.truncate (trace_rows (os_flushed (insert_new E w))) =
     map trace.truncate (trace_rows (os_flushed w)) @ new_traces (os_new w)"
  by (simp add: insert_new_def Let_def stored_traces)

lemma pending_insert [simp]: "pending_traces (insert_new E w) = pending_traces w"
  by (simp add: pending_traces_def)

lemma pending_simps [simp]:
  "pending_traces (close_session w) = []" "pending_traces (w\<lparr>os_tick := t\<rparr>) = pending_traces w"
  "pending_traces (w\<lparr>os_buffer := r\<rparr>) = pending_traces w" "pending_traces (w\<lparr>os_metrics := m\<rparr>) = pending_traces w"
  "pending_traces (w\<lparr>os_new := os_new w @ xs\<rparr>) = pending_traces w @ new_traces xs"
  by (simp_all add: pending_traces_def)

lemma flushed_pending: "os_new w = [] \<Longrightarrow> map trace.truncate (trace_rows (os_flushed w)) = pending_traces w"
  by (simp add: pending_traces_def)

lemma wp_calm_commit:
  assumes "calm E"
  shows "wp (obs_commit E) (\<lambda>_ w'. os_buffer w' = os_buffer w \<and>
    map trace.truncate (os_traces w') = map trace.truncate (os_traces w) @ pending_traces w) (\<lambda>_ _. False) w"
  using assms flushed_pending [of w] flushed_pending [of "insert_new E (w\<lparr>os_tick := Suc (os_tick w)\<rparr>)"]
  by (auto simp: obs_commit_def)

lemma wp_calm_session:
  assumes "calm E"
    and "wp body (\<lambda>a w1. \<forall>w'. os_buffer w' = os_buffer w1 \<longrightarrow>
        map trace.truncate (os_traces w') = map trace.truncate (os_traces w1) @ pending_traces w1 \<longrightarrow> Q a w')
      (\<lambda>_ _. False) (close_session w)"
  shows "wp (obs_session E body) Q X w"
proof -
  have "wp (obs_commit E) (\<lambda>_. wp (ret a) Q Z) Y w1"
    if "\<forall>w'. os_buffer w' = os_buffer w1 \<longrightarrow>
      map trace.truncate (os_traces w') = map trace.truncate (os_traces w1) @ pending_traces w1 \<longrightarrow> Q a w'" for a w1 Y Z
    by (rule wp_mono [OF wp_calm_commit [OF assms(1)]]) (use that in auto)
  then show ?thesis
    unfolding obs_session_def by simp (rule wp_mono [OF assms(2)]; simp)
qed

fun handle_all ::
  "'r redis_ops \<Rightarrow> 'r hash_ops \<Rightarrow> obs_env \<Rightarrow> (event \<times> (string \<times> string) list) list \<Rightarrow> (('q, 'r) obs, unit) py" where
  "handle_all R H E [] = ret ()"
| "handle_all R H E ((ev, raw) # ms) = seq (obs_session E (handle R H E ev raw)) (handle_all R H E ms)"

text \<open>What the sampler decides: a failed step and a long duration keep everything.\<close>

definition keeps_trace :: "obs_env \<Rightarrow> bool \<Rightarrow> nat \<Rightarrow> nat \<Rightarrow> bool" where
  "keeps_trace E failed dur t \<longleftrightarrow> failed \<or> int dur > os_slow_execution_threshold_ms (oe_settings E) \<or>
     oe_random E t < os_fast_execution_sample_rate (oe_settings E)"

lemma ran_sampled: "ran (fold (sampled eid) ms sp) \<subseteq> ran sp \<union> snd ` set ms"
proof (induction ms arbitrary: sp)
  case (Cons m ms)
  have "ran (sampled eid m sp) \<subseteq> ran sp \<union> {snd m}"
    by (auto simp: sampled_def ran_def split: option.splits if_splits)
  with Cons [of "sampled eid m sp"] show ?case by auto
qed simp

context redis_hash
begin

definition buffer_inv :: "obs_env \<Rightarrow> uuid \<Rightarrow> spans \<Rightarrow> bool \<Rightarrow> 'r \<Rightarrow> bool" where
  "buffer_inv E eid sp failed r \<longleftrightarrow>
     (\<forall>e. view r (buffer_key e) = None) \<and>
     (if failed then \<exists>t. view r (failure_key eid) = Some (''1'', t) else view r (failure_key eid) = None) \<and>
     distinct (map fst (hash_fields (hview r) (buffer_key eid))) \<and>
     map_of (hash_fields (hview r) (buffer_key eid)) = map_option (oe_dumps E) \<circ> sp"

lemma buffer_inv_span:
  assumes "buffer_inv E eid sp failed r" and "0 < ttl"
  shows "buffer_inv E eid (if e = eid then sp(k \<mapsto> d) else sp) failed
    (r_expire R (buffer_key e) ttl (r_hset H (buffer_key e) k (oe_dumps E d) r))"
proof -
  let ?r = "r_hset H (buffer_key e) k (oe_dumps E d) r"
  have none: "view r (buffer_key e) = None" using assms(1) by (simp add: buffer_inv_def)
  then have view: "view (r_expire R (buffer_key e) ttl ?r) = view r"
    using assms(2) by (simp add: expire_view hset_view)
  have fields: "hash_fields (hview (r_expire R (buffer_key e) ttl ?r)) k' = hash_fields (hview ?r) k'" for k'
    using assms(2) none by (auto simp: hexpire_view hset_view hash_fields_def split: option.splits)
  have other: "e \<noteq> eid \<Longrightarrow> hash_fields (hview ?r) (buffer_key eid) = hash_fields (hview r) (buffer_key eid)"
    using hset_other [OF none] by (simp add: hash_fields_def key_inj)
  from assms(1) show ?thesis
    unfolding buffer_inv_def view fields
    using hset_fields [OF none] hset_distinct [OF none] other by (auto simp: fun_eq_iff)
qed

lemma buffer_inv_fail:
  assumes "buffer_inv E eid sp failed r" and "0 < ttl"
  shows "buffer_inv E eid sp (failed \<or> e = eid) (r_setex R (failure_key e) ttl ''1'' r)"
  using assms by (auto simp: buffer_inv_def setex_view hsetex_view hash_fields_def key_inj)

lemma handle_sampled:
  assumes "calm E" and "\<not> is_completion (ev_body ev)" and "buffer_inv E eid sp failed (os_buffer w)"
  shows "wp (obs_session E (handle R H E ev raw))
    (\<lambda>_ w'. map trace.truncate (os_traces w') = map trace.truncate (os_traces w) \<and>
       buffer_inv E eid (sampled eid (ev, raw) sp) (failed \<or> step_failed eid (ev_body ev)) (os_buffer w'))
    X w"
proof -
  let ?ttl = "os_trace_buffer_ttl_seconds (oe_settings E)"
  let ?buf = "\<lambda>e k. r_expire R (buffer_key e) ?ttl (r_hset H (buffer_key e) k (oe_dumps E raw) (os_buffer w))"
  have same: "buffer_inv E eid (sp(k \<mapsto> raw)) failed (?buf eid k)"
    and other: "e \<noteq> eid \<Longrightarrow> buffer_inv E eid sp failed (?buf e k)" for e k
    using buffer_inv_span [OF assms(3), of ?ttl eid k raw] buffer_inv_span [OF assms(3), of ?ttl e k raw] assms(1)
    by simp_all
  have "buffer_inv E eid (sp(k \<mapsto> raw)) True (r_setex R (failure_key eid) ?ttl ''1'' (?buf eid k))"
    and "e \<noteq> eid \<Longrightarrow> buffer_inv E eid sp failed (r_setex R (failure_key e) ?ttl ''1'' (?buf e k))" for e k
    using buffer_inv_fail [OF same, where ttl = ?ttl and e = eid] buffer_inv_fail [OF other, where ttl = ?ttl and e = e]
      assms(1) by auto
  with assms same other show ?thesis
    by (intro wp_calm_session [OF assms(1)], cases "ev_body ev")
      (auto simp: handle_def is_completion_def sampled_def on_execution_started_def on_step_completed_def
        on_step_failed_def on_execution_paused_def on_memory_written_def on_memory_searched_def
        buffer_span_def mark_has_failure_def write_audit_def Let_def pending_traces_def)
qed


text \<open>The events of an execution one after another, each in its own session.\<close>

lemma handle_all_sampled:
  fixes w :: "('q, 'r) obs"
  assumes "calm E" and "\<forall>m \<in> set ms. \<not> is_completion (ev_body (fst m))" and "buffer_inv E eid sp failed (os_buffer w)"
  shows "wp (handle_all R H E ms)
    (\<lambda>_ w'. map trace.truncate (os_traces w') = map trace.truncate (os_traces w) \<and>
       buffer_inv E eid (fold (sampled eid) ms sp)
         (failed \<or> (\<exists>m \<in> set ms. step_failed eid (ev_body (fst m)))) (os_buffer w')) X w"
  using assms(2,3)
proof (induction ms arbitrary: w sp failed)
  case (Cons m ms)
  obtain ev raw where m: "m = (ev, raw)" by fastforce
  have "\<not> is_completion (ev_body ev)" using Cons.prems(1) m by simp
  note first = handle_sampled [OF assms(1) this Cons.prems(2)]
  show ?case
    unfolding m handle_all.simps wp_seq
  proof (rule wp_mono [OF first])
    fix w' :: "('q, 'r) obs"
    assume 1: "map trace.truncate (os_traces w') = map trace.truncate (os_traces w) \<and>
      buffer_inv E eid (sampled eid (ev, raw) sp) (failed \<or> step_failed eid (ev_body ev)) (os_buffer w')"
    have "\<forall>m \<in> set ms. \<not> is_completion (ev_body (fst m))" using Cons.prems(1) by simp
    from Cons.IH [OF this conjunct2 [OF 1]] conjunct1 [OF 1]
    show "wp (handle_all R H E ms) (\<lambda>_ w'. map trace.truncate (os_traces w') = map trace.truncate (os_traces w) \<and>
       buffer_inv E eid (fold (sampled eid) ((ev, raw) # ms) sp)
         (failed \<or> (\<exists>m \<in> set ((ev, raw) # ms). step_failed eid (ev_body (fst m)))) (os_buffer w')) X w'"
      by (simp add: disj_assoc)
  qed
qed simp

section \<open>The completion\<close>

lemma write_spans_rows:
  assumes "\<forall>d \<in> set ds. \<forall>u1 u2. span_of E u1 u2 tid wid d = Inr (row d)"
  shows "wp (write_spans E tid wid ds) Q X w =
    Q () (w\<lparr>os_new := os_new w @ map (NewTrace \<circ> row) ds, os_tick := os_tick w + 2 * length ds\<rparr>)"
  using assms by (induction ds arbitrary: w) (simp_all add: write_span_def)

lemma loads_all_dumps:
  assumes "\<forall>d \<in> set ds. oe_loads E (oe_dumps E d) = Inr d"
  shows "loads_all E (map (oe_dumps E) ds) = Inr ds"
  using assms by (induction ds) simp_all

lemma buffer_messages:
  assumes "buffer_inv E eid sp failed r"
  obtains ks where "distinct ks" and "set ks = dom sp"
    and "map snd (hash_fields (hview r) (buffer_key eid)) = map (oe_dumps E) (map (the \<circ> sp) ks)"
proof -
  let ?fs = "hash_fields (hview r) (buffer_key eid)"
  have d: "distinct (map fst ?fs)" and m: "map_of ?fs = map_option (oe_dumps E) \<circ> sp"
    using assms by (simp_all add: buffer_inv_def)
  have "set (map fst ?fs) = dom (map_of ?fs)" by (simp add: dom_map_of_conv_image_fst)
  then have "set (map fst ?fs) = dom sp" by (simp add: m dom_def)
  moreover have "snd f = oe_dumps E (the (sp (fst f)))" if "f \<in> set ?fs" for f
    using map_of_is_SomeI [OF d, of "fst f" "snd f"] that m by (auto simp: o_def)
  ultimately show ?thesis using that [OF d] by simp
qed


lemma completion_sampled:
  assumes "calm E" and "buffer_inv E eid sp failed (os_buffer w)"
    and "ev_body ev = ExecutionCompleted eid wid st dur cost n"
    and "\<forall>d \<in> ran sp. oe_loads E (oe_dumps E d) = Inr d"
    and "\<forall>d \<in> ran sp. \<forall>u1 u2. span_of E u1 u2 (ev_tenant_id ev) wid d = Inr (row d)"
  shows "wp (obs_session E (handle R H E ev raw))
    (\<lambda>_ w'. buffer_inv E eid Map.empty False (os_buffer w') \<and>
       (\<exists>ks. distinct ks \<and> set ks = dom sp \<and> map trace.truncate (os_traces w') = map trace.truncate (os_traces w) @
         (if keeps_trace E failed dur (os_tick w + 1)
          then completion_trace ev eid wid st dur cost # map (row \<circ> the \<circ> sp) ks else []))) X w"
proof -
  obtain ks where ks: "distinct ks" "set ks = dom sp"
    and fields: "map snd (hash_fields (hview (os_buffer w)) (buffer_key eid)) = map (oe_dumps E) (map (the \<circ> sp) ks)"
    using buffer_messages [OF assms(2)] by blast
  let ?ds = "map (the \<circ> sp) ks"
  have in_ran: "d \<in> ran sp" if "d \<in> set ?ds" for d using that ks(2) by (auto simp: ran_def)
  have loads: "loads_all E (map snd (r_hgetall H (buffer_key eid) (os_buffer w))) = Inr ?ds"
    unfolding hgetall_view fields by (rule loads_all_dumps) (use in_ran assms(4) in blast)
  have spans: "wp (write_spans E (ev_tenant_id ev) wid ?ds) Q Y v =
    Q () (v\<lparr>os_new := os_new v @ map (NewTrace \<circ> row) ?ds, os_tick := os_tick v + 2 * length ?ds\<rparr>)"
    for Q Y and v :: "('a, 'r) obs"
    by (rule write_spans_rows) (use in_ran assms(5) in blast)
  have flag: "(r_get R (failure_key eid) (os_buffer w) \<noteq> None \<and> r_get R (failure_key eid) (os_buffer w) \<noteq> Some []) = failed"
    using assms(2) by (auto simp: buffer_inv_def get_view split: if_splits)
  let ?r = "r_del R (failure_key eid) (r_del R (buffer_key eid) (os_buffer w))"
  have cleared: "buffer_inv E eid Map.empty False ?r"
    using assms(2) by (auto simp: buffer_inv_def del_view hdel_view hash_fields_def)
  have handled: "wp (handle R H E ev raw) (\<lambda>_ w1. os_buffer w1 = ?r \<and> os_traces w1 = os_traces w \<and>
      pending_traces w1 = (if keeps_trace E failed dur (os_tick w + 1)
        then completion_trace ev eid wid st dur cost # map row ?ds else [])) (\<lambda>_ _. False) (close_session w)"
    using flag
    by (auto simp: handle_def assms(3) on_execution_completed_def should_keep_def sampler_flush_def Let_def
        calm_simps [OF assms(1)] loads spans keeps_trace_def write_audit_def pending_traces_def)
  show ?thesis
    by (rule wp_calm_session [OF assms(1)], rule wp_mono [OF handled]) (use cleared ks in \<open>auto simp: o_def\<close>)
qed


lemma buffer_inv_empty:
  assumes "\<forall>e. view r (buffer_key e) = None" and "view r (failure_key eid) = None"
    and "hview r (buffer_key eid) = None"
  shows "buffer_inv E eid Map.empty False r"
  using assms by (auto simp: buffer_inv_def hash_fields_def)

text \<open>A completion whose session the database refuses: the buffer is gone all the same.\<close>

lemma completion_refused:
  assumes "oe_buffer_fails E = (\<lambda>_. None)" and "oe_db_fails E = (\<lambda>_. Some e)"
    and "buffer_inv E eid sp failed (os_buffer w)"
    and "ev_body ev = ExecutionCompleted eid wid st dur cost n"
    and "\<forall>d \<in> ran sp. oe_loads E (oe_dumps E d) = Inr d"
    and "\<forall>d \<in> ran sp. \<forall>u1 u2. span_of E u1 u2 (ev_tenant_id ev) wid d = Inr (row d)"
  shows "wp (obs_session E (handle R H E ev raw)) (\<lambda>_ _. False)
    (\<lambda>e' w'. e' = e \<and> same_tables w w' \<and> buffer_inv E eid Map.empty False (os_buffer w')) w"
proof -
  obtain ks where ks: "distinct ks" "set ks = dom sp"
    and fields: "map snd (hash_fields (hview (os_buffer w)) (buffer_key eid)) = map (oe_dumps E) (map (the \<circ> sp) ks)"
    using buffer_messages [OF assms(3)] by blast
  let ?ds = "map (the \<circ> sp) ks"
  have in_ran: "d \<in> ran sp" if "d \<in> set ?ds" for d using that ks(2) by (auto simp: ran_def)
  have loads: "loads_all E (map snd (r_hgetall H (buffer_key eid) (os_buffer w))) = Inr ?ds"
    unfolding hgetall_view fields by (rule loads_all_dumps) (use in_ran assms(5) in blast)
  have spans: "wp (write_spans E (ev_tenant_id ev) wid ?ds) Q Y v =
    Q () (v\<lparr>os_new := os_new v @ map (NewTrace \<circ> row) ?ds, os_tick := os_tick v + 2 * length ?ds\<rparr>)"
    for Q Y and v :: "('a, 'r) obs"
    by (rule write_spans_rows) (use in_ran assms(6) in blast)
  let ?r = "r_del R (failure_key eid) (r_del R (buffer_key eid) (os_buffer w))"
  have cleared: "buffer_inv E eid Map.empty False ?r"
    using assms(3) by (auto simp: buffer_inv_def del_view hdel_view hash_fields_def)
  have flag: "(r_get R (failure_key eid) (os_buffer w) \<noteq> None \<and> r_get R (failure_key eid) (os_buffer w) \<noteq> Some []) = failed"
    using assms(3) by (auto simp: buffer_inv_def get_view split: if_splits)
  have handled: "wp (handle R H E ev raw) (\<lambda>_ w1. os_buffer w1 = ?r \<and> same_tables w w1)
      (\<lambda>e' w1. e' = e \<and> os_buffer w1 = ?r \<and> same_tables w w1) (close_session w)"
    using flag
    by (auto simp: handle_def assms(1,2,4) on_execution_completed_def should_keep_def sampler_flush_def Let_def
        loads spans write_audit_def same_tables_def)
  show ?thesis
    unfolding obs_session_def
    by (simp, rule wp_mono [OF handled]) (auto simp: obs_commit_def assms(2) same_tables_def cleared)
qed

end

section \<open>Properties\<close>

text \<open>
  C33: The events of an execution, handled in order without a failing command or an expired buffer, are
  all kept when a step failed or the execution was slow: the completion writes its own row and exactly
  one row for every distinct span, from the last message that carried it. A fast execution without a
  failure that the sample rate does not draw leaves no row. The buffer is empty afterwards.
\<close>

lemma kept_trace_is_complete:
  fixes w :: "('q, 'r) obs"
  assumes "redis_hash R view H hview" and "calm E" and "\<forall>m \<in> set ms. \<not> is_completion (ev_body (fst m))"
    and "\<forall>e. view (os_buffer w) (buffer_key e) = None" and "view (os_buffer w) (failure_key eid) = None"
    and "hview (os_buffer w) (buffer_key eid) = None"
    and "ev_body ev = ExecutionCompleted eid wid st dur cost n"
    and "\<forall>m \<in> set ms. oe_loads E (oe_dumps E (snd m)) = Inr (snd m)"
    and "\<forall>m \<in> set ms. \<forall>u1 u2. span_of E u1 u2 (ev_tenant_id ev) wid (snd m) = Inr (row (snd m))"
    and "sp = fold (sampled eid) ms Map.empty"
    and "must = (int dur > os_slow_execution_threshold_ms (oe_settings E) \<or>
      (\<exists>m \<in> set ms. step_failed eid (ev_body (fst m))))"
  shows "\<exists>w' ks. seq (handle_all R H E ms) (obs_session E (handle R H E ev raw)) w = (Inr (), w') \<and>
    distinct ks \<and> set ks = dom sp \<and>
    (must \<longrightarrow> map trace.truncate (os_traces w') = map trace.truncate (os_traces w) @
       completion_trace ev eid wid st dur cost # map (row \<circ> the \<circ> sp) ks) \<and>
    (\<not> must \<and> (\<forall>t. os_fast_execution_sample_rate (oe_settings E) \<le> oe_random E t) \<longrightarrow>
       map trace.truncate (os_traces w') = map trace.truncate (os_traces w)) \<and>
    hash_fields (hview (os_buffer w')) (buffer_key eid) = []"
proof -
  note inv = redis_hash.buffer_inv_empty [OF assms(1) assms(4-6), of E]
  let ?failed = "\<exists>m \<in> set ms. step_failed eid (ev_body (fst m))"
  have "d \<in> snd ` set ms" if "d \<in> ran sp" for d using that ran_sampled [of eid ms Map.empty] assms(10) by auto
  then have texts: "\<forall>d \<in> ran sp. oe_loads E (oe_dumps E d) = Inr d"
    and rows: "\<forall>d \<in> ran sp. \<forall>u1 u2. span_of E u1 u2 (ev_tenant_id ev) wid d = Inr (row d)"
    using assms(8,9) by blast+
  have "wp (seq (handle_all R H E ms) (obs_session E (handle R H E ev raw)))
    (\<lambda>_ w'. redis_hash.buffer_inv view hview E eid Map.empty False (os_buffer w') \<and>
       (\<exists>ks t. distinct ks \<and> set ks = dom sp \<and> map trace.truncate (os_traces w') = map trace.truncate (os_traces w) @
         (if keeps_trace E ?failed dur t
          then completion_trace ev eid wid st dur cost # map (row \<circ> the \<circ> sp) ks else []))) (\<lambda>_ _. False) w"
    unfolding wp_seq
  proof (rule wp_mono [OF redis_hash.handle_all_sampled [OF assms(1-3) inv]])
    fix w1 :: "('q, 'r) obs"
    assume 1: "map trace.truncate (os_traces w1) = map trace.truncate (os_traces w) \<and>
      redis_hash.buffer_inv view hview E eid (fold (sampled eid) ms Map.empty) (False \<or> ?failed) (os_buffer w1)"
    then have "redis_hash.buffer_inv view hview E eid sp ?failed (os_buffer w1)" using assms(10) by simp
    note last = redis_hash.completion_sampled [OF assms(1,2) this assms(7) texts rows]
    show "wp (obs_session E (handle R H E ev raw)) (\<lambda>_ w'. redis_hash.buffer_inv view hview E eid Map.empty False (os_buffer w') \<and>
       (\<exists>ks t. distinct ks \<and> set ks = dom sp \<and> map trace.truncate (os_traces w') = map trace.truncate (os_traces w) @
         (if keeps_trace E ?failed dur t
          then completion_trace ev eid wid st dur cost # map (row \<circ> the \<circ> sp) ks else []))) (\<lambda>_ _. False) w1"
      unfolding conjunct1 [OF 1, symmetric] by (rule wp_mono [OF last]) fast+
  qed
  then obtain u w' ks t where run: "seq (handle_all R H E ms) (obs_session E (handle R H E ev raw)) w = (Inr u, w')"
    and inv': "redis_hash.buffer_inv view hview E eid Map.empty False (os_buffer w')"
    and ks: "distinct ks" "set ks = dom sp"
    and rows': "map trace.truncate (os_traces w') = map trace.truncate (os_traces w) @
      (if keeps_trace E ?failed dur t then completion_trace ev eid wid st dur cost # map (row \<circ> the \<circ> sp) ks else [])"
    unfolding wp_Inr by blast
  have "map_of (hash_fields (hview (os_buffer w')) (buffer_key eid)) = Map.empty"
    using inv' by (simp add: redis_hash.buffer_inv_def [OF assms(1)])
  then have "hash_fields (hview (os_buffer w')) (buffer_key eid) = []" by simp
  moreover have "must \<Longrightarrow> keeps_trace E ?failed dur t"
    and "\<not> must \<Longrightarrow> \<forall>t. os_fast_execution_sample_rate (oe_settings E) \<le> oe_random E t \<Longrightarrow>
      \<not> keeps_trace E ?failed dur t"
    by (auto simp: assms(11) keeps_trace_def not_less)
  ultimately show ?thesis using run ks rows' by (intro exI [of _ w'] exI [of _ ks]) simp
qed

text \<open>Two events of an execution, its completion, and an environment that draws no fast execution.\<close>

definition sample_started :: event where
  "sample_started = sample_event (ExecutionStarted 1 9)"

definition sample_failed :: event where
  "sample_failed = sample_event (StepFailed 1 9 ''a'' 0 ''TimeoutError'' ''late'' False)"

definition sample_completed :: event where
  "sample_completed = sample_event (ExecutionCompleted 1 9 COMPLETED 5 0 1)"

definition sample_raw :: "event \<Rightarrow> (string \<times> string) list" where
  "sample_raw ev = to_stream_dict sample_format ev"

definition sample_obs_env :: obs_env where
  "sample_obs_env =
     \<lparr>oe_settings = default_obs_settings ''host'', oe_pydantic = sample_pydantic, oe_uuid = word_of_nat,
      oe_now = (\<lambda>n. n), oe_random = (\<lambda>_. 1 / 2), oe_buffer_fails = (\<lambda>_. None), oe_db_fails = (\<lambda>_. None),
      oe_dumps = (\<lambda>d. dict_get d ''event_type'' ''none''),
      oe_loads = (\<lambda>s. if s = ''execution.started'' then Inr (sample_raw sample_started)
        else Inr (sample_raw sample_failed)),
      oe_float = rat_read\<rparr>"

definition sample_obs :: "'q \<Rightarrow> keyspace \<times> hashes \<Rightarrow> ('q, keyspace \<times> hashes) obs" where
  "sample_obs q r =
     \<lparr>os_streams = q, os_buffer = r, os_traces = [], os_audit = [], os_new = [], os_flushed = [],
      os_tx_start = None, os_metrics = new_metrics, os_processed = 0, os_tick = 0\<rparr>"

definition sample_row_of :: "(string \<times> string) list \<Rightarrow> trace" where
  "sample_row_of d = (case span_of sample_obs_env 0 0 7 9 d of Inr t \<Rightarrow> t)"

lemmas sample_obs_defs = sample_obs_env_def sample_started_def sample_failed_def sample_completed_def
  sample_raw_def sample_event_def default_obs_settings_def

lemma sample_raw_lookup: "map_of (sample_raw ev) k = map_option (flat_value sample_format) (map_of (model_dump ev) k)"
  by (simp add: sample_raw_def stream_dict_lookup)

lemma sample_span:
  assumes "ev \<in> {sample_started, sample_failed}"
  shows "span_of sample_obs_env u1 u2 7 9 (sample_raw ev) = Inr (sample_row_of (sample_raw ev))"
  using assms
  by (auto simp: sample_row_of_def span_of_def dict_get_def sample_raw_lookup model_dump_def sample_started_def
      sample_failed_def sample_event_def required_uuid_def uuid_parse_str optional_def int_base10_str_nat)

lemma sample_text:
  assumes "ev \<in> {sample_started, sample_failed}"
  shows "oe_loads sample_obs_env (oe_dumps sample_obs_env (sample_raw ev)) = Inr (sample_raw ev)"
  using assms
  by (auto simp: sample_obs_env_def dict_get_def sample_raw_lookup model_dump_def sample_started_def
      sample_failed_def sample_event_def)

lemma kept_trace_is_complete_witness:
  "\<exists>w'. seq (handle_all (lift_redis mem_redis) mem_hash sample_obs_env
          [(sample_started, sample_raw sample_started), (sample_failed, sample_raw sample_failed)])
        (obs_session sample_obs_env (handle (lift_redis mem_redis) mem_hash sample_obs_env sample_completed []))
        (sample_obs () (\<lambda>_. None, \<lambda>_. None)) = (Inr (), w') \<and> length (os_traces w') = 3"
proof -
  let ?ms = "[(sample_started, sample_raw sample_started), (sample_failed, sample_raw sample_failed)]"
  let ?w = "sample_obs () (\<lambda>_. None, \<lambda>_. None)"
  have 1: "calm sample_obs_env" by (simp add: calm_def sample_obs_defs)
  have 2: "\<forall>m \<in> set ?ms. \<not> is_completion (ev_body (fst m))" by (simp add: is_completion_def sample_obs_defs)
  have 3: "ev_body sample_completed = ExecutionCompleted 1 9 COMPLETED 5 0 1" by (simp add: sample_obs_defs)
  have 4: "\<forall>m \<in> set ?ms. oe_loads sample_obs_env (oe_dumps sample_obs_env (snd m)) = Inr (snd m)"
    by (simp add: sample_text)
  have "ev_tenant_id sample_completed = 7" by (simp add: sample_completed_def sample_event_def)
  then have 5: "\<forall>m \<in> set ?ms. \<forall>u1 u2. span_of sample_obs_env u1 u2 (ev_tenant_id sample_completed) 9 (snd m) =
      Inr (sample_row_of (snd m))"
    by (simp add: sample_span)
  have "\<exists>w' ks. seq (handle_all (lift_redis mem_redis) mem_hash sample_obs_env ?ms)
        (obs_session sample_obs_env (handle (lift_redis mem_redis) mem_hash sample_obs_env sample_completed [])) ?w =
        (Inr (), w') \<and> distinct ks \<and> set ks = dom (fold (sampled 1) ?ms Map.empty) \<and>
      map trace.truncate (os_traces w') = map trace.truncate (os_traces ?w) @
      completion_trace sample_completed 1 9 COMPLETED 5 0 #
        map (sample_row_of \<circ> the \<circ> fold (sampled 1) ?ms Map.empty) ks"
    using kept_trace_is_complete [OF mem_hash.redis_hash_axioms 1 2 _ _ _ 3 4 5 refl refl, of ?w "[]"]
    by (auto simp: sample_obs_def sample_failed_def sample_event_def simp del: fold_simps)
  then obtain w' ks where w': "seq (handle_all (lift_redis mem_redis) mem_hash sample_obs_env ?ms)
        (obs_session sample_obs_env (handle (lift_redis mem_redis) mem_hash sample_obs_env sample_completed [])) ?w =
        (Inr (), w')"
    and ks: "distinct ks" "set ks = dom (fold (sampled 1) ?ms Map.empty)"
    and rows: "map trace.truncate (os_traces w') = map trace.truncate (os_traces ?w) @
      completion_trace sample_completed 1 9 COMPLETED 5 0 #
        map (sample_row_of \<circ> the \<circ> fold (sampled 1) ?ms Map.empty) ks" by blast
  have "dom (fold (sampled 1) ?ms Map.empty) = {''started:'' @ uuid_str 1, ''step_failed:'' @ str_nat 0}"
    by (auto simp: sampled_def sample_started_def sample_failed_def sample_event_def)
  then have "length ks = 2" using ks distinct_card [of ks] by simp
  with arg_cong [OF rows, of length] w' show ?thesis by (simp add: sample_obs_def)
qed

text \<open>
  The sampler deletes the buffered spans before the database commits: when the database refuses the
  completion of a failed execution, its spans and its failure flag are gone, and the redelivered
  completion is sampled like that of a fast execution without a failure and writes at most its own row.
\<close>

lemma failed_commit_loses_spans:
  fixes w :: "('q, 'r) obs"
  assumes "redis_hash R view H hview" and "oe_buffer_fails E = (\<lambda>_. None)" and "oe_db_fails E = (\<lambda>_. Some e)"
    and "0 < os_trace_buffer_ttl_seconds (oe_settings E)"
    and "\<forall>e. view (os_buffer w) (buffer_key e) = None" and "view (os_buffer w) (failure_key eid) = Some (''1'', t)"
    and "distinct (map fst (hash_fields (hview (os_buffer w)) (buffer_key eid)))"
    and "map_of (hash_fields (hview (os_buffer w)) (buffer_key eid)) = map_option (oe_dumps E) \<circ> sp"
    and "ev_body ev = ExecutionCompleted eid wid st dur cost n"
    and "\<forall>d \<in> ran sp. oe_loads E (oe_dumps E d) = Inr d"
    and "\<forall>d \<in> ran sp. \<forall>u1 u2. span_of E u1 u2 (ev_tenant_id ev) wid d = Inr (row d)"
  shows "\<exists>w1 w2. obs_session E (handle R H E ev raw) w = (Inl e, w1) \<and> os_traces w1 = os_traces w \<and>
    (let E' = E\<lparr>oe_db_fails := (\<lambda>_. None)\<rparr> in
     obs_session E' (handle R H E' ev raw) w1 = (Inr (), w2) \<and>
     map trace.truncate (os_traces w2) = map trace.truncate (os_traces w) @
       (if keeps_trace E False dur (os_tick w1 + 1) then [completion_trace ev eid wid st dur cost] else []))"
proof -
  let ?E = "E\<lparr>oe_db_fails := (\<lambda>_. None)\<rparr>"
  have inv: "redis_hash.buffer_inv view hview E eid sp True (os_buffer w)"
    using assms(5-8) by (simp add: redis_hash.buffer_inv_def [OF assms(1)])
  obtain w1 where w1: "obs_session E (handle R H E ev raw) w = (Inl e, w1)" "same_tables w w1"
      "redis_hash.buffer_inv view hview E eid Map.empty False (os_buffer w1)"
    using redis_hash.completion_refused [OF assms(1-3) inv assms(9-11)] unfolding wp_Inl by blast
  then have inv': "redis_hash.buffer_inv view hview ?E eid Map.empty False (os_buffer w1)"
    by (simp add: redis_hash.buffer_inv_def [OF assms(1)])
  have calm: "calm ?E" using assms(2,4) by (simp add: calm_def)
  obtain u w2 where w2: "obs_session ?E (handle R H ?E ev raw) w1 = (Inr u, w2)"
    and rows: "map trace.truncate (os_traces w2) = map trace.truncate (os_traces w1) @
      (if keeps_trace ?E False dur (os_tick w1 + 1) then [completion_trace ev eid wid st dur cost] else [])"
    using redis_hash.completion_sampled [OF assms(1) calm inv' assms(9), of row raw "\<lambda>_ _. False"]
    unfolding wp_Inr by auto
  have "keeps_trace ?E = keeps_trace E" by (simp add: keeps_trace_def fun_eq_iff)
  with w1 w2 rows show ?thesis by (auto simp: same_tables_def Let_def)
qed

definition sample_buffer :: "keyspace \<times> hashes" where
  "sample_buffer = (Map.empty(failure_key 1 \<mapsto> (''1'', None)),
     Map.empty(buffer_key 1 \<mapsto> ([(''started'', ''execution.started'')], None)))"

lemma failed_commit_loses_spans_witness:
  "let E = sample_obs_env\<lparr>oe_db_fails := \<lambda>_. Some (LibraryError ''database'')\<rparr> in
   \<exists>w1 w2. obs_session E (handle (lift_redis mem_redis) mem_hash E sample_completed []) (sample_obs () sample_buffer) =
       (Inl (LibraryError ''database''), w1) \<and>
     obs_session sample_obs_env (handle (lift_redis mem_redis) mem_hash sample_obs_env sample_completed []) w1 =
       (Inr (), w2) \<and> os_traces w2 = []"
proof -
  let ?E = "sample_obs_env\<lparr>oe_db_fails := \<lambda>_. Some (LibraryError ''database'')\<rparr>"
  let ?r = sample_buffer
  let ?sp = "Map.empty(''started'' \<mapsto> sample_raw sample_started)"
  have E': "?E\<lparr>oe_db_fails := \<lambda>_. None\<rparr> = sample_obs_env" by (simp add: sample_obs_env_def)
  have "oe_float ?E = oe_float sample_obs_env" by simp
  then have span: "span_of ?E u1 u2 7 9 d = span_of sample_obs_env u1 u2 7 9 d" for u1 u2 d
    by (simp only: span_of_def)
  have 1: "map_of (hash_fields (snd (os_buffer (sample_obs () ?r))) (buffer_key 1)) = map_option (oe_dumps ?E) \<circ> ?sp"
    by (auto simp: sample_obs_def sample_buffer_def hash_fields_def fun_eq_iff sample_obs_env_def dict_get_def sample_raw_lookup
        model_dump_def sample_started_def sample_event_def)
  have 2: "ev_body sample_completed = ExecutionCompleted 1 9 COMPLETED 5 0 1" by (simp add: sample_completed_def sample_event_def)
  have 3: "\<forall>d \<in> ran ?sp. oe_loads ?E (oe_dumps ?E d) = Inr d" using sample_text [of sample_started] by simp
  have 4: "\<forall>d \<in> ran ?sp. \<forall>u1 u2. span_of ?E u1 u2 (ev_tenant_id sample_completed) 9 d = Inr (sample_row_of d)"
    using sample_span [of sample_started] by (simp add: span sample_completed_def sample_event_def)
  have 5: "\<not> keeps_trace ?E False 5 t" for t by (simp add: keeps_trace_def sample_obs_env_def default_obs_settings_def)
  have 6: "oe_buffer_fails ?E = (\<lambda>_. None)" "oe_db_fails ?E = (\<lambda>_. Some (LibraryError ''database''))"
    "0 < os_trace_buffer_ttl_seconds (oe_settings ?E)"
    by (simp_all add: sample_obs_env_def default_obs_settings_def)
  have 7: "\<forall>e. fst (os_buffer (sample_obs () ?r)) (buffer_key e) = None"
    "fst (os_buffer (sample_obs () ?r)) (failure_key 1) = Some (''1'', None)"
    "distinct (map fst (hash_fields (snd (os_buffer (sample_obs () ?r))) (buffer_key 1)))"
    by (simp_all add: sample_obs_def sample_buffer_def hash_fields_def)
  have 8: "os_traces (sample_obs () ?r) = []" by (simp add: sample_obs_def)
  from failed_commit_loses_spans [OF mem_hash.redis_hash_axioms 6 7 1 2 3 4, of "[]"]
  show ?thesis unfolding Let_def E' 8 by (auto simp: 5)
qed

end
