(* ===== verification/Stream_Consumer.thy ===== *)
theory Stream_Consumer
  imports Trace_Sampling
begin

text \<open>
  The consumer: \<open>StreamConsumerGroup\<close> of \<open>sutram_core/streams/redis_streams.py\<close> and
  \<open>app/consumer/loop.py\<close>. The stream commands of the Redis server are the record \<open>stream_ops\<close>;
  any of them may fail, and other processes may act on the server's state \<open>'q\<close> at every command.
  The locale \<open>stream_group\<close> states what the consumer relies on: an entry that the group has not
  acknowledged stays unacknowledged until its own XACK. Trimming of the stream (\<open>maxlen\<close>) is
  assumed not to reach entries that are still unacknowledged.
\<close>

section \<open>Stream commands\<close>

type_synonym message = "(string \<times> string) list"

record 'q stream_ops =
  q_create :: "string \<Rightarrow> string \<Rightarrow> 'q \<Rightarrow> (exn + unit) \<times> 'q"
    \<comment> \<open>stream, group\<close>
  q_readgroup :: "string \<Rightarrow> string \<Rightarrow> string \<Rightarrow> nat \<Rightarrow> nat \<Rightarrow> 'q \<Rightarrow>
      (exn + (string \<times> (string \<times> message) list) list) \<times> 'q"
    \<comment> \<open>stream, group, consumer, count, block\<close>
  q_ack :: "string \<Rightarrow> string \<Rightarrow> string \<Rightarrow> 'q \<Rightarrow> (exn + unit) \<times> 'q"
    \<comment> \<open>stream, group, message\<close>
  q_autoclaim :: "string \<Rightarrow> string \<Rightarrow> string \<Rightarrow> nat \<Rightarrow> nat \<Rightarrow> 'q \<Rightarrow> (exn + (string \<times> message) list) \<times> 'q"
    \<comment> \<open>stream, group, consumer, idle time, count\<close>

definition stream_call :: "('q \<Rightarrow> (exn + 'a) \<times> 'q) \<Rightarrow> (('q, 'r) obs, 'a) py" where
  "stream_call f = (\<lambda>w. case f (os_streams w) of (res, q) \<Rightarrow> (res, w\<lparr>os_streams := q\<rparr>))"

section \<open>StreamConsumerGroup\<close>

definition group_read ::
  "'q stream_ops \<Rightarrow> string \<Rightarrow> string \<Rightarrow> string \<Rightarrow> nat \<Rightarrow> nat \<Rightarrow> (('q, 'r) obs, (string \<times> message) list) py" where
  "group_read S stream grp consumer_name count block_ms =
     andthen (stream_call (q_readgroup S stream grp consumer_name count block_ms)) (\<lambda>results.
       ret (if results = [] then [] else concat (map snd results)))"

definition group_ack :: "'q stream_ops \<Rightarrow> string \<Rightarrow> string \<Rightarrow> string \<Rightarrow> (('q, 'r) obs, unit) py" where
  "group_ack S stream grp message_id = stream_call (q_ack S stream grp message_id)"

section \<open>The loop\<close>

definition stream_names :: "obs_settings \<Rightarrow> string list" where
  "stream_names c = [os_executions_stream c, os_memory_stream c]"

fun create_groups :: "'q stream_ops \<Rightarrow> string \<Rightarrow> string list \<Rightarrow> (('q, 'r) obs, unit) py" where
  "create_groups S grp [] = ret ()"
| "create_groups S grp (s # ss) =
     seq (tryexcept (stream_call (q_create S s grp))
           (\<lambda>e. case e of
              ResponseError m \<Rightarrow> if sublist ''BUSYGROUP'' m then ret () else throw e
            | _ \<Rightarrow> throw e))
         (create_groups S grp ss)"

definition ensure_consumer_groups :: "'q stream_ops \<Rightarrow> obs_env \<Rightarrow> (('q, 'r) obs, unit) py" where
  "ensure_consumer_groups S E =
     create_groups S (os_consumer_group (oe_settings E)) (stream_names (oe_settings E))"

definition process_one ::
  "'q stream_ops \<Rightarrow> 'r redis_ops \<Rightarrow> 'r hash_ops \<Rightarrow> obs_env \<Rightarrow> string \<Rightarrow> string \<times> message \<Rightarrow>
     (('q, 'r) obs, unit) py" where
  "process_one S R H E stream entry = (case entry of (msg_id, data) \<Rightarrow>
     let grp = os_consumer_group (oe_settings E) in
     andthen (obs_tick (oe_uuid E)) (\<lambda>u.
     andthen (obs_tick (oe_now E)) (\<lambda>now.
       case parse_event (oe_pydantic E) u now data of
         Inr event \<Rightarrow>
           tryexcept
             (seq (obs_session E (handle R H E event data)) (group_ack S stream grp msg_id))
             (\<lambda>_. record_metric (\<lambda>m. m\<lparr>CHECKPOINT_FAILURES := CHECKPOINT_FAILURES m + 1\<rparr>))
       | Inl e \<Rightarrow> (case e of UnknownEventType _ \<Rightarrow> group_ack S stream grp msg_id | _ \<Rightarrow> throw e))))"

fun process_messages ::
  "'q stream_ops \<Rightarrow> 'r redis_ops \<Rightarrow> 'r hash_ops \<Rightarrow> obs_env \<Rightarrow> string \<Rightarrow> (string \<times> message) list \<Rightarrow>
     (('q, 'r) obs, unit) py" where
  "process_messages S R H E stream [] = ret ()"
| "process_messages S R H E stream (m # ms) =
     seq (process_one S R H E stream m)
    (seq (modify (\<lambda>w. w\<lparr>os_processed := os_processed w + 1\<rparr>))
         (process_messages S R H E stream ms))"

fun read_streams ::
  "'q stream_ops \<Rightarrow> 'r redis_ops \<Rightarrow> 'r hash_ops \<Rightarrow> obs_env \<Rightarrow> string list \<Rightarrow> (('q, 'r) obs, unit) py" where
  "read_streams S R H E [] = ret ()"
| "read_streams S R H E (s # ss) =
     (let c = oe_settings E in
      seq (andthen (group_read S s (os_consumer_group c) (os_consumer_name c) (os_consumer_poll_count c)
                      (os_consumer_block_ms c))
             (process_messages S R H E s))
          (read_streams S R H E ss))"

text \<open>The loop of \<open>_reclaim_pending\<close> over what it claimed.\<close>

fun process_claimed ::
  "'q stream_ops \<Rightarrow> 'r redis_ops \<Rightarrow> 'r hash_ops \<Rightarrow> obs_env \<Rightarrow> string \<Rightarrow> (string \<times> message) list \<Rightarrow>
     (('q, 'r) obs, unit) py" where
  "process_claimed S R H E stream [] = ret ()"
| "process_claimed S R H E stream (m # ms) =
     seq (process_one S R H E stream m) (process_claimed S R H E stream ms)"

definition reclaim_pending ::
  "'q stream_ops \<Rightarrow> 'r redis_ops \<Rightarrow> 'r hash_ops \<Rightarrow> obs_env \<Rightarrow> string \<Rightarrow> (('q, 'r) obs, unit) py" where
  "reclaim_pending S R H E stream =
     (let c = oe_settings E in
      tryexcept
        (andthen (stream_call (q_autoclaim S stream (os_consumer_group c) (os_consumer_name c)
                    (os_reclaim_min_idle_ms c) 50))
           (process_claimed S R H E stream))
        (\<lambda>_. ret ()))"

definition RECLAIM_EVERY :: nat where
  "RECLAIM_EVERY = 50"

fun reclaim_all ::
  "'q stream_ops \<Rightarrow> 'r redis_ops \<Rightarrow> 'r hash_ops \<Rightarrow> obs_env \<Rightarrow> string list \<Rightarrow> (('q, 'r) obs, unit) py" where
  "reclaim_all S R H E [] = ret ()"
| "reclaim_all S R H E (s # ss) = seq (reclaim_pending S R H E s) (reclaim_all S R H E ss)"

text \<open>One iteration of \<open>while True\<close>: an exception is logged and the loop goes on.\<close>

definition consumer_round ::
  "'q stream_ops \<Rightarrow> 'r redis_ops \<Rightarrow> 'r hash_ops \<Rightarrow> obs_env \<Rightarrow> (('q, 'r) obs, unit) py" where
  "consumer_round S R H E =
     tryexcept
       (seq (read_streams S R H E (stream_names (oe_settings E)))
          (andthen (gets os_processed) (\<lambda>n.
             if n > 0 \<and> n mod RECLAIM_EVERY = 0
             then reclaim_all S R H E (stream_names (oe_settings E)) else ret ())))
       (\<lambda>_. ret ())"

fun consumer_rounds ::
  "'q stream_ops \<Rightarrow> 'r redis_ops \<Rightarrow> 'r hash_ops \<Rightarrow> obs_env \<Rightarrow> nat \<Rightarrow> (('q, 'r) obs, unit) py" where
  "consumer_rounds S R H E 0 = ret ()"
| "consumer_rounds S R H E (Suc n) = seq (consumer_round S R H E) (consumer_rounds S R H E n)"

text \<open>\<open>run_consumer_loop\<close> up to its \<open>n\<close>th iteration.\<close>

definition run_consumer_loop ::
  "'q stream_ops \<Rightarrow> 'r redis_ops \<Rightarrow> 'r hash_ops \<Rightarrow> obs_env \<Rightarrow> nat \<Rightarrow> (('q, 'r) obs, unit) py" where
  "run_consumer_loop S R H E n =
     seq (ensure_consumer_groups S E)
    (seq (modify (\<lambda>w. w\<lparr>os_processed := 0\<rparr>)) (consumer_rounds S R H E n))"

section \<open>What the consumer relies on\<close>

locale stream_group =
  fixes S :: "'q stream_ops" and grp :: string
    and unacked :: "'q \<Rightarrow> string \<Rightarrow> string \<Rightarrow> message option"
  assumes create_keeps: "unacked q s i = Some d \<Longrightarrow> unacked (snd (q_create S s' g q)) s i = Some d"
    and read_keeps: "unacked q s i = Some d \<Longrightarrow> unacked (snd (q_readgroup S s' g c n b q)) s i = Some d"
    and read_unacked: "q_readgroup S s grp c n b q = (Inr res, q') \<Longrightarrow>
      (i, d) \<in> set (concat (map snd res)) \<Longrightarrow> unacked q' s i = Some d"
    and claim_keeps: "unacked q s i = Some d \<Longrightarrow> unacked (snd (q_autoclaim S s' g c idle n q)) s i = Some d"
    and claim_unacked: "q_autoclaim S s grp c idle n q = (Inr claimed, q') \<Longrightarrow> (i, d) \<in> set claimed \<Longrightarrow>
      unacked q' s i = Some d"
    and ack_keeps: "unacked q s i = Some d \<Longrightarrow> s' \<noteq> s \<or> i' \<noteq> i \<Longrightarrow>
      unacked (snd (q_ack S s' g i' q)) s i = Some d"

text \<open>
  What the members of a group read. \<open>entries\<close> are the messages of a stream and \<open>pos\<close> how many of them the
  group has given out, none before it exists. A read that raises may have moved the group on, when only
  its answer is lost.
\<close>

locale group_reads =
  fixes S :: "'q stream_ops" and grp :: string
    and entries :: "'q \<Rightarrow> string \<Rightarrow> (string \<times> message) list" and pos :: "'q \<Rightarrow> string \<Rightarrow> nat"
  assumes ack_keeps_log: "entries (snd (q_ack S s grp i q)) = entries q" "pos (snd (q_ack S s grp i q)) = pos q"
    and read_keeps_log: "entries (snd (q_readgroup S s grp c n b q)) = entries q"
    and read_moves: "\<exists>k. pos (snd (q_readgroup S s grp c n b q)) = (pos q)(s := pos q s + k)"
    and read_gives: "q_readgroup S s grp c n b q = (Inr res, q') \<Longrightarrow> 0 < n \<Longrightarrow>
      concat (map snd res) = take n (drop (pos q s) (entries q s)) \<and>
      pos q' s = pos q s + length (concat (map snd res))"

lemma wp_stream_call [simp]:
  "wp (stream_call f) Q X w = (case f (os_streams w) of
     (Inl e, q) \<Rightarrow> X e (w\<lparr>os_streams := q\<rparr>) | (Inr a, q) \<Rightarrow> Q a (w\<lparr>os_streams := q\<rparr>))"
  by (simp add: stream_call_def wp_def split: prod.splits sum.splits)

text \<open>An acknowledged message: of no known type, or handled with its audit record committed.\<close>

fun settles :: "audit_row set \<Rightarrow> exn + event \<Rightarrow> bool" where
  "settles audits (Inr ev) = (\<forall>a. audit_of ev = Some a \<longrightarrow> (\<exists>r \<in> audits. audit.truncate r = a))"
| "settles audits (Inl e) = (\<exists>m. e = UnknownEventType m)"

definition settled :: "obs_env \<Rightarrow> message \<Rightarrow> audit_row set \<Rightarrow> bool" where
  "settled E d audits \<longleftrightarrow> (\<exists>u now. settles audits (parse_event (oe_pydantic E) u now d))"

lemma settledI: "parse_event (oe_pydantic E) u now d = res \<Longrightarrow> settles audits res \<Longrightarrow> settled E d audits"
  by (auto simp: settled_def)

lemma settled_mono: "settled E d A \<Longrightarrow> A \<subseteq> B \<Longrightarrow> settled E d B"
proof -
  assume "settled E d A" and sub: "A \<subseteq> B"
  then obtain u now where "settles A (parse_event (oe_pydantic E) u now d)" by (auto simp: settled_def)
  with sub have "settles B (parse_event (oe_pydantic E) u now d)"
    by (cases "parse_event (oe_pydantic E) u now d") fastforce+
  then show ?thesis by (auto simp: settled_def)
qed

definition processed ::
  "'q stream_ops \<Rightarrow> obs_env \<Rightarrow> string \<Rightarrow> string \<times> message \<Rightarrow> ('q, 'r) obs \<Rightarrow> ('q, 'r) obs \<Rightarrow> bool" where
  "processed S E s m w w' \<longleftrightarrow> set (os_audit w) \<subseteq> set (os_audit w') \<and>
     (os_streams w' = os_streams w \<or>
      os_streams w' = snd (q_ack S s (os_consumer_group (oe_settings E)) (fst m) (os_streams w)) \<and>
      settled E (snd m) (set (os_audit w')))"

lemma process_one_effect:
  "wp (process_one S R H E s m) (\<lambda>_. processed S E s m w) (\<lambda>_. processed S E s m w) w"
proof (cases m)
  case (Pair i d)
  let ?t = "os_tick w"
  let ?w = "w\<lparr>os_tick := Suc (Suc ?t)\<rparr>"
  show ?thesis
  proof (cases "parse_event (oe_pydantic E) (oe_uuid E ?t) (oe_now E (Suc ?t)) d")
    case (Inl e)
    from settledI [OF this] have "\<exists>m. e = UnknownEventType m \<Longrightarrow> settled E d audits" for audits by simp
    with Inl Pair show ?thesis
      by (auto simp: process_one_def Let_def group_ack_def processed_def split: exn.splits prod.splits sum.splits)
  next
    case (Inr ev)
    from settledI [OF this] have ok: "settled E d audits"
      if "\<forall>a. audit_of ev = Some a \<longrightarrow> (\<exists>r \<in> audits. audit.truncate r = a)" for audits
      using that by simp
    let ?count = "record_metric (\<lambda>m. m\<lparr>CHECKPOINT_FAILURES := CHECKPOINT_FAILURES m + 1\<rparr>)"
    let ?P = "\<lambda>_. processed S E s m w"
    have "wp (obs_session E (handle R H E ev d))
       (\<lambda>_. wp (group_ack S s (os_consumer_group (oe_settings E)) i) ?P (\<lambda>_. wp ?count ?P ?P))
       (\<lambda>_. wp ?count ?P ?P) ?w"
      by (rule wp_mono [OF session_handle_effect])
        (auto simp: processed_def same_tables_def group_ack_def Pair ok split: prod.splits sum.splits)
    with Inr Pair show ?thesis by (simp add: process_one_def Let_def)
  qed
qed

section \<open>An entry is acknowledged only once it is settled\<close>

text \<open>
  \<open>tracked\<close>: the entry \<open>i\<close> of stream \<open>s\<close>, with the message \<open>d\<close>, is unacknowledged or settled. It is
  an invariant of the whole loop, whatever fails.
\<close>

context stream_group
begin

definition tracked :: "obs_env \<Rightarrow> string \<Rightarrow> string \<Rightarrow> message \<Rightarrow> ('q, 'r) obs \<Rightarrow> bool" where
  "tracked E s i d w \<longleftrightarrow> unacked (os_streams w) s i = Some d \<or> settled E d (set (os_audit w))"

text \<open>A batch in which the entry's id, if it occurs, carries the entry's message.\<close>

definition agrees :: "string \<Rightarrow> string \<Rightarrow> string \<Rightarrow> message \<Rightarrow> (string \<times> message) list \<Rightarrow> bool" where
  "agrees s' s i d ms \<longleftrightarrow> (s' = s \<longrightarrow> (\<forall>m \<in> set ms. fst m = i \<longrightarrow> snd m = d))"

definition batch_inv ::
  "obs_env \<Rightarrow> string \<Rightarrow> string \<Rightarrow> message \<Rightarrow> string \<Rightarrow> (string \<times> message) list \<Rightarrow> ('q, 'r) obs \<Rightarrow> bool" where
  "batch_inv E s i d s' ms w \<longleftrightarrow>
     settled E d (set (os_audit w)) \<or> (unacked (os_streams w) s i = Some d \<and> agrees s' s i d ms)"

lemma batch_inv_tracked: "batch_inv E s i d s' ms w \<Longrightarrow> tracked E s i d w"
  by (auto simp: batch_inv_def tracked_def)

lemma processed_batch:
  assumes "processed S E s' m w w'" and "os_consumer_group (oe_settings E) = grp"
    and "batch_inv E s i d s' (m # ms) w"
  shows "batch_inv E s i d s' ms w'"
proof (cases "settled E d (set (os_audit w))")
  case True
  then show ?thesis using assms(1) settled_mono by (auto simp: processed_def batch_inv_def)
next
  case False
  with assms(3) have un: "unacked (os_streams w) s i = Some d" and ag: "agrees s' s i d (m # ms)"
    by (simp_all add: batch_inv_def)
  then have ag': "agrees s' s i d ms" by (simp add: agrees_def)
  consider "os_streams w' = os_streams w"
    | "os_streams w' = snd (q_ack S s' grp (fst m) (os_streams w))" "settled E (snd m) (set (os_audit w'))"
    using assms(1,2) by (auto simp: processed_def)
  then show ?thesis
  proof cases
    case 1
    with un ag' show ?thesis by (simp add: batch_inv_def)
  next
    case 2
    show ?thesis
    proof (cases "s' = s \<and> fst m = i")
      case True
      with ag 2 show ?thesis by (simp add: agrees_def batch_inv_def)
    next
      case False
      with un ag' 2 show ?thesis by (auto simp: batch_inv_def intro: ack_keeps)
    qed
  qed
qed

lemma messages_tracked:
  assumes "os_consumer_group (oe_settings E) = grp" and "batch_inv E s i d s' ms w"
  shows "wp (process_messages S R H E s' ms) (\<lambda>_. tracked E s i d) (\<lambda>_. tracked E s i d) w"
    and "wp (process_claimed S R H E s' ms) (\<lambda>_. tracked E s i d) (\<lambda>_. tracked E s i d) w"
proof -
  have one: "wp (process_one S R H E s' m) (\<lambda>_. batch_inv E s i d s' ms) (\<lambda>_. tracked E s i d) w"
    if "batch_inv E s i d s' (m # ms) w" for m ms and w :: "('q, 'a) obs" and R H
    by (rule wp_mono [OF process_one_effect])
      (auto dest: processed_batch [OF _ assms(1) that] intro: batch_inv_tracked)
  have count: "batch_inv E s i d s' ms (w\<lparr>os_processed := n\<rparr>) = batch_inv E s i d s' ms w"
    for ms n and w :: "('q, 'a) obs" by (simp add: batch_inv_def)
  show "wp (process_messages S R H E s' ms) (\<lambda>_. tracked E s i d) (\<lambda>_. tracked E s i d) w"
    using assms(2) by (induction ms arbitrary: w) (auto simp: count intro: batch_inv_tracked wp_mono [OF one])
  show "wp (process_claimed S R H E s' ms) (\<lambda>_. tracked E s i d) (\<lambda>_. tracked E s i d) w"
    using assms(2) by (induction ms arbitrary: w) (auto intro: batch_inv_tracked wp_mono [OF one])
qed

definition tracks :: "obs_env \<Rightarrow> string \<Rightarrow> string \<Rightarrow> message \<Rightarrow> (('q, 'r) obs, 'a) py \<Rightarrow> bool" where
  "tracks E s i d m \<longleftrightarrow> (\<forall>w. tracked E s i d w \<longrightarrow> wp m (\<lambda>_. tracked E s i d) (\<lambda>_. tracked E s i d) w)"

lemma tracks_seq: "tracks E s i d m \<Longrightarrow> tracks E s i d n \<Longrightarrow> tracks E s i d (seq m n)"
  unfolding tracks_def wp_seq by (blast intro: wp_mono)

lemma tracks_try: "tracks E s i d m \<Longrightarrow> (\<And>e. tracks E s i d (h e)) \<Longrightarrow> tracks E s i d (tryexcept m h)"
  unfolding tracks_def wp_tryexcept by (blast intro: wp_mono)

lemma tracks_basic:
  "tracks E s i d (ret a)" "tracks E s i d (Pair (Inr a))" "tracks E s i d (throw e)"
  "tracks E s i d (modify (\<lambda>w. w\<lparr>os_processed := n\<rparr>))"
  by (simp_all add: tracks_def tracked_def)

lemma tracks_gets: "(\<And>a. tracks E s i d (f a)) \<Longrightarrow> tracks E s i d (andthen (gets g) f)"
  by (simp add: tracks_def)

lemmas tracks_rules = tracks_seq tracks_try tracks_basic tracks_gets

lemma tracks_read:
  assumes "os_consumer_group (oe_settings E) = grp"
  shows "tracks E s i d (andthen (group_read S s' grp c n b) (process_messages S R H E s'))"
  unfolding tracks_def
proof (intro allI impI)
  fix w :: "('q, 'a) obs"
  assume tr: "tracked E s i d w"
  obtain res q where read: "q_readgroup S s' grp c n b (os_streams w) = (res, q)" by fastforce
  have keep: "unacked (os_streams w) s i = Some d \<Longrightarrow> unacked q s i = Some d"
    using read_keeps [of "os_streams w" s i d s' grp c n b] read by simp
  show "wp (andthen (group_read S s' grp c n b) (process_messages S R H E s'))
      (\<lambda>_. tracked E s i d) (\<lambda>_. tracked E s i d) w"
  proof (cases res)
    case (Inl e)
    with read keep tr show ?thesis by (auto simp: group_read_def tracked_def)
  next
    case (Inr results)
    let ?ms = "if results = [] then [] else concat (map snd results)"
    have "agrees s' s i d ?ms" if "unacked q s i = Some d"
      using that read_unacked [OF read [unfolded Inr]] by (fastforce simp: agrees_def)
    with tr keep have "batch_inv E s i d s' ?ms (w\<lparr>os_streams := q\<rparr>)"
      by (auto simp: batch_inv_def tracked_def)
    from messages_tracked(1) [OF assms this] read Inr show ?thesis by (simp add: group_read_def)
  qed
qed

lemma tracks_reclaim:
  assumes "os_consumer_group (oe_settings E) = grp"
  shows "tracks E s i d (reclaim_pending S R H E s')"
proof -
  let ?f = "q_autoclaim S s' grp (os_consumer_name (oe_settings E)) (os_reclaim_min_idle_ms (oe_settings E)) 50"
  have "tracks E s i d (andthen (stream_call ?f) (process_claimed S R H E s'))"
    unfolding tracks_def
  proof (intro allI impI)
    fix w :: "('q, 'a) obs"
    assume tr: "tracked E s i d w"
    obtain res q where claim: "?f (os_streams w) = (res, q)" by fastforce
    have keep: "unacked (os_streams w) s i = Some d \<Longrightarrow> unacked q s i = Some d"
      using claim_keeps [of "os_streams w" s i d s' grp] claim by (metis snd_conv)
    show "wp (andthen (stream_call ?f) (process_claimed S R H E s')) (\<lambda>_. tracked E s i d) (\<lambda>_. tracked E s i d) w"
    proof (cases res)
      case (Inl e)
      with claim keep tr show ?thesis by (auto simp: tracked_def)
    next
      case (Inr ms)
      have "agrees s' s i d ms" if "unacked q s i = Some d"
        using that claim_unacked [OF claim [unfolded Inr]] by (fastforce simp: agrees_def)
      with tr keep have "batch_inv E s i d s' ms (w\<lparr>os_streams := q\<rparr>)"
        by (auto simp: batch_inv_def tracked_def)
      from messages_tracked(2) [OF assms this] claim Inr show ?thesis by simp
    qed
  qed
  then show ?thesis by (auto simp: reclaim_pending_def Let_def assms intro: tracks_rules)
qed

lemma tracks_round:
  assumes "os_consumer_group (oe_settings E) = grp"
  shows "tracks E s i d (consumer_round S R H E)"
proof -
  have "tracks E s i d (read_streams S R H E ss)" for ss
    by (induction ss) (auto simp: Let_def assms intro: tracks_rules tracks_read [OF assms])
  moreover have "tracks E s i d (reclaim_all S R H E ss)" for ss
    by (induction ss) (auto intro: tracks_rules tracks_reclaim [OF assms])
  ultimately show ?thesis unfolding consumer_round_def by (auto intro!: tracks_rules)
qed

lemma tracks_loop:
  assumes "os_consumer_group (oe_settings E) = grp"
  shows "tracks E s i d (run_consumer_loop S R H E n)"
proof -
  have create: "tracks E s i d (stream_call (q_create S s' grp))" for s'
    using create_keeps [of _ s i d s' grp]
    by (auto simp: tracks_def tracked_def split: prod.splits sum.splits) (metis snd_conv)+
  have "tracks E s i d (create_groups S grp ss)" for ss
    by (induction ss) (auto intro!: tracks_rules create split: exn.splits)
  moreover have "tracks E s i d (consumer_rounds S R H E m)" for m
    by (induction m) (auto intro: tracks_rules tracks_round [OF assms])
  ultimately show ?thesis
    by (auto simp: run_consumer_loop_def ensure_consumer_groups_def assms intro!: tracks_rules)
qed

lemma loop_tracks:
  assumes "os_consumer_group (oe_settings E) = grp" and "unacked (os_streams w) s i = Some d"
  shows "tracked E s i d (snd (run_consumer_loop S R H E n w))"
proof -
  have "tracked E s i d w" using assms(2) by (simp add: tracked_def)
  from tracks_loop [OF assms(1), unfolded tracks_def, rule_format, OF this] show ?thesis
    by (simp only: wp_state)
qed

end

section \<open>An in-memory consumer group\<close>

text \<open>
  A stream is its log; the group has delivered the first \<open>ms_next\<close> entries and \<open>ms_pend\<close> of them
  are not acknowledged. The id of an entry is its position.
\<close>

record mem_stream =
  ms_log :: "message list"
  ms_next :: nat
  ms_pend :: "nat list"

type_synonym mem_streams = "string \<Rightarrow> mem_stream"

definition mem_entry :: "mem_stream \<Rightarrow> nat \<Rightarrow> string \<times> message" where
  "mem_entry m k = (str_nat k, ms_log m ! k)"

definition mem_unacked :: "mem_streams \<Rightarrow> string \<Rightarrow> string \<Rightarrow> message option" where
  "mem_unacked q s = map_of (map (mem_entry (q s)) (ms_pend (q s) @ [ms_next (q s)..<length (ms_log (q s))]))"

definition mem_stream_ops :: "mem_streams stream_ops" where
  "mem_stream_ops =
     \<lparr>q_create = (\<lambda>s g q. (Inl (ResponseError ''BUSYGROUP Consumer Group name already exists''), q)),
      q_readgroup = (\<lambda>s g c n b q.
        let ks = take n [ms_next (q s)..<length (ms_log (q s))] in
        (Inr [(s, map (mem_entry (q s)) ks)],
         q(s := (q s)\<lparr>ms_next := ms_next (q s) + length ks, ms_pend := ms_pend (q s) @ ks\<rparr>))),
      q_ack = (\<lambda>s g i q. (Inr (), q(s := (q s)\<lparr>ms_pend := filter (\<lambda>k. str_nat k \<noteq> i) (ms_pend (q s))\<rparr>))),
      q_autoclaim = (\<lambda>s g c idle n q. (Inr (map (mem_entry (q s)) (take n (ms_pend (q s)))), q))\<rparr>"

lemma map_of_entries: "map_of (map (mem_entry m) ks) i = Some d \<longleftrightarrow> (\<exists>k \<in> set ks. i = str_nat k \<and> d = ms_log m ! k)"
proof (induction ks)
  case (Cons k ks)
  then show ?case
    by (cases "i = str_nat k") (simp_all add: mem_entry_def str_nat_inj, auto)
qed simp

lemma mem_unacked_iff:
  "mem_unacked q s i = Some d \<longleftrightarrow>
     (\<exists>k \<in> set (ms_pend (q s)) \<union> {ms_next (q s)..<length (ms_log (q s))}. i = str_nat k \<and> d = ms_log (q s) ! k)"
  unfolding mem_unacked_def map_of_entries by (simp only: set_append set_upt)

lemma take_upt_split: "set (take n [a..<b]) \<union> {a + length (take n [a..<b])..<b} = {a..<b}"
proof -
  have "take n [a..<b] = [a..<min (a + n) b]" by (cases "a + n \<le> b") simp_all
  then show ?thesis by auto
qed

lemma mem_read_unacked:
  assumes "q_readgroup mem_stream_ops s' g c n b q = (res, q')"
  shows "mem_unacked q' s = mem_unacked q s"
proof (rule ext)
  fix i
  show "mem_unacked q' s i = mem_unacked q s i"
  proof (cases "s' = s")
    case True
    let ?ks = "take n [ms_next (q s)..<length (ms_log (q s))]"
    have q': "q' = q(s := (q s)\<lparr>ms_next := ms_next (q s) + length ?ks, ms_pend := ms_pend (q s) @ ?ks\<rparr>)"
      using assms True by (auto simp: mem_stream_ops_def Let_def)
    have "mem_unacked q' s i = Some d \<longleftrightarrow> mem_unacked q s i = Some d" for d
      using take_upt_split [of n "ms_next (q s)" "length (ms_log (q s))"]
      unfolding mem_unacked_iff q' by (auto simp del: length_take)
    then show ?thesis by (metis option.exhaust)
  next
    case False
    with assms show ?thesis by (auto simp: mem_stream_ops_def Let_def mem_unacked_def)
  qed
qed

interpretation mem_group: stream_group mem_stream_ops grp mem_unacked
proof unfold_locales
  fix q s g c n b res q' i d
  assume read: "q_readgroup mem_stream_ops s grp c n b q = (Inr res, q')" and i: "(i, d) \<in> set (concat (map snd res))"
  from read have "res = [(s, map (mem_entry (q s)) (take n [ms_next (q s)..<length (ms_log (q s))]))]"
    by (auto simp: mem_stream_ops_def Let_def)
  with i have "mem_unacked q s i = Some d"
    by (auto simp: mem_unacked_iff mem_entry_def dest!: in_set_takeD)
  with mem_read_unacked [OF read] show "mem_unacked q' s i = Some d" by simp
next
  fix q s s' g c n b i d
  assume "mem_unacked q s i = Some d"
  then show "mem_unacked (snd (q_readgroup mem_stream_ops s' g c n b q)) s i = Some d"
    using mem_read_unacked [of s' g c n b q] by (metis prod.collapse)
next
  fix q s c idle n claimed q' i d
  assume claim: "q_autoclaim mem_stream_ops s grp c idle n q = (Inr claimed, q')" and i: "(i, d) \<in> set claimed"
  then have "q' = q" and "claimed = map (mem_entry (q s)) (take n (ms_pend (q s)))"
    by (auto simp: mem_stream_ops_def)
  with i show "mem_unacked q' s i = Some d" by (auto simp: mem_unacked_iff mem_entry_def dest: in_set_takeD)
next
  fix q s i d s' i' g
  assume un: "mem_unacked q s i = Some d" and "s' \<noteq> s \<or> i' \<noteq> i"
  then show "mem_unacked (snd (q_ack mem_stream_ops s' g i' q)) s i = Some d"
    unfolding mem_unacked_iff by (auto simp: mem_stream_ops_def)
qed (simp_all add: mem_stream_ops_def)

section \<open>Properties\<close>

lemma settled_published:
  assumes "pydantic_laws (oe_pydantic E) F"
  shows "settled E (to_stream_dict F ev) audits \<longleftrightarrow>
    readable (ev_body ev) \<and> (\<forall>a. audit_of ev = Some a \<longrightarrow> (\<exists>r \<in> audits. audit.truncate r = a))"
  by (simp add: settled_def pydantic_laws.parse_stream_dict [OF assms])

lemma step_events_unreadable: "ev_body ev = StepCompleted e w n k d c outs \<Longrightarrow> \<not> readable (ev_body ev)"
  by (simp add: readable_def)

text \<open>
  C32: An event with an audit record that the group has not acknowledged is never lost: after any number
  of iterations of the consumer loop, whatever commands and commits fail on the way, it is still
  unacknowledged or its record is in the audit log.
\<close>

lemma audited_events_are_not_lost:
  assumes "stream_group S grp unacked" and "pydantic_laws (oe_pydantic E) F"
    and "os_consumer_group (oe_settings E) = grp"
    and "unacked (os_streams w) s i = Some (to_stream_dict F ev)" and "audit_of ev = Some a"
    and "run_consumer_loop S R H E n w = (res, w')"
  shows "unacked (os_streams w') s i = Some (to_stream_dict F ev) \<or> (\<exists>r \<in> set (os_audit w'). audit.truncate r = a)"
  using stream_group.loop_tracks [OF assms(1,3,4), of R H n] assms(5,6)
  by (auto simp: stream_group.tracked_def [OF assms(1)] settled_published [OF assms(2)])

definition sample_streams :: "event \<Rightarrow> mem_streams" where
  "sample_streams ev = (\<lambda>s. \<lparr>ms_log = (if s = ''executions'' then [sample_raw ev] else []), ms_next = 0, ms_pend = []\<rparr>)"

lemma sample_unacked:
  "mem_unacked (os_streams (sample_obs (sample_streams ev) r)) ''executions'' (str_nat 0) = Some (to_stream_dict sample_format ev)"
  by (auto simp: sample_obs_def sample_streams_def mem_unacked_iff sample_raw_def)

lemma audited_events_are_not_lost_witness:
  "\<exists>w'. w' = snd (run_consumer_loop mem_stream_ops (lift_redis mem_redis) mem_hash sample_obs_env 3
      (sample_obs (sample_streams sample_started) (\<lambda>_. None, \<lambda>_. None))) \<and>
    (mem_unacked (os_streams w') ''executions'' (str_nat 0) = Some (to_stream_dict sample_format sample_started) \<or>
     (\<exists>r \<in> set (os_audit w'). au_action r = ''execution.started''))"
proof -
  let ?w = "sample_obs (sample_streams sample_started) (\<lambda>_. None, \<lambda>_. None)"
  obtain res w' where run: "run_consumer_loop mem_stream_ops (lift_redis mem_redis) mem_hash sample_obs_env 3 ?w = (res, w')"
    by fastforce
  have "pydantic_laws (oe_pydantic sample_obs_env) sample_format"
    using sample_pd.pydantic_laws_axioms by (simp add: sample_obs_env_def)
  moreover have "audit_of sample_started = Some (audit_record sample_started ''execution.started'' 1)"
    by (simp add: audit_of_def sample_started_def sample_event_def)
  ultimately have "mem_unacked (os_streams w') ''executions'' (str_nat 0) = Some (to_stream_dict sample_format sample_started) \<or>
    (\<exists>r \<in> set (os_audit w'). audit.truncate r = audit_record sample_started ''execution.started'' 1)"
    using audited_events_are_not_lost [OF mem_group.stream_group_axioms _ refl sample_unacked _ run] by blast
  then show ?thesis using run by (auto simp: audit_record_def audit.truncate_def)
qed

text \<open>
  A published step completion is never processed: it stays unacknowledged after any number of
  iterations of the consumer loop, and wherever it stands in a batch, the messages behind it are not
  processed in that batch either.
\<close>

lemma step_completions_block_the_consumer:
  assumes "stream_group S grp unacked" and "pydantic_laws (oe_pydantic E) F"
    and "os_consumer_group (oe_settings E) = grp" and "ev_body ev = StepCompleted e wid name k dur c outs"
  shows "(unacked (os_streams w) s i = Some (to_stream_dict F ev) \<longrightarrow>
      unacked (os_streams (snd (run_consumer_loop S R H E n w))) s i = Some (to_stream_dict F ev)) \<and>
    process_messages S R H E s ((i, to_stream_dict F ev) # ms) w =
      (Inl (LibraryError ''ValidationError''), w\<lparr>os_tick := os_tick w + 2\<rparr>) \<and>
    process_claimed S R H E s ((i, to_stream_dict F ev) # ms) w =
      (Inl (LibraryError ''ValidationError''), w\<lparr>os_tick := os_tick w + 2\<rparr>)"
proof -
  note no = step_events_unreadable [OF assms(4)]
  have "process_one S R H E s (i, to_stream_dict F ev) w =
      (Inl (LibraryError ''ValidationError''), w\<lparr>os_tick := os_tick w + 2\<rparr>)"
    by (simp add: process_one_def Let_def obs_tick_def pydantic_laws.parse_stream_dict [OF assms(2)] no)
  moreover have "unacked (os_streams (snd (run_consumer_loop S R H E n w))) s i = Some (to_stream_dict F ev)"
    if "unacked (os_streams w) s i = Some (to_stream_dict F ev)"
    using stream_group.loop_tracks [OF assms(1,3) that, of R H n] no
    by (simp add: stream_group.tracked_def [OF assms(1)] settled_published [OF assms(2)])
  ultimately show ?thesis by simp
qed

lemma step_completions_block_the_consumer_witness:
  "mem_unacked (os_streams (snd (run_consumer_loop mem_stream_ops (lift_redis mem_redis) mem_hash sample_obs_env 7
       (sample_obs (sample_streams (sample_event (StepCompleted 1 9 ''a'' 0 5 0 []))) (\<lambda>_. None, \<lambda>_. None)))))
     ''executions'' (str_nat 0) = Some (to_stream_dict sample_format (sample_event (StepCompleted 1 9 ''a'' 0 5 0 [])))"
proof -
  have "pydantic_laws (oe_pydantic sample_obs_env) sample_format"
    using sample_pd.pydantic_laws_axioms by (simp add: sample_obs_env_def)
  moreover have "ev_body (sample_event (StepCompleted 1 9 ''a'' 0 5 0 [])) = StepCompleted 1 9 ''a'' 0 5 0 []"
    by (simp add: sample_event_def)
  ultimately show ?thesis
    using step_completions_block_the_consumer [OF mem_group.stream_group_axioms _ refl] sample_unacked by blast
qed

end
