(* ===== verification/Event_Stream.thy ===== *)
theory Event_Stream
  imports Stream_Consumer Workflow_Api "HOL-Library.Multiset"
begin

text \<open>
  \<open>stream_execution\<close> of \<open>routes/executions.py\<close> on its stream server, and any number of clients that
  watch executions at the same time: each is a generator of its own, but all of them read one
  execution's stream through the same consumer group. The locale \<open>group_log\<close> states what a group of
  the server does; the pure \<open>sse_generator\<close> of \<open>Workflow_Api\<close> is what one client makes of its reads.
\<close>

section \<open>The route\<close>

definition SSE_GROUP :: string where
  "SSE_GROUP = ''sse-stream-consumers''"

text \<open>
  What a generator works on: the server, and the frames it has yielded, each with the id of its
  message (the client gets the frame alone).
\<close>

record 'q sse_world =
  sw_server :: 'q
  sw_yielded :: "(string \<times> string) list"

definition on_server :: "('q \<Rightarrow> (exn + 'a) \<times> 'q) \<Rightarrow> ('q sse_world, 'a) py" where
  "on_server f = (\<lambda>w. case f (sw_server w) of (res, q) \<Rightarrow> (res, w\<lparr>sw_server := q\<rparr>))"

text \<open>The ownership check, the group and the name of the consumer.\<close>

definition stream_execution ::
  "bool \<Rightarrow> 'q stream_ops \<Rightarrow> wf_db \<Rightarrow> uuid \<Rightarrow> uuid \<Rightarrow> uuid \<Rightarrow> ('q sse_world, string) py" where
  "stream_execution byp S db u eid tid =
     seq (liftsum (stream_allowed byp eid tid db))
    (seq (tryexcept (on_server (q_create S (sse_stream eid) SSE_GROUP))
           (\<lambda>e. case e of
              ResponseError m \<Rightarrow> if sublist ''BUSYGROUP'' m then ret () else throw e
            | _ \<Rightarrow> throw e))
         (ret (''sse-'' @ uuid_str u)))"

text \<open>The two inner loops of \<open>event_generator\<close>; the result is whether the generator returns.\<close>

fun sse_deliver ::
  "'q stream_ops \<Rightarrow> (message \<Rightarrow> string) \<Rightarrow> string \<Rightarrow> (string \<times> message) list \<Rightarrow> ('q sse_world, bool) py" where
  "sse_deliver S dumps key [] = ret False"
| "sse_deliver S dumps key ((msg_id, decoded) # rest) =
     seq (on_server (q_ack S key SSE_GROUP msg_id))
    (seq (modify (\<lambda>w. w\<lparr>sw_yielded := sw_yielded w @ [(msg_id, sse_frame dumps decoded)]\<rparr>))
         (if terminal_message (msg_id, decoded) then ret True else sse_deliver S dumps key rest))"

text \<open>One round of its \<open>while\<close> loop.\<close>

definition sse_poll :: "'q stream_ops \<Rightarrow> (message \<Rightarrow> string) \<Rightarrow> string \<Rightarrow> string \<Rightarrow> ('q sse_world, bool) py" where
  "sse_poll S dumps key consumer_name =
     andthen (on_server (q_readgroup S key SSE_GROUP consumer_name 10 1000)) (\<lambda>results.
       if results = [] then ret False else sse_deliver S dumps key (concat (map snd results)))"

text \<open>At most \<open>n\<close> rounds of the loop.\<close>

fun sse_rounds ::
  "'q stream_ops \<Rightarrow> (message \<Rightarrow> string) \<Rightarrow> string \<Rightarrow> string \<Rightarrow> nat \<Rightarrow> ('q sse_world, bool) py" where
  "sse_rounds S dumps key c 0 = ret False"
| "sse_rounds S dumps key c (Suc n) =
     andthen (sse_poll S dumps key c) (\<lambda>finished. if finished then ret True else sse_rounds S dumps key c n)"

section \<open>Watchers\<close>

datatype watch_end = Open | Ended | Broken exn | Gone

record watcher =
  wa_execution :: uuid
  wa_consumer :: string
  wa_yielded :: "(string \<times> string) list"
  wa_end :: watch_end

record 'q watching =
  wy_server :: 'q
  wy_watchers :: "watcher list"

text \<open>
  \<open>add\<close> is the XADD of a worker. A watcher is interrupted between two rounds; an interruption at a
  command inside a round is one that raises.
\<close>

inductive watch_step ::
  "'q stream_ops \<Rightarrow> (string \<Rightarrow> message \<Rightarrow> 'q \<Rightarrow> 'q) \<Rightarrow> (message \<Rightarrow> string) \<Rightarrow> 'q watching \<Rightarrow> 'q watching \<Rightarrow> bool"
  for S add dumps where
  publishes: "watch_step S add dumps y (y\<lparr>wy_server := add s d (wy_server y)\<rparr>)"
| connects: "stream_execution byp S db u eid tid \<lparr>sw_server = wy_server y, sw_yielded = []\<rparr> = (Inr c, w) \<Longrightarrow>
    watch_step S add dumps y (y\<lparr>wy_server := sw_server w, wy_watchers := wy_watchers y @
      [\<lparr>wa_execution = eid, wa_consumer = c, wa_yielded = [], wa_end = Open\<rparr>]\<rparr>)"
| refused: "stream_execution byp S db u eid tid \<lparr>sw_server = wy_server y, sw_yielded = []\<rparr> = (Inl e, w) \<Longrightarrow>
    watch_step S add dumps y (y\<lparr>wy_server := sw_server w\<rparr>)"
| polls: "j < length (wy_watchers y) \<Longrightarrow> x = wy_watchers y ! j \<Longrightarrow> wa_end x = Open \<Longrightarrow>
    sse_poll S dumps (sse_stream (wa_execution x)) (wa_consumer x)
      \<lparr>sw_server = wy_server y, sw_yielded = wa_yielded x\<rparr> = (res, w) \<Longrightarrow>
    watch_step S add dumps y (y\<lparr>wy_server := sw_server w, wy_watchers := (wy_watchers y)
      [j := x\<lparr>wa_yielded := sw_yielded w,
              wa_end := (case res of Inl e \<Rightarrow> Broken e | Inr finished \<Rightarrow> if finished then Ended else Open)\<rparr>]\<rparr>)"
| leaves: "j < length (wy_watchers y) \<Longrightarrow> wa_end (wy_watchers y ! j) = Open \<Longrightarrow>
    watch_step S add dumps y (y\<lparr>wy_watchers := (wy_watchers y)[j := (wy_watchers y ! j)\<lparr>wa_end := Gone\<rparr>]\<rparr>)"

abbreviation watched where
  "watched S add dumps \<equiv> (watch_step S add dumps)\<^sup>*\<^sup>*"

section \<open>What a consumer group does\<close>

text \<open>
  The group of an execution's clients: what its members read, and what XADD and XGROUP CREATE from id 0 do.
\<close>

locale group_log = group_reads S SSE_GROUP entries pos
  for S :: "'q stream_ops" and add :: "string \<Rightarrow> message \<Rightarrow> 'q \<Rightarrow> 'q"
    and entries :: "'q \<Rightarrow> string \<Rightarrow> (string \<times> message) list" and pos :: "'q \<Rightarrow> string \<Rightarrow> nat" +
  assumes add_entries: "\<exists>i. i \<notin> fst ` set (entries q s) \<and> entries (add s d q) = (entries q)(s := entries q s @ [(i, d)])"
    and add_pos: "pos (add s d q) = pos q"
    and create_keeps_log: "entries (snd (q_create S s SSE_GROUP q)) = entries q" "pos (snd (q_create S s SSE_GROUP q)) = pos q"

definition framed :: "(message \<Rightarrow> string) \<Rightarrow> string \<times> message \<Rightarrow> string \<times> string" where
  "framed dumps m = (fst m, sse_frame dumps (snd m))"

lemma map_fst_framed [simp]: "map (fst \<circ> framed dumps) ms = map fst ms" "fst (framed dumps m) = fst m"
  by (simp_all add: framed_def)

lemma take_length_take: "take (length (take n xs)) xs = take n xs"
  by (cases "n \<le> length xs") simp_all

lemma until_terminal_length: "length (until_terminal ms) \<le> length ms"
  by (induction ms) (simp_all add: until_terminal_Cons, simp add: until_terminal_def)

lemma on_server_eq: "on_server f w = (fst (f (sw_server w)), w\<lparr>sw_server := snd (f (sw_server w))\<rparr>)"
  by (simp add: on_server_def split: prod.split)

context group_log
begin

text \<open>A delivery yields a prefix of its messages, up to a terminal one if it finishes.\<close>

lemma deliver:
  "sse_deliver S dumps key ms w = (res, w') \<Longrightarrow>
     entries (sw_server w') = entries (sw_server w) \<and> pos (sw_server w') = pos (sw_server w) \<and>
     (\<exists>xs ys. ms = xs @ ys \<and> sw_yielded w' = sw_yielded w @ map (framed dumps) xs \<and>
        (res = Inr True \<longrightarrow> xs \<noteq> [] \<and> terminal_message (last xs)))"
proof (induction ms arbitrary: w)
  case (Cons m ms)
  obtain i d where m: "m = (i, d)" by (cases m)
  let ?q = "snd (q_ack S key SSE_GROUP i (sw_server w))"
  let ?w = "w\<lparr>sw_server := ?q, sw_yielded := sw_yielded w @ [framed dumps m]\<rparr>"
  show ?case
  proof (cases "fst (q_ack S key SSE_GROUP i (sw_server w))")
    case (Inl e)
    with Cons.prems have "res = Inl e \<and> w' = w\<lparr>sw_server := ?q\<rparr>"
      by (auto simp: m seq_def andthen_def on_server_eq)
    then show ?thesis by (intro conjI exI [of _ "[]"] exI [of _ "m # ms"]) (simp_all add: ack_keeps_log)
  next
    case (Inr a)
    show ?thesis
    proof (cases "terminal_message m")
      case True
      with Inr Cons.prems have "res = Inr True \<and> w' = ?w"
        by (auto simp: m seq_def andthen_def on_server_eq framed_def)
      with True show ?thesis by (intro conjI exI [of _ "[m]"] exI [of _ ms]) (simp_all add: ack_keeps_log)
    next
      case False
      with Inr Cons.prems have "sse_deliver S dumps key ms ?w = (res, w')"
        by (auto simp: m seq_def andthen_def on_server_eq framed_def)
      from Cons.IH [OF this] obtain xs ys where IH: "ms = xs @ ys" "sw_yielded w' = sw_yielded ?w @ map (framed dumps) xs"
          "res = Inr True \<longrightarrow> xs \<noteq> [] \<and> terminal_message (last xs)"
          "entries (sw_server w') = entries ?q" "pos (sw_server w') = pos ?q" by auto
      then show ?thesis by (intro conjI exI [of _ "m # xs"] exI [of _ ys]) (simp_all add: ack_keeps_log)
    qed
  qed
qed auto

text \<open>A round moves the group past some messages and yields some of these.\<close>

lemma poll:
  assumes "sse_poll S dumps key c w = (res, w')"
  shows "entries (sw_server w') = entries (sw_server w) \<and>
    (\<exists>k xs. pos (sw_server w') = (pos (sw_server w))(key := pos (sw_server w) key + k) \<and>
       sw_yielded w' = sw_yielded w @ map (framed dumps) xs \<and>
       mset xs \<subseteq># mset (take k (drop (pos (sw_server w) key) (entries (sw_server w) key))) \<and>
       (res = Inr True \<longrightarrow> xs \<noteq> [] \<and> terminal_message (last xs)))"
proof -
  obtain r q where read: "q_readgroup S key SSE_GROUP c 10 1000 (sw_server w) = (r, q)" by fastforce
  have log: "entries q = entries (sw_server w)" using read_keeps_log [of key c 10 1000 "sw_server w"] read by simp
  obtain k where k: "pos q = (pos (sw_server w))(key := pos (sw_server w) key + k)"
    using read_moves [of key c 10 1000 "sw_server w"] read by auto
  show ?thesis
  proof (cases r)
    case (Inl e)
    with assms read have "res = Inl e \<and> w' = w\<lparr>sw_server := q\<rparr>" by (auto simp: sse_poll_def andthen_def on_server_def)
    with log k show ?thesis by (intro conjI exI [of _ k] exI [of _ "[]"]) simp_all
  next
    case (Inr batch)
    let ?ms = "concat (map snd batch)"
    have "sse_deliver S dumps key ?ms (w\<lparr>sw_server := q\<rparr>) = (res, w')"
      using assms read Inr by (auto simp: sse_poll_def andthen_def on_server_def split: if_splits)
    from deliver [OF this] obtain xs ys where d: "?ms = xs @ ys" "sw_yielded w' = sw_yielded w @ map (framed dumps) xs"
        "res = Inr True \<longrightarrow> xs \<noteq> [] \<and> terminal_message (last xs)" "entries (sw_server w') = entries q"
        "pos (sw_server w') = pos q" by auto
    have b: "?ms = take 10 (drop (pos (sw_server w) key) (entries (sw_server w) key))"
        "pos q key = pos (sw_server w) key + length ?ms"
      using read_gives [of key c 10 1000 "sw_server w" batch q] read Inr by simp_all
    with k have "k = length ?ms" by simp
    then have "?ms = take k (drop (pos (sw_server w) key) (entries (sw_server w) key))" using b(1) take_length_take by metis
    with d(1) have "mset xs \<subseteq># mset (take k (drop (pos (sw_server w) key) (entries (sw_server w) key)))"
      by (metis mset_append mset_subset_eq_add_left)
    with d k log show ?thesis by (intro conjI exI [of _ k] exI [of _ xs]) simp_all
  qed
qed

text \<open>Connecting, refused or not, leaves the streams and the group as they are.\<close>

lemma connect:
  assumes "stream_execution byp S db u eid tid w = (res, w')"
  shows "entries (sw_server w') = entries (sw_server w) \<and> pos (sw_server w') = pos (sw_server w)"
proof -
  have "sw_server w' = sw_server w \<or> sw_server w' = snd (q_create S (sse_stream eid) SSE_GROUP (sw_server w))"
    using assms
    by (auto simp: stream_execution_def seq_def andthen_def tryexcept_def on_server_eq split: sum.splits exn.splits if_splits)
  then show ?thesis by (auto simp: create_keeps_log)
qed

end

section \<open>The accounts of an execution\<close>

text \<open>The ids of the messages that the watchers of an execution have yielded, and of those that ended one.\<close>

definition yields :: "uuid \<Rightarrow> watcher list \<Rightarrow> string list" where
  "yields eid ws = concat (map (map fst \<circ> wa_yielded) (filter (\<lambda>x. wa_execution x = eid) ws))"

definition last_ids :: "uuid \<Rightarrow> watcher list \<Rightarrow> string list" where
  "last_ids eid ws = map (fst \<circ> last \<circ> wa_yielded) (filter (\<lambda>x. wa_execution x = eid \<and> wa_end x = Ended) ws)"

lemma yields_update:
  assumes "j < length ws" and "wa_execution x = wa_execution (ws ! j)"
    and "map fst (wa_yielded x) = map fst (wa_yielded (ws ! j)) @ ids"
  shows "mset (yields eid (ws[j := x])) = mset (yields eid ws) + (if wa_execution x = eid then mset ids else {#})"
  using assms
proof (induction ws arbitrary: j)
  case (Cons w ws)
  then show ?case by (cases j) (simp_all add: yields_def)
qed simp

lemma last_ids_update:
  assumes "j < length ws" and "wa_execution x = wa_execution (ws ! j)" and "wa_end (ws ! j) = Open"
  shows "mset (last_ids eid (ws[j := x])) = mset (last_ids eid ws) +
    (if wa_execution x = eid \<and> wa_end x = Ended then {#fst (last (wa_yielded x))#} else {#})"
  using assms
proof (induction ws arbitrary: j)
  case (Cons w ws)
  then show ?case by (cases j) (simp_all add: last_ids_def)
qed simp

lemma sse_stream_inj: "sse_stream e = sse_stream e' \<longleftrightarrow> e = e'"
  by (simp add: sse_stream_def uuid_str_inj)

lemma distinct_submset:
  assumes "mset xs \<subseteq># mset ys" and "distinct ys"
  shows "distinct xs"
  unfolding distinct_count_atmost_1
proof
  fix a
  have "count (mset xs) a \<le> count (mset ys) a" using assms(1) by (rule mset_subset_eq_count)
  also have "\<dots> \<le> 1" using assms(2) by (simp add: distinct_count_atmost_1)
  finally have once: "count (mset xs) a \<le> 1" .
  show "count (mset xs) a = (if a \<in> set xs then 1 else 0)"
  proof (cases "a \<in> set xs")
    case True
    then have "0 < count (mset xs) a" by simp
    with once have "count (mset xs) a = 1" by linarith
    with True show ?thesis by simp
  qed simp
qed

text \<open>Every yield is of its own message of the stream, and every end of its own terminal message.\<close>

definition accounted :: "(string \<times> message) list \<Rightarrow> uuid \<Rightarrow> watcher list \<Rightarrow> bool" where
  "accounted given eid ws \<longleftrightarrow> mset (yields eid ws) \<subseteq># mset (map fst given) \<and>
     mset (last_ids eid ws) \<subseteq># mset (map fst (filter terminal_message given))"

lemma accounted_append: "accounted g eid ws \<Longrightarrow> accounted (g @ g') eid ws"
  by (auto simp: accounted_def intro: subset_mset.order_trans)

lemma accounted_opened:
  "wa_yielded x = [] \<Longrightarrow> wa_end x = Open \<Longrightarrow> accounted g eid (ws @ [x]) = accounted g eid ws"
  by (simp add: accounted_def yields_def last_ids_def)

lemma accounted_other:
  assumes "j < length ws" and "wa_execution x = wa_execution (ws ! j)" and "wa_end (ws ! j) = Open"
    and "map fst (wa_yielded x) = map fst (wa_yielded (ws ! j)) @ ids" and "ids = [] \<and> wa_end x \<noteq> Ended \<or> wa_execution x \<noteq> eid"
  shows "accounted g eid (ws[j := x]) = accounted g eid ws"
  using yields_update [OF assms(1,2,4), of eid] last_ids_update [OF assms(1-3), of eid] assms(5)
  by (auto simp: accounted_def)

lemma accounted_poll:
  assumes "j < length ws" and "wa_execution x = wa_execution (ws ! j)" and "wa_end (ws ! j) = Open"
    and "wa_yielded x = wa_yielded (ws ! j) @ map (framed dumps) xs" and "mset xs \<subseteq># mset b"
    and "wa_end x = Ended \<longrightarrow> xs \<noteq> [] \<and> terminal_message (last xs)"
    and "accounted g eid ws"
  shows "accounted (g @ b) eid (ws[j := x])"
proof (cases "wa_execution x = eid")
  case True
  have "mset (map fst xs) \<subseteq># mset (map fst b)" using image_mset_subseteq_mono [OF assms(5), of fst] by simp
  moreover have "(if wa_end x = Ended then {#fst (last (wa_yielded x))#} else {#})
      \<subseteq># mset (map fst (filter terminal_message b))"
  proof (cases "wa_end x = Ended")
    case True
    then have last: "xs \<noteq> []" "terminal_message (last xs)" using assms(6) by simp_all
    then have "last xs \<in># mset xs" by simp
    then have "last xs \<in> set b" using mset_subset_eqD [OF assms(5)] by simp
    with last(2) have "last xs \<in> set (filter terminal_message b)" by simp
    then have "fst (last xs) \<in> set (map fst (filter terminal_message b))" by (simp only: set_map) (rule imageI)
    with last(1) assms(4) show ?thesis by (simp add: last_map)
  qed simp
  moreover have "mset (yields eid (ws[j := x])) = mset (yields eid ws) + mset (map fst xs)"
    using yields_update [OF assms(1,2), of "map fst xs" eid] assms(4) True by simp
  moreover have "mset (last_ids eid (ws[j := x])) = mset (last_ids eid ws) +
      (if wa_end x = Ended then {#fst (last (wa_yielded x))#} else {#})"
    using last_ids_update [OF assms(1-3), of eid] True by simp
  ultimately show ?thesis
    using assms(7) unfolding accounted_def filter_append map_append mset_append
    by (simp only: subset_mset.add_mono)
next
  case False
  then show ?thesis
    using accounted_append [OF assms(7), of b] accounted_other [OF assms(1-3), of "map fst xs" eid "g @ b"] assms(4) by simp
qed

context group_log
begin

lemma step_accounted:
  assumes "watch_step S add dumps y y'"
    and "accounted (take (pos (wy_server y) (sse_stream eid)) (entries (wy_server y) (sse_stream eid))) eid (wy_watchers y)"
  shows "accounted (take (pos (wy_server y') (sse_stream eid)) (entries (wy_server y') (sse_stream eid))) eid (wy_watchers y')"
  using assms(1)
proof (cases rule: watch_step.cases)
  case (publishes s d)
  obtain i where "entries (add s d (wy_server y)) = (entries (wy_server y))(s := entries (wy_server y) s @ [(i, d)])"
    using add_entries by blast
  with publishes assms(2) show ?thesis by (auto simp: add_pos intro: accounted_append)
next
  case (connects byp db u eid' tid c w)
  from connect [OF connects(2)] connects(1) assms(2) show ?thesis by (simp add: accounted_opened)
next
  case (refused byp db u eid' tid e w)
  from connect [OF refused(2)] refused(1) assms(2) show ?thesis by simp
next
  case (polls j x res w)
  let ?x = "x\<lparr>wa_yielded := sw_yielded w,
    wa_end := (case res of Inl e \<Rightarrow> Broken e | Inr finished \<Rightarrow> if finished then Ended else Open)\<rparr>"
  let ?q = "wy_server y" and ?key = "sse_stream (wa_execution x)"
  have x: "wa_execution ?x = wa_execution (wy_watchers y ! j)" "wa_end (wy_watchers y ! j) = Open" "wa_execution ?x = wa_execution x"
    using polls by simp_all
  from poll [OF polls(5)] obtain k xs where w: "entries (sw_server w) = entries ?q"
      "pos (sw_server w) = (pos ?q)(?key := pos ?q ?key + k)" "sw_yielded w = wa_yielded x @ map (framed dumps) xs"
      "mset xs \<subseteq># mset (take k (drop (pos ?q ?key) (entries ?q ?key)))"
      "res = Inr True \<longrightarrow> xs \<noteq> [] \<and> terminal_message (last xs)" by auto
  have ended: "wa_end ?x = Ended \<longrightarrow> xs \<noteq> [] \<and> terminal_message (last xs)"
    using w(5) by (auto split: sum.splits if_splits)
  show ?thesis
  proof (cases "wa_execution x = eid")
    case True
    have "accounted (take (pos ?q ?key) (entries ?q ?key) @ take k (drop (pos ?q ?key) (entries ?q ?key))) eid
        ((wy_watchers y)[j := ?x])"
      by (rule accounted_poll [where dumps = dumps and xs = xs, OF polls(2) x(1,2) _ w(4) ended]) (use True assms(2) polls(3) w(3) in simp_all)
    with True polls(1) w(1,2) show ?thesis by (simp add: take_add)
  next
    case False
    have "accounted g eid ((wy_watchers y)[j := ?x]) = accounted g eid (wy_watchers y)" for g
      by (rule accounted_other [OF polls(2) x(1,2), where ids = "map fst xs"]) (use False polls(3) w(3) in simp_all)
    with False polls(1) w(1,2) assms(2) show ?thesis by (simp add: sse_stream_inj)
  qed
next
  case (leaves j)
  have "accounted g eid ((wy_watchers y)[j := (wy_watchers y ! j)\<lparr>wa_end := Gone\<rparr>]) = accounted g eid (wy_watchers y)" for g
    by (rule accounted_other [OF leaves(2) _ leaves(3), where ids = "[]"]) simp_all
  with leaves(1) assms(2) show ?thesis by simp
qed

lemma step_distinct:
  assumes "watch_step S add dumps y y'" and "\<And>s. distinct (map fst (entries (wy_server y) s))"
  shows "distinct (map fst (entries (wy_server y') s))"
  using assms(1)
proof (cases rule: watch_step.cases)
  case (publishes s' d)
  obtain i where "i \<notin> fst ` set (entries (wy_server y) s')"
      "entries (add s' d (wy_server y)) = (entries (wy_server y))(s' := entries (wy_server y) s' @ [(i, d)])"
    using add_entries by blast
  with publishes assms(2) show ?thesis by simp
next
  case (connects byp db u eid' tid c w)
  from connect [OF connects(2)] connects(1) assms(2) show ?thesis by simp
next
  case (refused byp db u eid' tid e w)
  from connect [OF refused(2)] refused(1) assms(2) show ?thesis by simp
next
  case (polls j x res w)
  from poll [OF polls(5)] polls(1) assms(2) show ?thesis by simp
next
  case (leaves j)
  with assms(2) show ?thesis by simp
qed

lemma watched_accounted:
  assumes "watched S add dumps y y'" and "wy_watchers y = []" and "\<And>s. distinct (map fst (entries (wy_server y) s))"
  shows "accounted (take (pos (wy_server y') (sse_stream eid)) (entries (wy_server y') (sse_stream eid))) eid (wy_watchers y') \<and>
    (\<forall>s. distinct (map fst (entries (wy_server y') s)))"
  using assms(1)
proof (induction rule: rtranclp_induct)
  case base
  with assms(2,3) show ?case by (simp add: accounted_def yields_def last_ids_def)
next
  case (step y1 y2)
  from step.IH step_accounted [OF step.hyps(2)] step_distinct [OF step.hyps(2)] show ?case by blast
qed

lemma watchers_share:
  assumes "watched S add dumps y y'" and "wy_watchers y = []" and "\<And>s. distinct (map fst (entries (wy_server y) s))"
  shows "distinct (yields eid (wy_watchers y'))"
    and "set (yields eid (wy_watchers y')) \<subseteq> fst ` set (entries (wy_server y') (sse_stream eid))"
    and "length (filter (\<lambda>x. wa_execution x = eid \<and> wa_end x = Ended) (wy_watchers y')) \<le>
      length (filter terminal_message (entries (wy_server y') (sse_stream eid)))"
proof -
  let ?e = "entries (wy_server y') (sse_stream eid)" and ?p = "pos (wy_server y') (sse_stream eid)"
  have acc: "accounted (take ?p ?e) eid (wy_watchers y')" and d: "distinct (map fst ?e)"
    using watched_accounted [OF assms] by blast+
  have y: "mset (yields eid (wy_watchers y')) \<subseteq># mset (map fst (take ?p ?e))"
    and l: "mset (last_ids eid (wy_watchers y')) \<subseteq># mset (map fst (filter terminal_message (take ?p ?e)))"
    using acc by (simp_all only: accounted_def)
  have "distinct (map fst (take ?p ?e))" using d by (simp add: take_map [symmetric])
  with y show "distinct (yields eid (wy_watchers y'))"
    by (rule distinct_submset)
  show "set (yields eid (wy_watchers y')) \<subseteq> fst ` set ?e"
    using set_mset_mono [OF y] by (auto dest: in_set_takeD)
  have "length (filter terminal_message (take ?p ?e)) \<le> length (filter terminal_message ?e)"
    by (metis append_take_drop_id filter_append length_append le_add1)
  moreover have "length (last_ids eid (wy_watchers y')) \<le> length (filter terminal_message (take ?p ?e))"
    using size_mset_mono [OF l] by (simp only: size_mset length_map)
  ultimately show "length (filter (\<lambda>x. wa_execution x = eid \<and> wa_end x = Ended) (wy_watchers y')) \<le>
      length (filter terminal_message ?e)"
    by (simp add: last_ids_def)
qed

end

section \<open>A server that answers\<close>

text \<open>\<open>has q s\<close>: the group of the stream exists. Then no command fails.\<close>

locale calm_group = group_log S add entries pos
  for S :: "'q stream_ops" and add :: "string \<Rightarrow> message \<Rightarrow> 'q \<Rightarrow> 'q"
    and entries :: "'q \<Rightarrow> string \<Rightarrow> (string \<times> message) list" and pos :: "'q \<Rightarrow> string \<Rightarrow> nat" +
  fixes has :: "'q \<Rightarrow> string \<Rightarrow> bool"
  assumes create_has: "has (snd (q_create S s SSE_GROUP q)) s"
    and create_calm: "fst (q_create S s SSE_GROUP q) \<in> {Inr (), Inl (ResponseError ''BUSYGROUP Consumer Group name already exists'')}"
    and ack_calm: "has q s \<Longrightarrow> fst (q_ack S s SSE_GROUP i q) = Inr () \<and> has (snd (q_ack S s SSE_GROUP i q)) s"
    and read_calm: "has q s \<Longrightarrow> \<exists>res. fst (q_readgroup S s SSE_GROUP c n b q) = Inr res"
    and read_has: "has q s \<Longrightarrow> has (snd (q_readgroup S s SSE_GROUP c n b q)) s"
    and add_has: "has q s \<Longrightarrow> has (add s' d q) s"
begin

lemma calm_connect:
  assumes "stream_allowed byp eid tid db = Inr ()"
  shows "stream_execution byp S db u eid tid w =
    (Inr (''sse-'' @ uuid_str u), w\<lparr>sw_server := snd (q_create S (sse_stream eid) SSE_GROUP (sw_server w))\<rparr>)"
proof -
  have busy: "sublist ''BUSYGROUP'' ''BUSYGROUP Consumer Group name already exists''"
    using sublist_appendI [of "''BUSYGROUP''" "[]" "'' Consumer Group name already exists''"] by simp
  show ?thesis
    using create_calm [of "sse_stream eid" "sw_server w"] assms
    by (auto simp: stream_execution_def seq_def andthen_def tryexcept_def on_server_eq busy split: sum.splits)
qed

lemma calm_deliver:
  assumes "has (sw_server w) key"
  shows "\<exists>w'. sse_deliver S dumps key ms w = (Inr (\<exists>m \<in> set ms. terminal_message m), w') \<and>
    sw_yielded w' = sw_yielded w @ map (framed dumps) (until_terminal ms) \<and> has (sw_server w') key"
  using assms
proof (induction ms arbitrary: w)
  case (Cons m ms)
  obtain i d where m: "m = (i, d)" by (cases m)
  let ?w = "w\<lparr>sw_server := snd (q_ack S key SSE_GROUP i (sw_server w)), sw_yielded := sw_yielded w @ [framed dumps m]\<rparr>"
  have ack: "fst (q_ack S key SSE_GROUP i (sw_server w)) = Inr ()" "has (sw_server ?w) key"
    using ack_calm [OF Cons.prems] by simp_all
  have "sse_deliver S dumps key (m # ms) w = (if terminal_message m then ret True else sse_deliver S dumps key ms) ?w"
    using ack(1) by (simp add: m seq_def andthen_def on_server_eq framed_def)
  with Cons.IH [OF ack(2)] ack(2) show ?case by (auto simp: until_terminal_Cons)
qed (auto simp: until_terminal_def)

text \<open>What a client gets of a delivery is what \<open>sse_entries\<close> makes of it.\<close>

lemma calm_deliver_entries:
  assumes "has (sw_server w) key"
  shows "\<exists>w'. sse_deliver S dumps key ms w = (Inr (snd (snd (sse_entries dumps ms))), w') \<and>
    map snd (sw_yielded w') = map snd (sw_yielded w) @ fst (sse_entries dumps ms)"
  using calm_deliver [OF assms, of dumps ms] by (auto simp: sse_entries_spec framed_def)

text \<open>A round takes the first ten messages that the group has not given out.\<close>

lemma calm_poll:
  fixes w key
  defines "l \<equiv> drop (pos (sw_server w) key) (entries (sw_server w) key)"
  assumes "has (sw_server w) key"
  obtains w1 where "sse_poll S dumps key c w = (Inr (\<exists>m \<in> set (take 10 l). terminal_message m), w1)"
    "sw_yielded w1 = sw_yielded w @ map (framed dumps) (until_terminal (take 10 l))" "has (sw_server w1) key"
    "entries (sw_server w1) = entries (sw_server w)" "pos (sw_server w1) key = pos (sw_server w) key + length (take 10 l)"
    "drop (pos (sw_server w1) key) (entries (sw_server w1) key) = drop 10 l"
proof -
  let ?q = "sw_server w"
  obtain res q where read: "q_readgroup S key SSE_GROUP c 10 1000 ?q = (Inr res, q)"
    using read_calm [OF assms(2), of c 10 1000] by (metis prod.collapse)
  have q: "entries q = entries ?q" "has q key" "concat (map snd res) = take 10 l" "pos q key = pos ?q key + length (take 10 l)"
    using read_keeps_log [of key c 10 1000 ?q] read_has [OF assms(2), of c 10 1000] read_gives [OF read] read
    by (simp_all add: l_def)
  have poll: "sse_poll S dumps key c w = sse_deliver S dumps key (take 10 l) (w\<lparr>sw_server := q\<rparr>)"
    using read q(3) by (auto simp: sse_poll_def andthen_def on_server_eq)
  obtain w1 where w1: "sse_poll S dumps key c w = (Inr (\<exists>m \<in> set (take 10 l). terminal_message m), w1)"
      "sw_yielded w1 = sw_yielded w @ map (framed dumps) (until_terminal (take 10 l))" "has (sw_server w1) key"
    using calm_deliver [of "w\<lparr>sw_server := q\<rparr>" key dumps "take 10 l"] q(2) poll by auto
  have log: "entries (sw_server w1) = entries ?q" "pos (sw_server w1) key = pos ?q key + length (take 10 l)"
    using deliver [OF poll [symmetric, unfolded w1(1)]] q(1,4) by simp_all
  have "drop (pos (sw_server w1) key) (entries (sw_server w1) key) = drop 10 l"
    unfolding l_def by (cases "length l \<le> 10") (use log in \<open>auto simp: l_def add.commute\<close>)
  then show ?thesis by (rule that [OF w1 log])
qed

lemma calm_rounds:
  assumes "has (sw_server w) key" and "length (drop (pos (sw_server w) key) (entries (sw_server w) key)) \<le> 10 * n"
  shows "\<exists>w'. sse_rounds S dumps key c n w =
      (Inr (\<exists>m \<in> set (drop (pos (sw_server w) key) (entries (sw_server w) key)). terminal_message m), w') \<and>
    sw_yielded w' = sw_yielded w @ map (framed dumps) (until_terminal (drop (pos (sw_server w) key) (entries (sw_server w) key))) \<and>
    entries (sw_server w') = entries (sw_server w) \<and>
    pos (sw_server w) key + length (until_terminal (drop (pos (sw_server w) key) (entries (sw_server w) key)))
      \<le> pos (sw_server w') key \<and> has (sw_server w') key"
  using assms
proof (induction n arbitrary: w)
  case 0
  then show ?case by (simp add: until_terminal_def)
next
  case (Suc n)
  let ?q = "sw_server w"
  define l where "l = drop (pos ?q key) (entries ?q key)"
  obtain w1 where w1: "sse_poll S dumps key c w = (Inr (\<exists>m \<in> set (take 10 l). terminal_message m), w1)"
      "sw_yielded w1 = sw_yielded w @ map (framed dumps) (until_terminal (take 10 l))" "has (sw_server w1) key"
    and log: "entries (sw_server w1) = entries ?q" "pos (sw_server w1) key = pos ?q key + length (take 10 l)"
    and rest: "drop (pos (sw_server w1) key) (entries (sw_server w1) key) = drop 10 l"
    by (rule calm_poll [OF Suc.prems(1), of dumps c, folded l_def]) (rule that)
  have split: "until_terminal l = (if \<exists>m \<in> set (take 10 l). terminal_message m then until_terminal (take 10 l)
      else take 10 l @ until_terminal (drop 10 l))"
    using until_terminal_append [of "take 10 l" "drop 10 l"] by (simp only: append_take_drop_id)
  have ends: "(\<exists>m \<in> set l. terminal_message m) \<longleftrightarrow>
      (\<exists>m \<in> set (take 10 l). terminal_message m) \<or> (\<exists>m \<in> set (drop 10 l). terminal_message m)"
    by (metis Un_iff append_take_drop_id set_append)
  show ?case unfolding l_def [symmetric]
  proof (cases "\<exists>m \<in> set (take 10 l). terminal_message m")
    case True
    with w1 log split ends until_terminal_length [of "take 10 l"]
    show "\<exists>w'. sse_rounds S dumps key c (Suc n) w = (Inr (\<exists>m \<in> set l. terminal_message m), w') \<and>
      sw_yielded w' = sw_yielded w @ map (framed dumps) (until_terminal l) \<and> entries (sw_server w') = entries ?q \<and>
      pos ?q key + length (until_terminal l) \<le> pos (sw_server w') key \<and> has (sw_server w') key" by simp
  next
    case False
    have "length (drop (pos (sw_server w1) key) (entries (sw_server w1) key)) \<le> 10 * n"
      using Suc.prems(2) unfolding rest by (simp add: l_def)
    from Suc.IH [OF w1(3) this] obtain w' where w': "sse_rounds S dumps key c n w1 = (Inr (\<exists>m \<in> set (drop 10 l). terminal_message m), w')"
        "sw_yielded w' = sw_yielded w1 @ map (framed dumps) (until_terminal (drop 10 l))"
        "entries (sw_server w') = entries (sw_server w1)"
        "pos (sw_server w1) key + length (until_terminal (drop 10 l)) \<le> pos (sw_server w') key" "has (sw_server w') key"
      unfolding rest by auto
    have yes: "until_terminal l = until_terminal (take 10 l) @ until_terminal (drop 10 l)"
        "length (until_terminal (take 10 l)) = length (take 10 l)"
        "(\<exists>m \<in> set l. terminal_message m) = (\<exists>m \<in> set (drop 10 l). terminal_message m)"
      using False split ends until_terminal_none [OF False] by simp_all
    show "\<exists>w'. sse_rounds S dumps key c (Suc n) w = (Inr (\<exists>m \<in> set l. terminal_message m), w') \<and>
      sw_yielded w' = sw_yielded w @ map (framed dumps) (until_terminal l) \<and> entries (sw_server w') = entries ?q \<and>
      pos ?q key + length (until_terminal l) \<le> pos (sw_server w') key \<and> has (sw_server w') key"
      unfolding yes(1,3) length_append yes(2)
      by (intro exI [of _ w']) (use w' w1 log False in \<open>simp add: andthen_def\<close>)
  qed
qed

end

section \<open>An in-memory server\<close>

text \<open>A stream is its log, with the position of the group once it exists; a message's id is its index.\<close>

type_synonym group_streams = "string \<Rightarrow> message list \<times> nat option"

definition group_entries :: "group_streams \<Rightarrow> string \<Rightarrow> (string \<times> message) list" where
  "group_entries q s = map (\<lambda>(k, d). (str_nat k, d)) (enumerate 0 (fst (q s)))"

definition group_pos :: "group_streams \<Rightarrow> string \<Rightarrow> nat" where
  "group_pos q s = (case snd (q s) of None \<Rightarrow> 0 | Some p \<Rightarrow> p)"

definition group_add :: "string \<Rightarrow> message \<Rightarrow> group_streams \<Rightarrow> group_streams" where
  "group_add s d q = q(s := (fst (q s) @ [d], snd (q s)))"

definition group_stream_ops :: "group_streams stream_ops" where
  "group_stream_ops =
     \<lparr>q_create = (\<lambda>s g q. case snd (q s) of
        Some _ \<Rightarrow> (Inl (ResponseError ''BUSYGROUP Consumer Group name already exists''), q)
      | None \<Rightarrow> (Inr (), q(s := (fst (q s), Some 0)))),
      q_readgroup = (\<lambda>s g c n b q. case snd (q s) of
        None \<Rightarrow> (Inl (ResponseError ''NOGROUP''), q)
      | Some p \<Rightarrow>
          let ms = take n (drop p (group_entries q s)) in
          (Inr (if ms = [] then [] else [(s, ms)]), q(s := (fst (q s), Some (p + length ms))))),
      q_ack = (\<lambda>s g i q. (Inr (), q)),
      q_autoclaim = (\<lambda>s g c idle n q. (Inr [], q))\<rparr>"

lemma group_entries_add: "group_entries (group_add s d q) = (group_entries q)(s := group_entries q s @ [(str_nat (length (fst (q s))), d)])"
  by (rule ext) (simp add: group_entries_def group_add_def enumerate_append_eq)

lemma group_entries_fresh: "str_nat (length (fst (q s))) \<notin> fst ` set (group_entries q s)"
  by (auto simp: group_entries_def str_nat_inj in_set_enumerate_eq)

interpretation mem_sse: calm_group group_stream_ops group_add group_entries group_pos "\<lambda>q s. snd (q s) \<noteq> None"
proof unfold_locales
  show "\<exists>i. i \<notin> fst ` set (group_entries q s) \<and> group_entries (group_add s d q) = (group_entries q)(s := group_entries q s @ [(i, d)])"
    for q s d using group_entries_fresh group_entries_add by blast
  show "group_pos (group_add s d q) = group_pos q" for s d q
    by (rule ext) (simp add: group_pos_def group_add_def)
  show "concat (map snd res) = take n (drop (group_pos q s) (group_entries q s)) \<and>
      group_pos q' s = group_pos q s + length (concat (map snd res))"
    if "q_readgroup group_stream_ops s SSE_GROUP c n b q = (Inr res, q')" for s c n b q res q'
    using that by (auto simp: group_stream_ops_def group_pos_def Let_def split: option.splits)
qed (auto simp: group_stream_ops_def group_add_def group_entries_def [abs_def] group_pos_def Let_def fun_eq_iff split: option.splits)

section \<open>Properties\<close>

text \<open>
  C21: Whatever workers publish, whatever clients connect, poll and leave, and whatever commands fail:
  no message of an execution is yielded twice, by one watcher or by two, since all watchers of an
  execution share one consumer group; and at most as many watchers ever see their stream end as
  there are terminal messages.
\<close>

lemma watchers_split_the_stream:
  assumes "group_log S add entries pos" and "watched S add dumps y y'"
    and "wy_watchers y = []" and "\<And>s. distinct (map fst (entries (wy_server y) s))"
  shows "distinct (yields eid (wy_watchers y')) \<and>
    set (yields eid (wy_watchers y')) \<subseteq> fst ` set (entries (wy_server y') (sse_stream eid)) \<and>
    length (filter (\<lambda>x. wa_execution x = eid \<and> wa_end x = Ended) (wy_watchers y')) \<le>
      length (filter terminal_message (entries (wy_server y') (sse_stream eid)))"
  using group_log.watchers_share [OF assms] by blast

text \<open>
  C23: On a server that answers, the first watcher of an execution whose messages end with the terminal
  one gets every message in order, and its stream ends exactly if there is a terminal message. A
  watcher that connects afterwards, for instance the same client again, gets nothing, and its stream
  does not end in any number of rounds.
\<close>

lemma only_the_first_watcher_is_served:
  assumes "calm_group S add entries pos has" and "stream_allowed byp eid tid db = Inr ()"
    and "pos q (sse_stream eid) = 0" and "until_terminal (entries q (sse_stream eid)) = entries q (sse_stream eid)"
    and "length (entries q (sse_stream eid)) \<le> 10 * n"
  shows "\<exists>c w1 w2 c' w3 w4.
    stream_execution byp S db u eid tid \<lparr>sw_server = q, sw_yielded = []\<rparr> = (Inr c, w1) \<and>
    sse_rounds S dumps (sse_stream eid) c n w1 =
      (Inr (\<exists>m \<in> set (entries q (sse_stream eid)). terminal_message m), w2) \<and>
    sw_yielded w2 = map (framed dumps) (entries q (sse_stream eid)) \<and>
    stream_execution byp S db u' eid tid \<lparr>sw_server = sw_server w2, sw_yielded = []\<rparr> = (Inr c', w3) \<and>
    sse_rounds S dumps (sse_stream eid) c' m w3 = (Inr False, w4) \<and> sw_yielded w4 = []"
proof -
  let ?k = "sse_stream eid"
  let ?w1 = "\<lparr>sw_server = snd (q_create S ?k SSE_GROUP q), sw_yielded = []\<rparr>"
  note connect = calm_group.calm_connect [OF assms(1,2)] and rounds = calm_group.calm_rounds [OF assms(1)]
    and created = calm_group.create_has [OF assms(1)]
    and kept = group_log.create_keeps_log [OF calm_group.axioms(1) [OF assms(1)]]
  have "has (sw_server ?w1) ?k" "drop (pos (sw_server ?w1) ?k) (entries (sw_server ?w1) ?k) = entries q ?k"
    using created kept assms(3) by simp_all
  then obtain w2 where w2: "sse_rounds S dumps ?k (''sse-'' @ uuid_str u) n ?w1 = (Inr (\<exists>m \<in> set (entries q ?k). terminal_message m), w2)"
      "sw_yielded w2 = map (framed dumps) (entries q ?k)" "entries (sw_server w2) = entries q"
      "length (entries q ?k) \<le> pos (sw_server w2) ?k"
    using rounds [of ?w1 ?k n dumps "''sse-'' @ uuid_str u"] assms(3-5) kept by auto
  let ?w3 = "\<lparr>sw_server = snd (q_create S ?k SSE_GROUP (sw_server w2)), sw_yielded = []\<rparr>"
  have "has (sw_server ?w3) ?k" "drop (pos (sw_server ?w3) ?k) (entries (sw_server ?w3) ?k) = []"
    using created kept w2(3,4) by simp_all
  then obtain w4 where w4: "sse_rounds S dumps ?k (''sse-'' @ uuid_str u') m ?w3 = (Inr False, w4)" "sw_yielded w4 = []"
    using rounds [of ?w3 ?k m dumps "''sse-'' @ uuid_str u'"] by (auto simp: until_terminal_def)
  have "stream_execution byp S db u eid tid \<lparr>sw_server = q, sw_yielded = []\<rparr> = (Inr (''sse-'' @ uuid_str u), ?w1)"
    "stream_execution byp S db u' eid tid \<lparr>sw_server = sw_server w2, sw_yielded = []\<rparr> = (Inr (''sse-'' @ uuid_str u'), ?w3)"
    by (simp_all add: connect)
  with w2(1,2) w4 show ?thesis by blast
qed

definition completed_message :: message where
  "completed_message = [(''event_type'', ''execution.completed'')]"

definition sample_watching :: "group_streams watching" where
  "sample_watching = \<lparr>wy_server = (\<lambda>_. ([completed_message], None)), wy_watchers = []\<rparr>"

lemma sample_allowed: "stream_allowed True 1 7 (sv_db (sample_service RUNNING)) = Inr ()"
  by (simp add: stream_allowed_def sample_service_def sample_row_def select_rows_def)

lemma sample_poll:
  "sse_poll group_stream_ops dumps (sse_stream 1) c
     \<lparr>sw_server = (\<lambda>_. ([completed_message], None))(sse_stream 1 := ([completed_message], Some 0)), sw_yielded = []\<rparr> =
   (Inr True, \<lparr>sw_server = (\<lambda>_. ([completed_message], None))(sse_stream 1 := ([completed_message], Some 1)),
      sw_yielded = [(str_nat 0, sse_frame dumps completed_message)]\<rparr>)"
  by (simp add: sse_poll_def andthen_def on_server_eq group_stream_ops_def group_entries_def Let_def seq_def
      terminal_message_def completed_message_def SSE_TERMINAL_def)

lemma sample_watched:
  "watched group_stream_ops group_add dumps sample_watching
     \<lparr>wy_server = (\<lambda>_. ([completed_message], None))(sse_stream 1 := ([completed_message], Some 1)),
      wy_watchers = [\<lparr>wa_execution = 1, wa_consumer = ''sse-'' @ uuid_str 2,
        wa_yielded = [(str_nat 0, sse_frame dumps completed_message)], wa_end = Ended\<rparr>]\<rparr>"
proof -
  let ?x = "\<lparr>wa_execution = 1, wa_consumer = ''sse-'' @ uuid_str 2, wa_yielded = [], wa_end = Open\<rparr>"
  let ?y = "\<lparr>wy_server = (\<lambda>_. ([completed_message], None))(sse_stream 1 := ([completed_message], Some 0)), wy_watchers = [?x]\<rparr>"
  have "stream_execution True group_stream_ops (sv_db (sample_service RUNNING)) 2 1 7
      \<lparr>sw_server = wy_server sample_watching, sw_yielded = []\<rparr> = (Inr (''sse-'' @ uuid_str 2),
      \<lparr>sw_server = (\<lambda>_. ([completed_message], None))(sse_stream 1 := ([completed_message], Some 0)), sw_yielded = []\<rparr>)"
    unfolding mem_sse.calm_connect [OF sample_allowed] by (simp add: group_stream_ops_def sample_watching_def)
  from watch_step.connects [OF this, of group_add dumps]
  have connected: "watch_step group_stream_ops group_add dumps sample_watching ?y" by (simp add: sample_watching_def)
  have polled: "watch_step group_stream_ops group_add dumps ?y
      \<lparr>wy_server = (\<lambda>_. ([completed_message], None))(sse_stream 1 := ([completed_message], Some 1)),
       wy_watchers = [?x\<lparr>wa_yielded := [(str_nat 0, sse_frame dumps completed_message)], wa_end := Ended\<rparr>]\<rparr>"
    using watch_step.polls [of 0 ?y ?x group_stream_ops dumps "Inr True" _ group_add]
      sample_poll [of dumps "wa_consumer ?x"] by simp
  from r_into_rtranclp [of "watch_step group_stream_ops group_add dumps", OF connected] polled
  show ?thesis by (auto intro: rtranclp.rtrancl_into_rtrancl)
qed

lemma watchers_split_the_stream_witness:
  "\<exists>y. watched group_stream_ops group_add (\<lambda>_. []) sample_watching y \<and> length (wy_watchers y) = 1 \<and>
     distinct (yields 1 (wy_watchers y)) \<and>
     length (filter (\<lambda>x. wa_execution x = 1 \<and> wa_end x = Ended) (wy_watchers y)) \<le> 1"
proof -
  have none: "wy_watchers sample_watching = []" by (simp add: sample_watching_def)
  have ids: "distinct (map fst (group_entries (wy_server sample_watching) s))" for s
    by (simp add: sample_watching_def group_entries_def)
  show ?thesis
    using sample_watched [of "\<lambda>_. []"]
      watchers_split_the_stream [OF mem_sse.group_log_axioms, OF sample_watched none ids, of 1]
    by (auto simp: group_entries_def)
qed

lemma only_the_first_watcher_is_served_witness:
  "\<exists>c w1 w2 c' w3 w4.
    stream_execution True group_stream_ops (sv_db (sample_service RUNNING)) 2 1 7
      \<lparr>sw_server = wy_server sample_watching, sw_yielded = []\<rparr> = (Inr c, w1) \<and>
    sse_rounds group_stream_ops (\<lambda>_. []) (sse_stream 1) c 1 w1 = (Inr True, w2) \<and>
    stream_execution True group_stream_ops (sv_db (sample_service RUNNING)) 3 1 7
      \<lparr>sw_server = sw_server w2, sw_yielded = []\<rparr> = (Inr c', w3) \<and>
    sse_rounds group_stream_ops (\<lambda>_. []) (sse_stream 1) c' 5 w3 = (Inr False, w4) \<and> sw_yielded w4 = []"
proof -
  have log: "group_entries (wy_server sample_watching) (sse_stream 1) = [(str_nat 0, completed_message)]"
    by (simp add: sample_watching_def group_entries_def)
  have "terminal_message (str_nat 0, completed_message)"
    by (simp add: terminal_message_def completed_message_def SSE_TERMINAL_def)
  then show ?thesis
    using only_the_first_watcher_is_served [OF mem_sse.calm_group_axioms sample_allowed,
        of "wy_server sample_watching" 1 2 "\<lambda>_. []" 3 5]
    unfolding log by (auto simp: until_terminal_Cons sample_watching_def group_pos_def)
qed

end
