(* ===== verification/Run_Events.thy ===== *)
theory Run_Events
  imports Executor_Runs
begin

text \<open>
  What a run of the executor publishes, on the stream of its execution and on the global one, in every
  environment.
\<close>

section \<open>Streams and keys\<close>

text \<open>The events on a stream and their types, in order.\<close>

definition on_stream :: "string \<Rightarrow> (string \<times> event) list \<Rightarrow> event list" where
  "on_stream s sent = map snd (filter (\<lambda>m. fst m = s) sent)"

abbreviation streamed_types :: "string \<Rightarrow> 'r exec_world \<Rightarrow> string list" where
  "streamed_types s w \<equiv> map (event_type \<circ> ev_body) (on_stream s (xw_sent w))"

text \<open>
  A primary key is never changed by another session. \<open>keyed\<close>: every version of the row that the
  run knows has the key of its execution.
\<close>

definition keys_stay :: "exec_env \<Rightarrow> bool" where
  "keys_stay E \<longleftrightarrow> (\<forall>n r. ex_id (ee_others E n r) = ex_id r)"

definition keyed :: "uuid \<Rightarrow> 'r exec_world \<Rightarrow> bool" where
  "keyed eid w \<longleftrightarrow> ex_id (xw_row w) = eid \<and> ex_id (seen_row w) = eid"

lemma keys_stayD [simp]: "keys_stay E \<Longrightarrow> ex_id (ee_others E n r) = ex_id r"
  by (simp add: keys_stay_def)

lemma on_stream_append [simp]: "on_stream s (xs @ ys) = on_stream s xs @ on_stream s ys"
  by (simp add: on_stream_def)

lemma alone_keys_stay: "alone E \<Longrightarrow> keys_stay E"
  by (simp add: keys_stay_def)

lemma merge_columns_key [simp]: "ex_id (merge_columns row loaded base) = ex_id base"
  by (simp add: merge_columns_def)

lemma keyed_flush [simp]: "keys_stay E \<Longrightarrow> keyed eid (flush_row E w) = keyed eid w"
  by (auto simp: keyed_def seen_row_def flush_row_def Let_def split: option.splits)

lemma keyed_refresh [simp]: "keys_stay E \<Longrightarrow> keyed eid w \<Longrightarrow> keyed eid (refresh_row E w)"
  by (auto simp: keyed_def seen_row_def refresh_row_def Let_def split: option.splits)

lemma keyed_commit [simp]: "keys_stay E \<Longrightarrow> keyed eid (commit_tx E w) = keyed eid w"
  using keyed_flush [of E eid w]
  by (auto simp: keyed_def seen_row_def commit_tx_def Let_def split: option.splits)

lemma keyed_frame [simp]:
  "keyed eid (w\<lparr>xw_tick := n\<rparr>) = keyed eid w" "keyed eid (w\<lparr>xw_sent := l\<rparr>) = keyed eid w"
  "keyed eid (w\<lparr>xw_ctx := c\<rparr>) = keyed eid w" "keyed eid (w\<lparr>xw_cost := t\<rparr>) = keyed eid w"
  "keyed eid (w\<lparr>xw_step_name := nm\<rparr>) = keyed eid w" "keyed eid (w\<lparr>xw_new_ckpts := ks\<rparr>) = keyed eid w"
  "keyed eid (w\<lparr>xw_locks := rd\<rparr>) = keyed eid w"
  by (simp_all add: keyed_def seen_row_def split: option.splits)

lemma keyed_columns [simp]:
  "r = xw_row w \<Longrightarrow> keyed eid (w\<lparr>xw_row := r\<lparr>ex_context := c\<rparr>\<rparr>) = keyed eid w"
  "r = xw_row w \<Longrightarrow> keyed eid (w\<lparr>xw_row := r\<lparr>ex_status := st, ex_last_heartbeat := h\<rparr>\<rparr>) = keyed eid w"
  "r = xw_row w \<Longrightarrow> keyed eid (w\<lparr>xw_row := r\<lparr>ex_status := st, ex_last_heartbeat := h,
     ex_error_message := m, ex_pause_reason := p\<rparr>\<rparr>) = keyed eid w"
  by (simp_all add: keyed_def seen_row_def split: option.splits)

text \<open>
  \<open>adds E eid w ts w'\<close>: since \<open>w\<close>, events of the types \<open>ts\<close> have been put on the stream of the execution,
  and on the global one too if no publish fails.
\<close>

definition adds :: "exec_env \<Rightarrow> uuid \<Rightarrow> 'r exec_world \<Rightarrow> string list \<Rightarrow> 'r exec_world \<Rightarrow> bool" where
  "adds E eid w ts w' \<longleftrightarrow> keyed eid w' \<and>
     streamed_types (sse_stream eid) w' = streamed_types (sse_stream eid) w @ ts \<and>
     ((\<forall>n. ee_xadd E n = None) \<longrightarrow> streamed_types ''executions'' w' = streamed_types ''executions'' w @ ts)"

lemma adds_trans: "adds E eid w ts w' \<Longrightarrow> adds E eid w' ts' w'' \<Longrightarrow> adds E eid w (ts @ ts') w''"
  by (simp add: adds_def)

lemma wp_publish_adds:
  assumes "keyed eid w" and "\<And>w'. adds E eid w [event_type body] w' \<Longrightarrow> Q () w'"
    and "\<And>e w'. adds E eid w [] w' \<Longrightarrow> X e w'"
  shows "wp (publish E body) Q X w"
proof -
  have streams: "sse_stream eid \<noteq> ''executions''" "''executions'' \<noteq> sse_stream eid" by (simp_all add: sse_stream_def)
  have eid: "ex_id (xw_row w) = eid" using assms(1) by (simp add: keyed_def)
  let ?ev = "new_event E body w"
  have none: "X e (w\<lparr>xw_tick := n\<rparr>)" for e n
    using assms(1) by (intro assms(3)) (simp add: adds_def)
  have one: "X e (w\<lparr>xw_sent := xw_sent w @ [(''executions'', ?ev)], xw_tick := n\<rparr>)" if "ee_xadd E m = Some e" for e m n
    using assms(1) that by (intro assms(3)) (auto simp: adds_def on_stream_def streams)
  have both: "Q () (w\<lparr>xw_tick := n, xw_sent := xw_sent w @ [(''executions'', ?ev), (sse_stream (ex_id (xw_row w)), ?ev)]\<rparr>)" for n
    using assms(1) unfolding eid by (intro assms(2)) (simp add: adds_def on_stream_def streams)
  show ?thesis unfolding wp_publish_eq Let_def by (auto split: option.split intro: none one both)
qed

text \<open>The parts of a run, in every environment.\<close>

lemma checkpoint_before_adds:
  assumes "keys_stay E" and "keyed eid w"
  shows "wp (checkpoint_before_step E i cfg) (\<lambda>_ w'. adds E eid w [] w') (\<lambda>_ _. False) w"
  using assms by (simp add: checkpoint_before_step_def Let_def adds_def)

lemma step_work_adds:
  assumes "keys_stay E" and "keyed eid w"
  shows "wp (step_work E i name) (\<lambda>_ w'. adds E eid w [''execution.step.completed''] w') (\<lambda>_ w'. adds E eid w [] w') w"
  using assms
  by (auto simp: step_work_def Let_def adds_def split: sum.splits intro!: wp_publish_adds [where eid = eid])

lemma run_step_adds:
  assumes "keys_stay E" and "keyed eid w"
  shows "wp (run_step E x) (\<lambda>go w'. adds E eid w (if go then [''execution.step.completed''] else []) w')
    (\<lambda>_ w'. adds E eid w [] w') w"
proof -
  obtain i s where x: "x = (i, s)" by fastforce
  let ?w = "(refresh_row E w)\<lparr>xw_step_name := sc_name (ws_config s)\<rparr>"
  have keyed: "keyed eid ?w" and from_w: "adds E eid ?w = adds E eid w" using assms by (simp_all add: adds_def fun_eq_iff)
  have work: "wp (step_work E i name) (\<lambda>_. adds E eid w [''execution.step.completed'']) (\<lambda>_. adds E eid w []) w1"
    if "adds E eid w [] w1" for name w1
  proof -
    have "keyed eid w1" using that by (simp add: adds_def)
    from step_work_adds [OF assms(1) this] show ?thesis by (rule wp_mono) (auto dest: adds_trans [OF that])
  qed
  have "wp (seq (checkpoint_before_step E i (ws_config s)) (seq (step_work E i (sc_name (ws_config s))) (ret True)))
      (\<lambda>go w'. adds E eid w (if go then [''execution.step.completed''] else []) w') (\<lambda>_ w'. adds E eid w [] w') ?w"
    by simp (rule wp_mono [OF checkpoint_before_adds [OF assms(1) keyed, unfolded from_w]]; auto intro!: wp_mono [OF work])
  with assms show ?thesis by (auto simp: run_step_def x Let_def adds_def)
qed

lemma step_loop_adds:
  fixes w :: "'r exec_world"
  assumes "keys_stay E" and "keyed eid w"
  shows "wp (step_loop E xs)
    (\<lambda>go w'. \<exists>k \<le> length xs. adds E eid w (replicate k ''execution.step.completed'') w' \<and> (go \<longrightarrow> k = length xs))
    (\<lambda>_ w'. \<exists>k \<le> length xs. adds E eid w (replicate k ''execution.step.completed'') w') w"
  using assms(2)
proof (induction xs arbitrary: w)
  case Nil
  then show ?case by (simp add: adds_def)
next
  case (Cons x xs)
  let ?s = "''execution.step.completed''"
  show ?case unfolding step_loop.simps
  proof (rule wp_bind [OF run_step_adds [OF assms(1) Cons.prems]])
    fix go and w1 :: "'r exec_world"
    assume first: "adds E eid w (if go then [?s] else []) w1"
    show "wp (if go then step_loop E xs else ret False)
      (\<lambda>go w'. \<exists>k \<le> length (x # xs). adds E eid w (replicate k ?s) w' \<and> (go \<longrightarrow> k = length (x # xs)))
      (\<lambda>_ w'. \<exists>k \<le> length (x # xs). adds E eid w (replicate k ?s) w') w1"
    proof (cases go)
      case True
      with first have one: "adds E eid w [?s] w1" and keyed: "keyed eid w1" by (simp_all add: adds_def)
      have more: "adds E eid w (replicate (Suc k) ?s) w'" if "adds E eid w1 (replicate k ?s) w'" for k w'
        using adds_trans [OF one that] by simp
      show ?thesis using True
        by simp (rule wp_mono [OF Cons.IH [OF keyed]]; use more in fastforce)
    next
      case False
      with first show ?thesis by (auto intro!: exI [where x = 0])
    qed
  next
    fix w' :: "'r exec_world"
    assume "adds E eid w [] w'"
    then show "\<exists>k \<le> length (x # xs). adds E eid w (replicate k ?s) w'" by (auto intro: exI [where x = 0])
  qed
qed

lemma loop_exception_adds:
  assumes "keys_stay E" and "keyed eid w"
  shows "wp (loop_exception E exc) (\<lambda>go w'. \<not> go \<and> adds E eid w [''execution.paused''] w') (\<lambda>_ w'. adds E eid w [] w') w"
proof -
  have "wp (pause_run E trigger err reason event_reason)
    (\<lambda>go w'. \<not> go \<and> adds E eid w [''execution.paused''] w') (\<lambda>_ w'. adds E eid w [] w') w" for trigger err reason event_reason
    using assms
    by (auto simp: pause_run_def wp_update_status adds_def split: sum.splits intro!: wp_publish_adds [where eid = eid])
  then show ?thesis by (simp add: loop_exception_def split: exn.split)
qed

lemma finish_run_adds:
  assumes "keys_stay E" and "keyed eid w"
  shows "wp (finish_run E t n) (\<lambda>_ w'. adds E eid w [''execution.completed''] w') (\<lambda>_ w'. adds E eid w [] w') w"
  using assms
  by (auto simp: finish_run_def wp_update_status adds_def split: sum.splits intro!: wp_publish_adds [where eid = eid])

lemma start_run_adds:
  assumes "keys_stay E" and "keyed eid w"
  shows "wp (start_run E) (\<lambda>_ w'. adds E eid w [''execution.started''] w') (\<lambda>_ w'. adds E eid w [] w') w"
  using assms
  by (auto simp: start_run_def wp_update_status adds_def split: sum.splits intro!: wp_publish_adds [where eid = eid])

text \<open>
  What a run over \<open>n\<close> steps adds: nothing, or its start, some completed steps and at most one last
  event, which is the completion only after all steps.
\<close>

definition run_types :: "nat \<Rightarrow> string list \<Rightarrow> bool" where
  "run_types n ts \<longleftrightarrow> ts = [] \<or> (\<exists>k \<le> n. \<exists>es. ts = ''execution.started'' # replicate k ''execution.step.completed'' @ es \<and>
     (es = [] \<or> es = [''execution.paused''] \<or> es = [''execution.completed''] \<and> k = n))"

lemma run_typesI:
  "k \<le> n \<Longrightarrow> es = [] \<or> es = [''execution.paused''] \<or> es = [''execution.completed''] \<and> k = n \<Longrightarrow>
     run_types n (''execution.started'' # replicate k ''execution.step.completed'' @ es)"
  unfolding run_types_def by blast

definition adds_run :: "exec_env \<Rightarrow> uuid \<Rightarrow> nat \<Rightarrow> 'r exec_world \<Rightarrow> 'r exec_world \<Rightarrow> bool" where
  "adds_run E eid n w w' \<longleftrightarrow> (\<exists>ts. run_types n ts \<and> adds E eid w ts w')"

lemma adds_run_none: "adds E eid w [] w' \<Longrightarrow> adds_run E eid n w w'"
  by (auto simp: adds_run_def run_types_def)

lemma adds_load [simp]: "adds E eid (snd (load_run E w)) ts w' = adds E eid w ts w'"
  by (simp add: adds_def)

lemma keyed_load [simp]: "keyed eid (snd (load_run E w)) = keyed eid w"
  by (simp add: keyed_def)

lemma run_locked_adds:
  assumes "keys_stay E" and "keyed eid w"
  shows "wp (run_locked E wd) (\<lambda>_. adds_run E eid (length (steps_to_run wd w)) w)
    (\<lambda>_. adds_run E eid (length (steps_to_run wd w)) w) w"
proof (rule wp_run_locked)
  let ?n = "length (steps_to_run wd w)" and ?s = "''execution.step.completed''"
  let ?L = "\<lambda>es w'. \<exists>k \<le> ?n. adds E eid w (''execution.started'' # replicate k ?s @ es) w'"
  show "wp (start_run E) (\<lambda>_. adds E eid w [''execution.started'']) (\<lambda>_. adds_run E eid ?n w) (snd (load_run E w))"
    using assms by (intro wp_mono [OF start_run_adds [OF assms(1)]]) (auto intro: adds_run_none)
  show "wp (step_loop E (steps_to_run wd w))
      (\<lambda>go w'. if go then adds E eid w (''execution.started'' # replicate ?n ?s) w' else ?L [] w' \<or> ?L [''execution.paused''] w')
      (\<lambda>_. ?L []) (w'\<lparr>xw_step_name := ''unknown''\<rparr>)" if "adds E eid w [''execution.started''] w'" for t :: nat and w'
  proof -
    let ?w = "w'\<lparr>xw_step_name := ''unknown''\<rparr>"
    have started: "adds E eid w [''execution.started''] ?w" and keyed: "keyed eid ?w" using that by (simp_all add: adds_def)
    have "adds E eid w (''execution.started'' # replicate k ?s) w2" if "adds E eid ?w (replicate k ?s) w2" for k w2
      using adds_trans [OF started that] by simp
    then show ?thesis
      by - (rule wp_mono [OF step_loop_adds [OF assms(1) keyed]]; fastforce)
  qed
  show "wp (loop_exception E e)
      (\<lambda>go w'. if go then adds E eid w (''execution.started'' # replicate ?n ?s) w' else ?L [] w' \<or> ?L [''execution.paused''] w')
      (\<lambda>_. adds_run E eid ?n w) w'" if loop: "?L [] w'" for e w'
  proof -
    obtain k where k: "k \<le> ?n" "adds E eid w (''execution.started'' # replicate k ?s) w'" using loop by auto
    have keyed: "keyed eid w'" using k(2) by (simp add: adds_def)
    show ?thesis
      by (rule wp_mono [OF loop_exception_adds [OF assms(1) keyed]])
        (use k run_typesI [OF k(1), of "[]"] in \<open>auto simp: adds_run_def dest!: adds_trans [OF k(2)]\<close>)
  qed
  show "wp (finish_run E t (length (wd_steps wd))) (\<lambda>_. adds_run E eid ?n w) (\<lambda>_. adds_run E eid ?n w) w'"
    if "if True then adds E eid w (''execution.started'' # replicate ?n ?s) w' else ?L [] w' \<or> ?L [''execution.paused''] w'"
    for t w'
  proof -
    have all: "adds E eid w (''execution.started'' # replicate ?n ?s) w'" using that by simp
    have keyed: "keyed eid w'" using all by (simp add: adds_def)
    show ?thesis
      by (rule wp_mono [OF finish_run_adds [OF assms(1) keyed]])
        (use run_typesI [of ?n ?n "[]"] run_typesI [of ?n ?n "[''execution.completed'']"] in
          \<open>auto simp: adds_run_def dest!: adds_trans [OF all]\<close>)
  qed
  show "adds_run E eid ?n w w'"
    if "if False then adds E eid w (''execution.started'' # replicate ?n ?s) w' else ?L [] w' \<or> ?L [''execution.paused''] w'"
    for w'
    using that run_typesI [of _ ?n "[]"] run_typesI [of _ ?n "[''execution.paused'']"]
    by (fastforce simp: adds_run_def)
qed

lemma adds_locks [simp]:
  "adds E eid (w\<lparr>xw_tick := n, xw_locks := r\<rparr>) ts w' = adds E eid w ts w'" "adds E eid w ts (w'\<lparr>xw_locks := r\<rparr>) = adds E eid w ts w'"
  by (simp_all add: adds_def)

lemma run_adds:
  assumes "keys_stay E" and "keyed eid w"
  shows "adds_run E eid (length (steps_to_run wd w)) w (snd (run R E wd w))"
proof -
  let ?d = "adds_run E eid (length (steps_to_run wd w)) w"
  have "wp (run R E wd) (\<lambda>_. ?d) (\<lambda>_. ?d) w"
  proof (rule wp_run)
    fix n r
    let ?w = "w\<lparr>xw_tick := n, xw_locks := r\<rparr>"
    have eq: "steps_to_run wd ?w = steps_to_run wd w" by (simp add: steps_to_run_def)
    have keyed: "keyed eid ?w" using assms(2) by simp
    show "wp (run_locked E wd) (\<lambda>_ w'. \<forall>r. ?d (w'\<lparr>xw_locks := r\<rparr>))
        (\<lambda>e w'. \<forall>r. case e of LockAcquisitionError _ \<Rightarrow> ?d (w'\<lparr>xw_locks := r\<rparr>) | _ \<Rightarrow> ?d (w'\<lparr>xw_locks := r\<rparr>)) ?w"
      by (rule wp_mono [OF run_locked_adds [OF assms(1) keyed]])
        (auto simp: adds_run_def eq split: exn.split)
  next
    fix n r
    show "?d (w\<lparr>xw_tick := n, xw_locks := r\<rparr>)" using assms(2) by (intro adds_run_none) (simp add: adds_def)
  qed
  then show ?thesis by (simp add: wp_state)
qed

text \<open>With nothing interfering, a run of a pending execution adds all of it.\<close>

lemma run_locked_adds_all:
  assumes "quiet E" and "fresh w" and "ex_status (xw_row w) = PENDING" and "keyed eid w"
  shows "wp (run_locked E wd) (\<lambda>_. adds E eid w (''execution.started'' #
      replicate (length (steps_to_run wd w)) ''execution.step.completed'' @ [''execution.completed''])) (\<lambda>_ _. True) w"
proof -
  let ?w = "snd (load_run E w)" and ?s = "''execution.step.completed''" and ?n = "length (steps_to_run wd w)"
  have alone: "alone E" and stay: "keys_stay E" using assms(1) by (simp_all add: alone_keys_stay)
  have fresh: "fresh ?w" and keyed: "keyed eid ?w" using assms(2,4) by (simp_all add: fresh_def)
  show ?thesis
  proof (rule wp_run_locked)
    show "wp (start_run E) (\<lambda>_ w'. running E w' \<and> adds E eid w [''execution.started''] w') (\<lambda>_ _. True) ?w"
      by (rule wp_mono [OF wp_conj [OF start_run_alone [OF alone fresh] start_run_adds [OF stay keyed]]]) auto
  next
    fix w'
    assume start: "running E w' \<and> adds E eid w [''execution.started''] w'"
    let ?w' = "w'\<lparr>xw_step_name := ''unknown''\<rparr>"
    have run: "running E ?w'" and keyed: "keyed eid ?w'" and started: "adds E eid w [''execution.started''] ?w'"
      using start by (simp_all add: adds_def)
    have "adds E eid w (''execution.started'' # replicate k ?s) w2" if "adds E eid ?w' (replicate k ?s) w2" for k w2
      using adds_trans [OF started that] by simp
    then show "wp (step_loop E (steps_to_run wd w)) (\<lambda>go w'. go \<and> adds E eid w (''execution.started'' # replicate ?n ?s) w')
        (\<lambda>_ _. False) ?w'"
      by - (rule wp_mono [OF wp_conj [OF step_loop_running [OF alone run] step_loop_adds [OF stay keyed]]];
        use assms(1) in auto)
  next
    fix t w'
    assume "True \<and> adds E eid w (''execution.started'' # replicate ?n ?s) w'"
    then have all: "adds E eid w (''execution.started'' # replicate ?n ?s) w'" by simp
    have keyed: "keyed eid w'" using all by (simp add: adds_def)
    show "wp (finish_run E t (length (wd_steps wd)))
      (\<lambda>_. adds E eid w (''execution.started'' # replicate ?n ?s @ [''execution.completed''])) (\<lambda>_ _. True) w'"
      by (rule wp_mono [OF finish_run_adds [OF stay keyed]]) (auto dest: adds_trans [OF all])
  qed auto
qed

lemma run_adds_all:
  assumes "redis_kv R view" and "lock_owner R (xw_locks w) (lock_key (ex_id (xw_row w))) = None"
    and "quiet E" and "fresh w" and "ex_status (xw_row w) = PENDING" and "keyed eid w"
  shows "adds E eid w (''execution.started'' # replicate (length (steps_to_run wd w)) ''execution.step.completed'' @
    [''execution.completed'']) (snd (run R E wd w))"
proof -
  obtain w' where ran: "run R E wd w = (Inr (), w')" using run_to_completion [OF assms(1-5)] by blast
  let ?ts = "''execution.started'' # replicate (length (steps_to_run wd w)) ''execution.step.completed'' @ [''execution.completed'']"
  obtain r' where "lock_owner R r' =
      (lock_owner R (xw_locks w))(lock_key (ex_id (xw_row w)) \<mapsto> uuid_str (ee_uuid E (xw_tick w)))"
    and run: "\<And>Q X. wp (run R E wd) Q X w = wp (run_locked E wd)
      (\<lambda>_ w'. Q () (w'\<lparr>xw_locks := release_script R (lock_key (ex_id (xw_row w))) (uuid_str (ee_uuid E (xw_tick w))) (xw_locks w')\<rparr>))
      (\<lambda>e w'. (if lock_error e then Q () else X e) (w'\<lparr>xw_locks := release_script R
        (lock_key (ex_id (xw_row w))) (uuid_str (ee_uuid E (xw_tick w))) (xw_locks w')\<rparr>))
      (w\<lparr>xw_tick := Suc (xw_tick w), xw_locks := r'\<rparr>)"
    using run_free [OF assms(1,2), where E = E and wd = wd] by blast
  let ?w = "w\<lparr>xw_tick := Suc (xw_tick w), xw_locks := r'\<rparr>"
  have start: "fresh ?w" "ex_status (xw_row ?w) = PENDING" "keyed eid ?w" "steps_to_run wd ?w = steps_to_run wd w"
    using assms(4-6) by (simp_all add: fresh_def steps_to_run_def)
  have all: "wp (run_locked E wd) (\<lambda>_. adds E eid w ?ts) (\<lambda>_ _. True) ?w"
    using run_locked_adds_all [OF assms(3) start(1-3), of wd] unfolding start(4) adds_locks .
  have returns: "wp (run_locked E wd) (\<lambda>_ _. True) (\<lambda>_ _. False) ?w"
    by (rule wp_mono [OF run_locked_alone [OF quietD(2) [OF assms(3)] start(1,2)]]) (use assms(3) in simp_all)
  have "wp (run R E wd) (\<lambda>_. adds E eid w ?ts) (\<lambda>_ _. True) w"
    unfolding run by (rule wp_mono [OF wp_conj [OF all returns]]) simp_all
  with ran show ?thesis by (simp add: wp_def)
qed

text \<open>What a run that turns \<open>w\<close> into \<open>w'\<close> puts on the stream.\<close>

definition new_events :: "string \<Rightarrow> 'r exec_world \<Rightarrow> 'r exec_world \<Rightarrow> event list" where
  "new_events s w w' = drop (length (on_stream s (xw_sent w))) (on_stream s (xw_sent w'))"

lemma adds_new_events: "adds E eid w ts w' \<Longrightarrow> map (event_type \<circ> ev_body) (new_events (sse_stream eid) w w') = ts"
  unfolding adds_def new_events_def drop_map [symmetric] by (simp add: drop_append)

lemma adds_new_global:
  "adds E eid w ts w' \<Longrightarrow> (\<forall>n. ee_xadd E n = None) \<Longrightarrow> map (event_type \<circ> ev_body) (new_events ''executions'' w w') = ts"
  unfolding adds_def new_events_def drop_map [symmetric] by (simp add: drop_append)

lemma fresh_keyed: "fresh w \<Longrightarrow> keyed (ex_id (xw_row w)) w"
  by (simp add: fresh_def keyed_def seen_row_def)

end
