(* ===== verification/Execution_Watch.thy ===== *)
theory Execution_Watch
  imports Event_Stream Run_Events
begin

text \<open>
  A client that watches an execution while its run publishes: what it gets of what the run puts on
  the stream.
\<close>

section \<open>A client that watches while the messages arrive\<close>

text \<open>
  Before each round of the client's loop the worker has added a batch of messages, possibly none.
\<close>

fun watch_batches ::
  "'q stream_ops \<Rightarrow> (string \<Rightarrow> message \<Rightarrow> 'q \<Rightarrow> 'q) \<Rightarrow> (message \<Rightarrow> string) \<Rightarrow> string \<Rightarrow> string \<Rightarrow> message list list \<Rightarrow>
     ('q sse_world, bool) py" where
  "watch_batches S add dumps key c [] = ret False"
| "watch_batches S add dumps key c (b # bs) =
     seq (modify (\<lambda>w. w\<lparr>sw_server := fold (add key) b (sw_server w)\<rparr>))
    (andthen (sse_poll S dumps key c) (\<lambda>finished. if finished then ret True else watch_batches S add dumps key c bs))"

lemma watch_batches_rounds: "watch_batches S add dumps key c (replicate n []) = sse_rounds S dumps key c n"
proof (induction n)
  case (Suc n)
  have "seq (modify (\<lambda>w. w\<lparr>sw_server := sw_server w\<rparr>)) f = f" for f :: "('q sse_world, bool) py"
    by (simp add: seq_def andthen_def modify_def)
  with Suc show ?case by (simp cong: if_cong)
qed simp

context calm_group
begin

lemma add_batch:
  assumes "has q key"
  shows "has (fold (add key) b q) key \<and> pos (fold (add key) b q) = pos q \<and>
    (\<exists>ms. map snd ms = b \<and> entries (fold (add key) b q) key = entries q key @ ms)"
  using assms
proof (induction b arbitrary: q)
  case (Cons d b)
  obtain i where "entries (add key d q) key = entries q key @ [(i, d)]" using add_entries [of q key d] by auto
  with Cons.IH [OF add_has [OF Cons.prems, of key d]] show ?case
    by (auto simp: add_pos intro: exI [of _ "(i, d) # ms" for ms])
qed simp

text \<open>
  Whatever the batches are, the client gets what had not been given out and what arrives, in order up to a
  terminal message, and its stream ends exactly if there is one.
\<close>

lemma calm_batches:
  fixes w key
  assumes "has (sw_server w) key" and "pos (sw_server w) key \<le> length (entries (sw_server w) key)"
    and "length (drop (pos (sw_server w) key) (entries (sw_server w) key)) + length (concat bs) \<le> 10 * n"
  shows "\<exists>ms w'. map snd ms = map snd (drop (pos (sw_server w) key) (entries (sw_server w) key)) @ concat bs \<and>
    watch_batches S add dumps key c (bs @ replicate n []) w = (Inr (\<exists>m \<in> set ms. terminal_message m), w') \<and>
    sw_yielded w' = sw_yielded w @ map (framed dumps) (until_terminal ms)"
  using assms
proof (induction bs arbitrary: w)
  case Nil
  have "length (drop (pos (sw_server w) key) (entries (sw_server w) key)) \<le> 10 * n" using Nil.prems(3) by simp
  from calm_rounds [OF Nil.prems(1) this, of dumps c] show ?case by (auto simp: watch_batches_rounds)
next
  case (Cons b bs)
  let ?w = "w\<lparr>sw_server := fold (add key) b (sw_server w)\<rparr>"
  obtain new where new: "map snd new = b" "entries (sw_server ?w) key = entries (sw_server w) key @ new"
    and b: "has (sw_server ?w) key" "pos (sw_server ?w) = pos (sw_server w)"
    using add_batch [OF Cons.prems(1), of b] by auto
  define l where "l = drop (pos (sw_server ?w) key) (entries (sw_server ?w) key)"
  have l: "l = drop (pos (sw_server w) key) (entries (sw_server w) key) @ new"
    unfolding l_def new(2) b(2) using Cons.prems(2) by simp
  obtain w1 where w1: "sse_poll S dumps key c ?w = (Inr (\<exists>m \<in> set (take 10 l). terminal_message m), w1)"
      "sw_yielded w1 = sw_yielded ?w @ map (framed dumps) (until_terminal (take 10 l))" "has (sw_server w1) key"
      "entries (sw_server w1) = entries (sw_server ?w)" "pos (sw_server w1) key = pos (sw_server ?w) key + length (take 10 l)"
      "drop (pos (sw_server w1) key) (entries (sw_server w1) key) = drop 10 l"
    by (rule calm_poll [OF b(1), of dumps c, folded l_def]) (rule that)
  have step: "watch_batches S add dumps key c ((b # bs) @ replicate n []) w =
      (if \<exists>m \<in> set (take 10 l). terminal_message m then ret True else watch_batches S add dumps key c (bs @ replicate n [])) w1"
    using w1(1) by (simp add: seq_def andthen_def modify_def)
  have given: "map snd l = map snd (drop (pos (sw_server w) key) (entries (sw_server w) key)) @ b"
    using l new(1) by simp
  show ?case
  proof (cases "\<exists>m \<in> set (take 10 l). terminal_message m")
    case True
    let ?ms = "l @ map (Pair []) (concat bs)"
    have "?ms = take 10 l @ drop 10 l @ map (Pair []) (concat bs)" by simp
    then have "until_terminal ?ms = until_terminal (take 10 l)"
      using True until_terminal_append [of "take 10 l" "drop 10 l @ map (Pair []) (concat bs)"] by metis
    moreover have "\<exists>m \<in> set ?ms. terminal_message m" using True by (auto dest: in_set_takeD)
    moreover have "map snd ?ms = map snd (drop (pos (sw_server w) key) (entries (sw_server w) key)) @ concat (b # bs)"
      using given by (simp add: o_def)
    ultimately show ?thesis using step True w1(2) by (intro exI [of _ ?ms] exI [of _ w1]) (simp add: ret_def)
  next
    case False
    have "pos (sw_server w1) key \<le> length (entries (sw_server w1) key)"
      using w1(4,5) new(2) b(2) Cons.prems(2) by (simp add: l_def)
    moreover have "length (drop (pos (sw_server w1) key) (entries (sw_server w1) key)) + length (concat bs) \<le> 10 * n"
      unfolding w1(6) using Cons.prems(3) new(1) l by auto
    ultimately obtain ms w' where IH: "map snd ms = map snd (drop 10 l) @ concat bs"
        "watch_batches S add dumps key c (bs @ replicate n []) w1 = (Inr (\<exists>m \<in> set ms. terminal_message m), w')"
        "sw_yielded w' = sw_yielded w1 @ map (framed dumps) (until_terminal ms)"
      using Cons.IH [OF w1(3)] unfolding w1(6) by blast
    have "map snd (take 10 l @ ms) = map snd (drop (pos (sw_server w) key) (entries (sw_server w) key)) @ concat (b # bs)"
      using given IH(1) by (metis append.assoc append_take_drop_id concat.simps(2) map_append)
    moreover have "until_terminal (take 10 l @ ms) = take 10 l @ until_terminal ms"
      using False until_terminal_append by metis
    ultimately show ?thesis
      using step False w1(2) IH(2,3) until_terminal_none [OF False]
      by (intro exI [of _ "take 10 l @ ms"] exI [of _ w']) auto
  qed
qed

end

section \<open>From the run to the client\<close>

lemma terminal_event:
  "snd m = to_stream_dict F ev \<Longrightarrow> terminal_message m \<longleftrightarrow> event_type (ev_body ev) \<in> set SSE_TERMINAL"
  by (simp add: terminal_message_def stream_dict_event_type)

lemma after_new: "us @ t # vs = b @ es \<Longrightarrow> t \<notin> set b \<Longrightarrow> length es \<le> Suc 0 \<Longrightarrow> vs = []"
proof (induction b arbitrary: us)
  case Nil
  then show ?case by (cases us) auto
next
  case (Cons x b)
  then show ?case by (cases us) auto
qed

lemma run_types_terminal:
  assumes "run_types n ts" and "ts = us @ t # vs" and "t \<in> set SSE_TERMINAL"
  shows "vs = []"
proof (cases "ts = []")
  case False
  with assms(1) obtain k es where "ts = ''execution.started'' # replicate k ''execution.step.completed'' @ es"
      and es: "es = [] \<or> es = [''execution.paused''] \<or> es = [''execution.completed'']"
    unfolding run_types_def by blast
  then have "ts = (''execution.started'' # replicate k ''execution.step.completed'') @ es" by simp
  moreover have "length es \<le> Suc 0" using es by auto
  moreover have "t \<notin> set (''execution.started'' # replicate k ''execution.step.completed'')" for k
    using assms(3) by (auto simp: SSE_TERMINAL_def)
  ultimately show ?thesis using assms(2) after_new by metis
qed (use assms(2) in simp)

lemma run_types_not_failed: "run_types n ts \<Longrightarrow> ''execution.failed'' \<notin> set ts"
  by (auto simp: run_types_def)

text \<open>Since at most the last event of a run is terminal, nothing of it is cut off.\<close>

lemma run_types_until_terminal:
  assumes "run_types n (map (event_type \<circ> ev_body) evs)" and "map snd ms = map (to_stream_dict F) evs"
  shows "until_terminal ms = ms"
proof (cases "\<exists>m \<in> set ms. terminal_message m")
  case True
  then obtain xs m ys where ms: "ms = xs @ m # ys" "\<not> (\<exists>x \<in> set xs. terminal_message x)" and m: "terminal_message m"
    by (auto dest!: split_list_first_prop)
  from assms(2) ms(1) have "map (to_stream_dict F) evs = map snd xs @ snd m # map snd ys" by simp
  then obtain us ev vs where evs: "evs = us @ ev # vs" "snd m = to_stream_dict F ev" "map snd ys = map (to_stream_dict F) vs"
    by (auto simp: map_eq_append_conv map_eq_Cons_conv)
  have "map (event_type \<circ> ev_body) vs = []"
    by (rule run_types_terminal [OF assms(1)]) (use m evs(1) terminal_event [OF evs(2)] in auto)
  with evs(3) have "ys = []" by simp
  with ms m show ?thesis by (simp add: until_terminal_append until_terminal_Cons)
qed (rule until_terminal_none)

text \<open>
  C22: A client that connects before the first run of its execution, and polls while the events of the
  run arrive in whatever batches, gets every event of the run in order, and its stream ends exactly if
  the run was paused by a failure or completed. In every environment, that is: whatever fails and
  whatever other sessions write, the events are none, or the start, some completed steps and at most
  one such last event, which is the completion only after every step; and with nothing interfering they
  are the start, all the steps and the completion.
\<close>

lemma run_is_watched:
  assumes "calm_group S add entries pos has" and "stream_allowed byp (ex_id (xw_row w)) tid db = Inr ()"
    and "entries q (sse_stream (ex_id (xw_row w))) = []" and "pos q (sse_stream (ex_id (xw_row w))) = 0"
    and "redis_kv R view" and "keys_stay E" and "fresh w"
    and "concat bs = map (to_stream_dict F) (new_events (sse_stream (ex_id (xw_row w))) w (snd (run R E wd w)))"
    and "length (concat bs) \<le> 10 * n"
  shows "\<exists>c w1 w2 evs. evs = new_events (sse_stream (ex_id (xw_row w))) w (snd (run R E wd w)) \<and>
    stream_execution byp S db u (ex_id (xw_row w)) tid \<lparr>sw_server = q, sw_yielded = []\<rparr> = (Inr c, w1) \<and>
    watch_batches S add dumps (sse_stream (ex_id (xw_row w))) c (bs @ replicate n []) w1 =
      (Inr (\<exists>ev \<in> set evs. event_type (ev_body ev) \<in> {''execution.paused'', ''execution.completed''}), w2) \<and>
    map snd (sw_yielded w2) = map (sse_frame dumps \<circ> to_stream_dict F) evs \<and>
    run_types (length (steps_to_run wd w)) (map (event_type \<circ> ev_body) evs) \<and>
    (quiet E \<and> ex_status (xw_row w) = PENDING \<and> lock_owner R (xw_locks w) (lock_key (ex_id (xw_row w))) = None \<longrightarrow>
       map (event_type \<circ> ev_body) evs = ''execution.started'' #
         replicate (length (steps_to_run wd w)) ''execution.step.completed'' @ [''execution.completed''])"
proof -
  let ?eid = "ex_id (xw_row w)" and ?evs = "new_events (sse_stream (ex_id (xw_row w))) w (snd (run R E wd w))"
  let ?k = "sse_stream ?eid"
  define q1 where "q1 = snd (q_create S ?k SSE_GROUP q)"
  let ?w1 = "\<lparr>sw_server = q1, sw_yielded = []\<rparr>"
  have keyed: "keyed ?eid w" using assms(7) by (rule fresh_keyed)
  have types: "run_types (length (steps_to_run wd w)) (map (event_type \<circ> ev_body) ?evs)"
    using run_adds [OF assms(6) keyed, of wd R] by (auto simp: adds_run_def adds_new_events)
  have all: "map (event_type \<circ> ev_body) ?evs = ''execution.started'' #
      replicate (length (steps_to_run wd w)) ''execution.step.completed'' @ [''execution.completed'']"
    if "quiet E" "ex_status (xw_row w) = PENDING" "lock_owner R (xw_locks w) (lock_key ?eid) = None"
    by (rule adds_new_events [OF run_adds_all [OF assms(5) that(3,1) assms(7) that(2) keyed]])
  have log: "entries q1 ?k = []" "pos q1 ?k = 0" "has q1 ?k"
    using group_log.create_keeps_log [OF calm_group.axioms(1) [OF assms(1)]] calm_group.create_has [OF assms(1)] assms(3,4)
    by (simp_all add: q1_def)
  obtain ms w2 where w2: "map snd ms = concat bs"
      "watch_batches S add dumps ?k (''sse-'' @ uuid_str u) (bs @ replicate n []) ?w1 = (Inr (\<exists>m \<in> set ms. terminal_message m), w2)"
      "sw_yielded w2 = map (framed dumps) (until_terminal ms)"
    using calm_group.calm_batches [OF assms(1), of ?w1 ?k bs n dumps "''sse-'' @ uuid_str u"] assms(9) log by auto
  have ms: "map snd ms = map (to_stream_dict F) ?evs" using w2(1) assms(8) by simp
  have "map snd (sw_yielded w2) = map (sse_frame dumps) (map snd ms)"
    unfolding w2(3) run_types_until_terminal [OF types ms] by (simp add: framed_def)
  then have frames: "map snd (sw_yielded w2) = map (sse_frame dumps \<circ> to_stream_dict F) ?evs" unfolding ms by simp
  have "(\<exists>m \<in> set ms. terminal_message m) = (\<exists>d \<in> set (map snd ms). terminal_message ([], d))"
    by (simp add: terminal_message_def)
  also have "\<dots> = (\<exists>ev \<in> set ?evs. event_type (ev_body ev) \<in> set SSE_TERMINAL)"
    unfolding ms using terminal_event by fastforce
  also have "\<dots> = (\<exists>ev \<in> set ?evs. event_type (ev_body ev) \<in> {''execution.paused'', ''execution.completed''})"
    using run_types_not_failed [OF types] by (force simp: SSE_TERMINAL_def)
  finally have ended: "(\<exists>m \<in> set ms. terminal_message m) = \<dots>" .
  have connect: "stream_execution byp S db u ?eid tid \<lparr>sw_server = q, sw_yielded = []\<rparr> = (Inr (''sse-'' @ uuid_str u), ?w1)"
    unfolding calm_group.calm_connect [OF assms(1,2)] by (simp add: q1_def)
  show ?thesis
    by (intro exI [of _ "''sse-'' @ uuid_str u"] exI [of _ ?w1] exI [of _ w2] exI [of _ ?evs] conjI impI)
      (rule refl connect w2(2) [unfolded ended] frames types | elim conjE, rule all; assumption)+
qed

lemma sample_steps_number [simp]: "length (steps_to_run sample_wd (sample_world PENDING)) = 3"
  using arg_cong [OF sample_steps [of PENDING], of length] by simp

lemma run_is_watched_witness:
  "\<exists>c w1 w2 evs. evs = new_events (sse_stream 1) (sample_world PENDING) (snd (run mem_redis sample_env sample_wd (sample_world PENDING))) \<and>
    stream_execution True group_stream_ops (sv_db (sample_service RUNNING)) 2 1 7
      \<lparr>sw_server = (\<lambda>_. ([], None)), sw_yielded = []\<rparr> = (Inr c, w1) \<and>
    watch_batches group_stream_ops group_add (\<lambda>_. []) (sse_stream 1) c
      ([map (to_stream_dict sample_format) evs] @ replicate 1 []) w1 = (Inr True, w2) \<and>
    map (event_type \<circ> ev_body) evs = [''execution.started'', ''execution.step.completed'', ''execution.step.completed'',
      ''execution.step.completed'', ''execution.completed''] \<and> length (sw_yielded w2) = 5"
proof -
  let ?w = "sample_world PENDING"
  let ?evs = "new_events (sse_stream 1) ?w (snd (run mem_redis sample_env sample_wd ?w))"
  have keyed: "keyed 1 ?w" using fresh_keyed [OF sample_fresh, of PENDING] by simp
  have types: "map (event_type \<circ> ev_body) ?evs = [''execution.started'', ''execution.step.completed'',
      ''execution.step.completed'', ''execution.step.completed'', ''execution.completed'']"
    using adds_new_events [OF run_adds_all [OF mem.redis_kv_axioms, of ?w sample_env 1 sample_wd]] keyed
    by (simp add: numeral_3_eq_3)
  have "length (map (event_type \<circ> ev_body) ?evs) = 5" unfolding types by simp
  then have number: "length ?evs = 5" by simp
  have allowed: "stream_allowed True (ex_id (xw_row ?w)) 7 (sv_db (sample_service RUNNING)) = Inr ()"
    using sample_allowed by simp
  have empty: "group_entries (\<lambda>_. ([], None)) s = []" "group_pos (\<lambda>_. ([], None)) s = 0" for s
    by (simp_all add: group_entries_def group_pos_def)
  have last: "\<exists>ev \<in> set ?evs. event_type (ev_body ev) \<in> {''execution.paused'', ''execution.completed''}"
  proof -
    have "''execution.completed'' \<in> set (map (event_type \<circ> ev_body) ?evs)" unfolding types by simp
    then show ?thesis by auto
  qed
  have stay: "keys_stay sample_env" by (rule alone_keys_stay) simp
  have events: "concat [map (to_stream_dict sample_format) ?evs] =
      map (to_stream_dict sample_format) (new_events (sse_stream (ex_id (xw_row ?w))) ?w (snd (run mem_redis sample_env sample_wd ?w)))" by simp
  have size: "length (concat [map (to_stream_dict sample_format) ?evs]) \<le> 10 * 1" using number by simp
  obtain c w1 w2 where w: "stream_execution True group_stream_ops (sv_db (sample_service RUNNING)) 2 1 7
      \<lparr>sw_server = (\<lambda>_. ([], None)), sw_yielded = []\<rparr> = (Inr c, w1)"
    "watch_batches group_stream_ops group_add (\<lambda>_. []) (sse_stream 1) c
      ([map (to_stream_dict sample_format) ?evs] @ replicate 1 []) w1 =
      (Inr (\<exists>ev \<in> set ?evs. event_type (ev_body ev) \<in> {''execution.paused'', ''execution.completed''}), w2)"
    "map snd (sw_yielded w2) = map (sse_frame (\<lambda>_. []) \<circ> to_stream_dict sample_format) ?evs"
    using run_is_watched [OF mem_sse.calm_group_axioms allowed, OF empty mem.redis_kv_axioms stay sample_fresh events size,
        where dumps = "\<lambda>_. []" and u = 2] by auto
  have "length (sw_yielded w2) = 5" using arg_cong [OF w(3), of length] number by simp
  with w(1,2) last types show ?thesis by auto
qed

end
