(* ===== verification/Run_Observed.thy ===== *)
theory Run_Observed
  imports Stream_Consumer Run_Events
begin

text \<open>
  From the executor to the observability service: what the consumer makes of the events of a run.
\<close>

section \<open>What the handler of a start writes\<close>

lemma buffer_span_frame:
  "wp (buffer_span R H E eid k d)
     (\<lambda>_ w'. same_tables w w' \<and> os_new w' = os_new w \<and> os_flushed w' = os_flushed w)
     (\<lambda>_ w'. same_tables w w') w"
  by (auto simp: buffer_span_def Let_def same_tables_def split: option.splits prod.splits)

definition grows :: "audit \<Rightarrow> ('q, 'r) obs \<Rightarrow> ('q, 'r) obs \<Rightarrow> bool" where
  "grows a w w' \<longleftrightarrow> os_traces w' = os_traces w \<and>
     (\<exists>rows. os_audit w' = os_audit w @ rows \<and> length rows \<le> 1 \<and> (\<forall>r \<in> set rows. audit.truncate r = a))"

lemma grows_same: "os_traces w' = os_traces w \<Longrightarrow> os_audit w' = os_audit w \<Longrightarrow> grows a w w'"
  by (simp add: grows_def)

lemma session_started:
  assumes "ev_body ev = ExecutionStarted eid wid"
  shows "wp (obs_session E (handle R H E ev raw))
    (\<lambda>_ w'. os_streams w' = os_streams w \<and> os_processed w' = os_processed w \<and>
       grows (audit_record ev ''execution.started'' eid) w w')
    (\<lambda>_ w'. same_tables w w') w"
proof -
  have handle: "handle R H E ev raw = on_execution_started R H E ev raw eid" by (simp add: handle_def assms)
  have h: "wp (handle R H E ev raw)
     (\<lambda>_ w'. same_tables w w' \<and> os_new w' = [NewAudit (audit_record ev ''execution.started'' eid)] \<and> os_flushed w' = [])
     (\<lambda>_ w'. same_tables w w') (close_session w)"
    unfolding handle on_execution_started_def
    by simp (rule wp_mono [OF buffer_span_frame];
      simp add: same_tables_def write_audit_def audit_record_def)
  show ?thesis
    unfolding obs_session_def
    by simp (rule wp_mono [OF h];
      auto simp: same_tables_def insert_new_def Let_def obs_commit_def grows_def audit.truncate_def audit.extend_def
        split: option.splits)
qed

section \<open>A consumer whose server answers\<close>

text \<open>The group exists, so that creating it changes nothing, and no read fails.\<close>

locale consumer_feed = group_reads S grp entries pos
  for S :: "'q stream_ops" and grp :: string
    and entries :: "'q \<Rightarrow> string \<Rightarrow> (string \<times> message) list" and pos :: "'q \<Rightarrow> string \<Rightarrow> nat" +
  assumes create_exists: "fst (q_create S s grp q) = Inl (ResponseError ''BUSYGROUP Consumer Group name already exists'')"
    and create_keeps_log: "entries (snd (q_create S s grp q)) = entries q" "pos (snd (q_create S s grp q)) = pos q"
    and read_calm: "\<exists>res. fst (q_readgroup S s grp c n b q) = Inr res"
begin

definition unread :: "('q, 'r) obs \<Rightarrow> string \<Rightarrow> (string \<times> message) list" where
  "unread w s = drop (pos (os_streams w) s) (entries (os_streams w) s)"

definition same_log :: "('q, 'r) obs \<Rightarrow> ('q, 'r) obs \<Rightarrow> bool" where
  "same_log w w' \<longleftrightarrow> entries (os_streams w') = entries (os_streams w) \<and> pos (os_streams w') = pos (os_streams w)"

lemma same_log_unread: "same_log w w' \<Longrightarrow> unread w' = unread w"
  by (simp add: same_log_def unread_def fun_eq_iff)

lemma wp_read:
  assumes "0 < n" and "\<And>q'. unread (w\<lparr>os_streams := q'\<rparr>) = (unread w)(s := drop n (unread w s)) \<Longrightarrow>
    Q (take n (unread w s)) (w\<lparr>os_streams := q'\<rparr>)"
  shows "wp (group_read S s grp c n b) Q X w"
proof -
  obtain res q' where read: "q_readgroup S s grp c n b (os_streams w) = (Inr res, q')"
    using read_calm [of s c n b "os_streams w"] by (metis prod.collapse)
  have given: "concat (map snd res) = take n (unread w s)" "pos q' s = pos (os_streams w) s + length (concat (map snd res))"
    using read_gives [OF read assms(1)] by (simp_all add: unread_def)
  obtain k where k: "pos q' = (pos (os_streams w))(s := pos (os_streams w) s + k)" "entries q' = entries (os_streams w)"
    using read_moves [of s c n b "os_streams w"] read_keeps_log [of s c n b "os_streams w"] read by auto
  then have "k = length (take n (unread w s))" using given by simp
  then have "unread (w\<lparr>os_streams := q'\<rparr>) s = drop n (unread w s)"
    using k by (simp add: unread_def add.commute min_def)
  moreover have "unread (w\<lparr>os_streams := q'\<rparr>) s' = unread w s'" if "s' \<noteq> s" for s'
    using k that by (simp add: unread_def)
  ultimately have "unread (w\<lparr>os_streams := q'\<rparr>) = (unread w)(s := drop n (unread w s))" by auto
  from assms(2) [OF this] given(1) show ?thesis using read by (auto simp: group_read_def)
qed

text \<open>A start is processed without raising, whatever fails, and a completed step raises at once.\<close>

lemma process_started:
  assumes "pydantic_laws (oe_pydantic E) F" and "os_consumer_group (oe_settings E) = grp"
    and "ev_body ev = ExecutionStarted eid wid"
  shows "wp (process_one S R H E s (i, to_stream_dict F ev))
    (\<lambda>_ w'. same_log w w' \<and> os_processed w' = os_processed w \<and> grows (audit_record ev ''execution.started'' eid) w w')
    (\<lambda>_ _. False) w"
proof -
  have parse: "parse_event (oe_pydantic E) u now (to_stream_dict F ev) = Inr ev" for u now
    using pydantic_laws.parse_stream_dict [OF assms(1)] assms(3) by (simp add: readable_def)
  let ?w = "w\<lparr>os_tick := Suc (Suc (os_tick w))\<rparr>"
  let ?P = "\<lambda>_ w'. same_log w w' \<and> os_processed w' = os_processed w \<and> grows (audit_record ev ''execution.started'' eid) w w'"
  let ?count = "record_metric (\<lambda>m. m\<lparr>CHECKPOINT_FAILURES := CHECKPOINT_FAILURES m + 1\<rparr>)"
  have ack: "entries q' = entries q \<and> pos q' = pos q" if "q_ack S s grp i q = (res, q')" for q q' res
    using ack_keeps_log [of s i q] that by simp
  have "wp (obs_session E (handle R H E ev (to_stream_dict F ev)))
     (\<lambda>_. wp (group_ack S s grp i) ?P (\<lambda>_. wp ?count ?P (\<lambda>_ _. False))) (\<lambda>_. wp ?count ?P (\<lambda>_ _. False)) ?w"
    by (rule wp_mono [OF session_started [OF assms(3)]])
      (auto simp: group_ack_def same_log_def grows_def same_tables_def dest: ack split: prod.splits sum.splits)
  then show ?thesis by (simp add: process_one_def Let_def parse assms(2))
qed

lemma process_step:
  assumes "pydantic_laws (oe_pydantic E) F" and "ev_body ev = StepCompleted eid wid name k dur c outs"
  shows "wp (process_one S R H E s (i, to_stream_dict F ev)) Q (\<lambda>_ w'. w' = w\<lparr>os_tick := os_tick w + 2\<rparr>) w"
proof -
  have "parse_event (oe_pydantic E) u now (to_stream_dict F ev) = Inl (LibraryError ''ValidationError'')" for u now
    using pydantic_laws.parse_stream_dict [OF assms(1)] assms(2) by (simp add: readable_def)
  then show ?thesis by (simp add: process_one_def Let_def)
qed

text \<open>\<open>stuck\<close>: everything has been read and one message has been counted, so nothing is ever reclaimed.\<close>

definition stuck :: "obs_env \<Rightarrow> ('q, 'r) obs \<Rightarrow> bool" where
  "stuck E w \<longleftrightarrow> os_processed w = 1 \<and> (\<forall>s \<in> set (stream_names (oe_settings E)). unread w s = [])"

lemma unread_frame [simp]:
  "unread (w\<lparr>os_processed := n\<rparr>) = unread w" "unread (w\<lparr>os_tick := n\<rparr>) = unread w"
  by (simp_all add: unread_def fun_eq_iff)

lemma stuck_round:
  assumes "os_consumer_group (oe_settings E) = grp" and "0 < os_consumer_poll_count (oe_settings E)" and "stuck E w"
  shows "wp (consumer_round S R H E)
    (\<lambda>_ w'. stuck E w' \<and> os_traces w' = os_traces w \<and> os_audit w' = os_audit w) (\<lambda>_ _. False) w"
  using assms(3) unfolding consumer_round_def
  by (auto simp: stream_names_def Let_def assms(1) RECLAIM_EVERY_def stuck_def intro!: wp_read [OF assms(2)])

lemma first_round:
  assumes "pydantic_laws (oe_pydantic E) F" and "os_consumer_group (oe_settings E) = grp"
    and "ev_body ev = ExecutionStarted eid wid" and "ev_body ev' = StepCompleted eid' wid' name k dur c outs"
    and "unread w (os_executions_stream (oe_settings E)) = (i, to_stream_dict F ev) # (i', to_stream_dict F ev') # rest"
    and "length rest + 2 \<le> os_consumer_poll_count (oe_settings E)"
    and "unread w (os_memory_stream (oe_settings E)) = []" and "os_processed w = 0"
  shows "wp (consumer_round S R H E)
    (\<lambda>_ w'. stuck E w' \<and> grows (audit_record ev ''execution.started'' eid) w w') (\<lambda>_ _. False) w"
proof -
  let ?c = "oe_settings E" and ?a = "audit_record ev ''execution.started'' eid"
  let ?s = "os_executions_stream ?c" and ?fin = "\<lambda>w'. stuck E w' \<and> grows ?a w w'"
  have poll: "0 < os_consumer_poll_count ?c" using assms(6) by simp
  have msgs: "wp (process_messages S R H E ?s (take (os_consumer_poll_count ?c) (unread w ?s)))
      (\<lambda>_ _. False) (\<lambda>_. ?fin) (w\<lparr>os_streams := q'\<rparr>)"
    if read: "unread (w\<lparr>os_streams := q'\<rparr>) = (unread w)(?s := drop (os_consumer_poll_count ?c) (unread w ?s))" for q'
  proof -
    have all: "take (os_consumer_poll_count ?c) (unread w ?s) = (i, to_stream_dict F ev) # (i', to_stream_dict F ev') # rest"
      and none: "drop (os_consumer_poll_count ?c) (unread w ?s) = []"
      using assms(5,6) by simp_all
    have step: "wp (process_one S R H E ?s (i', to_stream_dict F ev')) Q' (\<lambda>_. ?fin) (w'\<lparr>os_processed := Suc (os_processed w)\<rparr>)"
      if "same_log (w\<lparr>os_streams := q'\<rparr>) w'" "os_processed w' = os_processed w" "grows ?a (w\<lparr>os_streams := q'\<rparr>) w'" for w' Q'
      by (rule wp_mono [OF process_step [OF assms(1,4)]])
        (use that same_log_unread [OF that(1)] read none assms(7,8) in
          \<open>auto simp: stuck_def stream_names_def grows_def\<close>)
    show ?thesis unfolding all
      by simp (rule wp_mono [OF process_started [OF assms(1-3)]]; auto intro: step)
  qed
  have read: "wp (read_streams S R H E (stream_names ?c)) (\<lambda>_ _. False) (\<lambda>_. ?fin) w"
    by (simp add: stream_names_def Let_def assms(2))
      (rule wp_read [OF poll], rule wp_mono [OF msgs], simp_all)
  show ?thesis unfolding consumer_round_def by simp (rule wp_mono [OF read]; simp)
qed

lemma stuck_rounds:
  assumes "os_consumer_group (oe_settings E) = grp" and "0 < os_consumer_poll_count (oe_settings E)"
    and "stuck E w"
  shows "wp (consumer_rounds S R H E n)
    (\<lambda>_ w'. os_traces w' = os_traces w \<and> os_audit w' = os_audit w) (\<lambda>_ _. False) w"
  using assms(3)
proof (induction n arbitrary: w)
  case (Suc n)
  have "wp (consumer_rounds S R H E n) (\<lambda>_ w'. os_traces w' = os_traces w \<and> os_audit w' = os_audit w) (\<lambda>_ _. False) w1"
    if "stuck E w1 \<and> os_traces w1 = os_traces w \<and> os_audit w1 = os_audit w" for w1
    using Suc.IH [of w1] that by simp
  then show ?case by simp (rule wp_mono [OF stuck_round [OF assms(1,2) Suc.prems]]; simp)
qed simp

text \<open>However long the loop runs, all it does with such a batch is to handle the start.\<close>

lemma poisoned_batch:
  assumes "pydantic_laws (oe_pydantic E) F" and "os_consumer_group (oe_settings E) = grp"
    and "ev_body ev = ExecutionStarted eid wid" and "ev_body ev' = StepCompleted eid' wid' name k dur c outs"
    and "unread w (os_executions_stream (oe_settings E)) = (i, to_stream_dict F ev) # (i', to_stream_dict F ev') # rest"
    and "length rest + 2 \<le> os_consumer_poll_count (oe_settings E)"
    and "unread w (os_memory_stream (oe_settings E)) = []"
  shows "wp (run_consumer_loop S R H E n) (\<lambda>_. grows (audit_record ev ''execution.started'' eid) w) (\<lambda>_ _. False) w"
proof -
  let ?a = "audit_record ev ''execution.started'' eid"
  have poll: "0 < os_consumer_poll_count (oe_settings E)" using assms(6) by simp
  let ?ready = "\<lambda>w'. same_log w w' \<and> os_traces w' = os_traces w \<and> os_audit w' = os_audit w"
  have create: "wp (create_groups S grp ss) (\<lambda>_. ?ready) (\<lambda>_ _. False) w1" if "?ready w1" for ss and w1 :: "('q, 'a) obs"
    using that
  proof (induction ss arbitrary: w1)
    case (Cons s ss)
    have busy: "sublist ''BUSYGROUP'' ''BUSYGROUP Consumer Group name already exists''"
      using sublist_appendI [of "''BUSYGROUP''" "[]" "'' Consumer Group name already exists''"] by simp
    obtain q' where "q_create S s grp (os_streams w1) = (Inl (ResponseError ''BUSYGROUP Consumer Group name already exists''), q')"
      using create_exists [of s "os_streams w1"] by (metis prod.collapse)
    moreover from this have "?ready (w1\<lparr>os_streams := q'\<rparr>)"
      using create_keeps_log [of s "os_streams w1"] Cons.prems by (simp add: same_log_def)
    ultimately show ?case using Cons.IH by (simp add: busy)
  qed simp
  have rounds: "wp (consumer_rounds S R H E n) (\<lambda>_. grows ?a w) (\<lambda>_ _. False) (w1\<lparr>os_processed := 0\<rparr>)" if "?ready w1" for w1
  proof (cases n)
    case 0
    with that show ?thesis by (simp add: grows_same)
  next
    case (Suc m)
    have un: "unread (w1\<lparr>os_processed := 0\<rparr>) = unread w" using that same_log_unread by auto
    show ?thesis unfolding Suc
      by simp (rule wp_mono [OF first_round [OF assms(1-4), where i = i and i' = i' and rest = rest]];
        use un assms(5-7) that in \<open>auto simp: grows_def intro!: wp_mono [OF stuck_rounds [OF assms(2) poll]]\<close>)
  qed
  show ?thesis
    unfolding run_consumer_loop_def ensure_consumer_groups_def
    by (simp add: assms(2)) (rule wp_mono [OF create]; auto simp: same_log_def intro: rounds)
qed

end

section \<open>The in-memory server\<close>

definition mem_log :: "mem_streams \<Rightarrow> string \<Rightarrow> (string \<times> message) list" where
  "mem_log q s = map (mem_entry (q s)) [0..<length (ms_log (q s))]"

definition mem_pos :: "mem_streams \<Rightarrow> string \<Rightarrow> nat" where
  "mem_pos q s = ms_next (q s)"

lemma mem_log_ack: "mem_log (q(s := q s\<lparr>ms_next := a, ms_pend := b\<rparr>)) = mem_log q" "mem_log (q(s := q s\<lparr>ms_pend := b\<rparr>)) = mem_log q"
  by (auto simp: mem_log_def mem_entry_def fun_eq_iff)

interpretation mem_feed: consumer_feed mem_stream_ops grp mem_log mem_pos
proof unfold_locales
  show "concat (map snd res) = take n (drop (mem_pos q s) (mem_log q s)) \<and>
      mem_pos q' s = mem_pos q s + length (concat (map snd res))"
    if "q_readgroup mem_stream_ops s grp c n b q = (Inr res, q')" for s c n b q res q'
    using that by (auto simp: mem_stream_ops_def mem_log_def mem_pos_def Let_def drop_map take_map)
qed (auto simp: mem_stream_ops_def mem_log_ack mem_pos_def Let_def fun_eq_iff)

section \<open>Property\<close>

lemma event_type_cases:
  "event_type b = ''execution.started'' \<Longrightarrow> \<exists>e w. b = ExecutionStarted e w"
  "event_type b = ''execution.step.completed'' \<Longrightarrow> \<exists>e w n i d c outs. b = StepCompleted e w n i d c outs"
  by (cases b; simp)+

text \<open>
  C35: A run with at least one step that completes undisturbed publishes its completion, but when the
  consumer reads the events of the run as one batch, it never records it: however long it runs, it adds
  to the audit log at most the record of the start, and no trace.
\<close>

lemma completed_run_is_not_recorded:
  assumes "consumer_feed S grp entries pos" and "pydantic_laws (oe_pydantic OE) F"
    and "os_consumer_group (oe_settings OE) = grp" and "os_executions_stream (oe_settings OE) = ''executions''"
    and "redis_kv R view" and "lock_owner R (xw_locks w) (lock_key (ex_id (xw_row w))) = None"
    and "quiet E" and "fresh w" and "ex_status (xw_row w) = PENDING"
    and "steps_to_run wd w \<noteq> []" and "length (steps_to_run wd w) + 2 \<le> os_consumer_poll_count (oe_settings OE)"
    and "map snd (drop (pos (os_streams ow) ''executions'') (entries (os_streams ow) ''executions'')) =
      map (to_stream_dict F) (new_events ''executions'' w (snd (run R E wd w)))"
    and "pos (os_streams ow) (os_memory_stream (oe_settings OE)) =
      length (entries (os_streams ow) (os_memory_stream (oe_settings OE)))"
  shows "ex_status (xw_disk (snd (run R E wd w))) = COMPLETED \<and>
    event_type (ev_body (last (new_events ''executions'' w (snd (run R E wd w))))) = ''execution.completed'' \<and>
    (\<exists>rows. os_audit (snd (run_consumer_loop S RB H OE n ow)) = os_audit ow @ rows \<and> length rows \<le> 1 \<and>
       (\<forall>r \<in> set rows. au_action r = ''execution.started'')) \<and>
    os_traces (snd (run_consumer_loop S RB H OE n ow)) = os_traces ow"
proof -
  let ?evs = "new_events ''executions'' w (snd (run R E wd w))" and ?l = "drop (pos (os_streams ow) ''executions'') (entries (os_streams ow) ''executions'')"
  have "\<forall>n. ee_xadd E n = None" using assms(7) by simp
  from adds_new_global [OF run_adds_all [OF assms(5-9) fresh_keyed [OF assms(8)], of wd] this]
  have types: "map (event_type \<circ> ev_body) ?evs =
      ''execution.started'' # replicate (length (steps_to_run wd w)) ''execution.step.completed'' @ [''execution.completed'']" .
  obtain k where k: "length (steps_to_run wd w) = Suc k" using assms(10) by (cases "steps_to_run wd w") auto
  obtain ev ev' evs where evs: "?evs = ev # ev' # evs" and ev: "event_type (ev_body ev) = ''execution.started''"
    and ev': "event_type (ev_body ev') = ''execution.step.completed''"
    using types unfolding k by (auto simp: map_eq_Cons_conv)
  have "length (map (event_type \<circ> ev_body) ?evs) = Suc (Suc (Suc k))" unfolding types by (simp add: k)
  then have size: "length evs = Suc k" by (simp add: evs)
  have "last (map (event_type \<circ> ev_body) ?evs) = ''execution.completed''" unfolding types by simp
  then have last: "event_type (ev_body (last ?evs)) = ''execution.completed''" by (simp add: evs last_map split: if_splits)
  obtain i i' rest where l: "?l = (i, to_stream_dict F ev) # (i', to_stream_dict F ev') # rest" and "map snd rest = map (to_stream_dict F) evs"
    using assms(12) unfolding evs by (auto simp: map_eq_Cons_conv)
  then have rest: "length rest = Suc k" using size by (metis length_map)
  have fits: "length rest + 2 \<le> os_consumer_poll_count (oe_settings OE)" using rest k assms(11) by simp
  obtain e wid where started: "ev_body ev = ExecutionStarted e wid" using event_type_cases(1) [OF ev] by auto
  obtain e' wid' nm j d c outs where step: "ev_body ev' = StepCompleted e' wid' nm j d c outs" using event_type_cases(2) [OF ev'] by auto
  have "wp (run_consumer_loop S RB H OE n) (\<lambda>_. grows (audit_record ev ''execution.started'' e) ow) (\<lambda>_ _. False) ow"
    by (rule consumer_feed.poisoned_batch [OF assms(1-3) started step])
      (use l fits assms(4,13) in \<open>simp_all add: consumer_feed.unread_def [OF assms(1)]\<close>)
  then have "grows (audit_record ev ''execution.started'' e) ow (snd (run_consumer_loop S RB H OE n ow))"
    by (auto simp: wp_def split: prod.splits sum.splits)
  moreover have "au_action r = ''execution.started''" if "audit.truncate r = audit_record ev ''execution.started'' e" for r :: audit_row
    using arg_cong [OF that, of au_action] by (simp add: audit.truncate_def audit_record_def)
  ultimately show ?thesis
    using run_to_completion [OF assms(5-9), of wd] last by (auto simp: grows_def)
qed

lemma completed_run_is_not_recorded_witness:
  "\<exists>w' ow'. run mem_redis sample_env sample_wd (sample_world PENDING) = (Inr (), w') \<and> ex_status (xw_disk w') = COMPLETED \<and>
    ow' = snd (run_consumer_loop mem_stream_ops (lift_redis mem_redis) mem_hash sample_obs_env 9
      (sample_obs (\<lambda>s. \<lparr>ms_log = (if s = ''executions'' then map (to_stream_dict sample_format)
         (new_events ''executions'' (sample_world PENDING) w') else []), ms_next = 0, ms_pend = []\<rparr>) (\<lambda>_. None, \<lambda>_. None))) \<and>
    length (os_audit ow') \<le> 1 \<and> os_traces ow' = []"
proof -
  let ?w = "sample_world PENDING" and ?wd = sample_wd
  let ?w' = "snd (run mem_redis sample_env ?wd ?w)"
  let ?evs = "map (to_stream_dict sample_format) (new_events ''executions'' ?w ?w')"
  let ?q = "(\<lambda>s. \<lparr>ms_log = (if s = ''executions'' then ?evs else []), ms_next = 0, ms_pend = []\<rparr>) :: mem_streams"
  let ?ow = "sample_obs ?q (\<lambda>_. None, \<lambda>_. None)"
  have three: "length (steps_to_run ?wd ?w) = 3" using arg_cong [OF sample_steps [of PENDING], of length] by simp
  have laws: "pydantic_laws (oe_pydantic sample_obs_env) sample_format"
    using sample_pd.pydantic_laws_axioms by (simp add: sample_obs_env_def)
  have env: "os_executions_stream (oe_settings sample_obs_env) = ''executions''"
    "os_memory_stream (oe_settings sample_obs_env) = ''memory.events''" "os_consumer_poll_count (oe_settings sample_obs_env) = 100"
    by (simp_all add: sample_obs_env_def default_obs_settings_def)
  have obs: "os_streams (sample_obs q r) = q" "os_audit (sample_obs q r) = []" "os_traces (sample_obs q r) = []"
    for q :: mem_streams and r by (simp_all add: sample_obs_def)
  have nth: "map snd (map (\<lambda>k. (str_nat k, xs ! k)) [0..<length xs]) = xs" for xs :: "message list"
    by (simp add: o_def map_nth)
  have log: "map snd (drop (mem_pos (os_streams ?ow) ''executions'') (mem_log (os_streams ?ow) ''executions'')) = ?evs"
    unfolding obs(1) mem_log_def mem_pos_def using nth [of ?evs] by (simp add: mem_entry_def o_def)
  have none: "mem_pos (os_streams ?ow) (os_memory_stream (oe_settings sample_obs_env)) =
      length (mem_log (os_streams ?ow) (os_memory_stream (oe_settings sample_obs_env)))"
    by (simp add: obs(1) mem_pos_def mem_log_def env)
  have free: "lock_owner mem_redis (xw_locks ?w) (lock_key (ex_id (xw_row ?w))) = None" by simp
  have steps: "steps_to_run ?wd ?w \<noteq> []" "length (steps_to_run ?wd ?w) + 2 \<le> os_consumer_poll_count (oe_settings sample_obs_env)"
    using three env(3) by auto
  have pending: "ex_status (xw_row ?w) = PENDING" by simp
  note claim = completed_run_is_not_recorded [OF mem_feed.consumer_feed_axioms laws refl env(1) mem.redis_kv_axioms free
      sample_quiet sample_fresh pending steps, OF log none, of "lift_redis mem_redis" mem_hash 9]
  obtain w' where w': "run mem_redis sample_env ?wd ?w = (Inr (), w')"
    using run_to_completion [OF mem.redis_kv_axioms free sample_quiet sample_fresh pending] by blast
  then have "?w' = w'" by simp
  from claim [unfolded this] w' show ?thesis unfolding obs by (intro exI [of _ w']) auto
qed

end
