(* ===== verification/Gateway.thy ===== *)
theory Gateway
  imports Core_Middleware
begin

text \<open>
  \<open>services/api-gateway\<close>: authentication, rate limiting, idempotency and the reverse proxy.
  The HTTP client is the argument \<open>send\<close> over an upstream state, the JWT library \<open>L\<close> and the
  two Redis servers \<open>R\<close> are arguments as well. Header names are compared as HTTP does, without
  regard to case; the first header with a name is the one that a receiver reads.
\<close>

section \<open>Requests and responses\<close>

record gw_settings =
  gs_workflow_url :: string
  gs_memory_url :: string
  gs_observability_url :: string
  gs_internal_token :: string
  gs_jwt_secret :: string
  gs_jwt_algorithm :: string
  gs_requests_per_minute :: nat

type_synonym headers = "(string \<times> string) list"

record http_request =
  rq_method :: string
  rq_path :: string
  rq_headers :: headers
  rq_query :: headers
  rq_body :: string

record upstream_request =
  ur_method :: string
  ur_url :: string
  ur_headers :: headers
  ur_params :: headers
  ur_content :: string

record http_response =
  rs_status :: nat
  rs_headers :: headers
  rs_content :: string

definition header_get :: "headers \<Rightarrow> string \<Rightarrow> string option" where
  "header_get hs name = map_of (map (\<lambda>(k, v). (lower k, v)) hs) (lower name)"

section \<open>Authentication\<close>

definition gw_decode_jwt :: "jwt_lib \<Rightarrow> string \<Rightarrow> string \<Rightarrow> string \<Rightarrow> exn + claims" where
  "gw_decode_jwt L token secret algorithm =
     (case jw_decode L token secret algorithm of
        Inl e \<Rightarrow> Inl (auth_error_of e)
      | Inr claims \<Rightarrow> check_claims claims)"

text \<open>\<open>uuid.UUID(x)\<close> of a claim, which is any JSON value.\<close>

fun uuid_of_claim :: "json \<Rightarrow> exn + uuid" where
  "uuid_of_claim (JStr s) =
     (case uuid_parse s of None \<Rightarrow> Inl (PyValueError ''badly formed hexadecimal UUID string'') | Some u \<Rightarrow> Inr u)"
| "uuid_of_claim JNull = Inl (PyTypeError ''one of the hex, bytes, bytes_le, fields, or int arguments must be given'')"
| "uuid_of_claim _ = Inl (PyAttributeError ''replace'')"

definition get_tenant_id :: "jwt_lib \<Rightarrow> gw_settings \<Rightarrow> string option \<Rightarrow> exn + uuid" where
  "get_tenant_id L cfg credentials =
     (case credentials of
        None \<Rightarrow> Inl (HTTPException 401 ''missing_token'')
      | Some token \<Rightarrow>
          (case gw_decode_jwt L token (gs_jwt_secret cfg) (gs_jwt_algorithm cfg) of
             Inl (AuthError _ expired) \<Rightarrow>
               Inl (HTTPException 401 (if expired then ''token_expired'' else ''invalid_token''))
           | Inl e \<Rightarrow> Inl e
           | Inr claims \<Rightarrow>
               (case map_of claims ''tenant_id'' of
                  None \<Rightarrow> Inl (PyKeyError ''tenant_id'')
                | Some c \<Rightarrow>
                    (case uuid_of_claim c of
                       Inl (PyValueError _) \<Rightarrow> Inl (HTTPException 401 ''invalid_token'')
                     | Inl e \<Rightarrow> Inl e
                     | Inr u \<Rightarrow> Inr u))))"

section \<open>Routing and headers\<close>

definition downstream_url :: "gw_settings \<Rightarrow> string \<Rightarrow> string" where
  "downstream_url cfg path =
     (if startswith path ''/v1/memory'' then gs_memory_url cfg @ path
      else if startswith path ''/v1/traces'' \<or> startswith path ''/v1/metrics'' \<or> startswith path ''/v1/audit''
        then gs_observability_url cfg @ path
      else gs_workflow_url cfg @ path)"

definition HOP_BY_HOP :: "string list" where
  "HOP_BY_HOP = [''connection'', ''content-length'', ''keep-alive'', ''transfer-encoding'', ''te'',
     ''trailer'', ''upgrade'', ''proxy-authorization'', ''proxy-authenticate'']"

text \<open>A dict comprehension: a repeated key keeps its place and takes the last value.\<close>

definition dict_of :: "headers \<Rightarrow> headers" where
  "dict_of kvs = fold (\<lambda>(k, v) d. AList.update k v d) kvs []"

definition build_forward_headers :: "headers \<Rightarrow> uuid \<Rightarrow> string \<Rightarrow> headers" where
  "build_forward_headers request_headers tenant_id internal_token =
     (let headers = dict_of (filter (\<lambda>(k, v). lower k \<notin> set HOP_BY_HOP \<and> lower k \<noteq> ''authorization'')
            request_headers)
      in AList.update ''X-Tenant-ID'' (uuid_str tenant_id)
           (AList.update ''X-Internal-Token'' internal_token headers))"

section \<open>The proxy\<close>

record ('r, 'u) gateway =
  gw_rate :: 'r
  gw_idem :: 'r
  gw_up :: 'u

text \<open>
  A streaming response has sent its status and headers before its body is produced: the body
  is what the generator yields when it runs, or the exception that it raises.
\<close>

datatype 'u reply =
    Buffered http_response
  | Streaming nat headers "'u \<Rightarrow> exn + string list"

definition check_rate_limit :: "'r redis_ops \<Rightarrow> nat \<Rightarrow> nat \<Rightarrow> uuid \<Rightarrow> (('r, 'u) gateway, unit) py" where
  "check_rate_limit R limit now tenant_id = (\<lambda>g.
     case rate_check R limit now (uuid_str tenant_id) (gw_rate g) of
       (Inl (RateLimitExceeded m), r) \<Rightarrow> (Inl (HTTPException 429 m), g\<lparr>gw_rate := r\<rparr>)
     | (Inl e, r) \<Rightarrow> (Inl e, g\<lparr>gw_rate := r\<rparr>)
     | (Inr _, r) \<Rightarrow> (Inr (), g\<lparr>gw_rate := r\<rparr>))"

definition scoped_key :: "uuid \<Rightarrow> string \<Rightarrow> string" where
  "scoped_key tenant_id key = uuid_str tenant_id @ '':'' @ key"

definition IDEMPOTENCY_TTL :: nat where "IDEMPOTENCY_TTL = 86400"

definition check_idempotency :: "'r redis_ops \<Rightarrow> uuid \<Rightarrow> string option \<Rightarrow> (('r, 'u) gateway, unit) py" where
  "check_idempotency R tenant_id idempotency_key =
     (case idempotency_key of
        None \<Rightarrow> ret ()
      | Some key \<Rightarrow> (\<lambda>g.
          case check_and_store R (scoped_key tenant_id key) IDEMPOTENCY_TTL (gw_idem g) of
            (is_duplicate, r) \<Rightarrow>
              (if is_duplicate then Inl (HTTPException 409 ''duplicate_request'') else Inr (),
               g\<lparr>gw_idem := r\<rparr>)))"

definition proxy_buffered ::
  "(upstream_request \<Rightarrow> 'u \<Rightarrow> (exn + http_response) \<times> 'u) \<Rightarrow> http_request \<Rightarrow> string \<Rightarrow> headers \<Rightarrow>
     (('r, 'u) gateway, http_response) py" where
  "proxy_buffered send req target_url forward_headers = (\<lambda>g.
     case send \<lparr>ur_method = rq_method req, ur_url = target_url, ur_headers = forward_headers,
                ur_params = rq_query req, ur_content = rq_body req\<rparr> (gw_up g) of
       (Inl e, u) \<Rightarrow> (Inl e, g\<lparr>gw_up := u\<rparr>)
     | (Inr resp, u) \<Rightarrow>
         (Inr (resp\<lparr>rs_headers := dict_of (filter (\<lambda>(k, v). lower k \<notin> set HOP_BY_HOP) (rs_headers resp))\<rparr>),
          g\<lparr>gw_up := u\<rparr>))"

text \<open>\<open>stream\<close> is the client's streaming call: the upstream status and the chunks of its body.\<close>

definition proxy_sse ::
  "(upstream_request \<Rightarrow> 'u \<Rightarrow> exn + nat \<times> string list) \<Rightarrow> headers \<Rightarrow> string \<Rightarrow> headers \<Rightarrow> 'u reply" where
  "proxy_sse stream query target_url forward_headers =
     Streaming 200 [(''Cache-Control'', ''no-cache''), (''X-Accel-Buffering'', ''no'')]
       (\<lambda>u. case stream \<lparr>ur_method = ''GET'', ur_url = target_url, ur_headers = forward_headers,
                 ur_params = query, ur_content = []\<rparr> u of
              Inl e \<Rightarrow> Inl e
            | Inr (status, chunks) \<Rightarrow>
                if status \<noteq> 200 then Inl (HTTPException status ''upstream sse error'') else Inr chunks)"

definition idempotency_applies :: "http_request \<Rightarrow> bool" where
  "idempotency_applies req =
     (let full_path = ''/v1/'' @ rq_path req
      in rq_method req = ''POST'' \<and>
         (endswith (rstrip ''/'' full_path) ''/execute'' \<or> rstrip ''/'' full_path = ''/v1/memory/items''))"

definition proxy ::
  "'r redis_ops \<Rightarrow> gw_settings \<Rightarrow> (upstream_request \<Rightarrow> 'u \<Rightarrow> (exn + http_response) \<times> 'u) \<Rightarrow>
     (upstream_request \<Rightarrow> 'u \<Rightarrow> exn + nat \<times> string list) \<Rightarrow> nat \<Rightarrow> uuid \<Rightarrow> http_request \<Rightarrow>
     (('r, 'u) gateway, 'u reply) py" where
  "proxy R cfg send stream now tenant_id req =
     (let full_path = ''/v1/'' @ rq_path req;
          idempotency_key = header_get (rq_headers req) ''Idempotency-Key'';
          target_url = downstream_url cfg full_path;
          forward_headers = build_forward_headers (rq_headers req) tenant_id (gs_internal_token cfg)
      in seq (check_rate_limit R (gs_requests_per_minute cfg) now tenant_id)
         (seq (if idempotency_applies req then check_idempotency R tenant_id idempotency_key else ret ())
         (if endswith full_path ''/stream'' \<and> rq_method req = ''GET''
          then ret (proxy_sse stream (rq_query req) target_url forward_headers)
          else
            andthen (proxy_buffered send req target_url forward_headers) (\<lambda>response.
            seq (case idempotency_key of
                   Some key \<Rightarrow>
                     if idempotency_applies req \<and> rs_status response \<ge> 500
                     then modify (\<lambda>g. g\<lparr>gw_idem := idem_delete R (scoped_key tenant_id key) (gw_idem g)\<rparr>)
                     else ret ()
                 | None \<Rightarrow> ret ())
            (ret (Buffered response))))))"

text \<open>The whole request: the dependency first, then the handler.\<close>

definition handle_request ::
  "'r redis_ops \<Rightarrow> jwt_lib \<Rightarrow> gw_settings \<Rightarrow> (upstream_request \<Rightarrow> 'u \<Rightarrow> (exn + http_response) \<times> 'u) \<Rightarrow>
     (upstream_request \<Rightarrow> 'u \<Rightarrow> exn + nat \<times> string list) \<Rightarrow> nat \<Rightarrow> string option \<Rightarrow> http_request \<Rightarrow>
     (('r, 'u) gateway, 'u reply) py" where
  "handle_request R L cfg send stream now credentials req =
     andthen (liftsum (get_tenant_id L cfg credentials)) (\<lambda>tenant_id.
       proxy R cfg send stream now tenant_id req)"

text \<open>The health endpoint: which of the two Redis servers answers a ping.\<close>

definition gw_health :: "bool \<Rightarrow> bool \<Rightarrow> nat \<times> headers" where
  "gw_health rate_limit_up idempotency_up =
     (let errors = (if rate_limit_up then [] else [(''redis_rate_limit'', ''unreachable'')]) @
                   (if idempotency_up then [] else [(''redis_idempotency'', ''unreachable'')])
      in if errors \<noteq> [] then (503, (''status'', ''degraded'') # errors)
         else (200, [(''status'', ''ok''), (''service'', ''api-gateway'')]))"

section \<open>Headers\<close>

lemma header_get_Nil [simp]: "header_get [] n = None"
  by (simp add: header_get_def)

lemma header_get_Cons: "header_get ((k, v) # hs) n = (if lower n = lower k then Some v else header_get hs n)"
  by (simp add: header_get_def)

lemma header_get_update_other:
  "lower k \<noteq> lower n \<Longrightarrow> header_get (AList.update k v hs) n = header_get hs n"
  by (induction hs) (auto simp: header_get_Cons)

lemma header_get_update_new:
  "header_get hs n = None \<Longrightarrow> lower k = lower n \<Longrightarrow> header_get (AList.update k v hs) n = Some v"
  by (induction hs) (auto simp: header_get_Cons split: if_splits)

lemma header_get_update_shadowed:
  "header_get hs n = Some x \<Longrightarrow> k \<notin> fst ` set hs \<Longrightarrow> header_get (AList.update k v hs) n = Some x"
  by (induction hs) (auto simp: header_get_Cons split: if_splits)

lemma header_get_None: "header_get hs n = None \<longleftrightarrow> (\<forall>k \<in> fst ` set hs. lower k \<noteq> lower n)"
  unfolding header_get_def map_of_eq_None_iff by force

lemma header_get_lowered:
  "(\<And>k. k \<in> fst ` set hs \<Longrightarrow> lower k = k) \<Longrightarrow> header_get hs n = map_of hs (lower n)"
  by (induction hs) (auto simp: header_get_Cons)

lemma map_of_dict: "map_of (dict_of kvs) k = map_of (rev kvs) k"
proof -
  have "map_of (fold (\<lambda>(k, v) d. AList.update k v d) kvs d) = map_of d ++ map_of (rev kvs)" for d
    by (induction kvs arbitrary: d) (auto simp: update_conv fun_eq_iff map_add_def split: option.splits)
  then show ?thesis by (simp add: dict_of_def)
qed

lemma keys_dict: "fst ` set (dict_of kvs) = fst ` set kvs"
proof -
  have "dom (map_of (dict_of kvs)) = dom (map_of (rev kvs))" by (auto simp: dom_def map_of_dict)
  then show ?thesis by (simp add: dom_map_of_conv_image_fst)
qed

lemma keys_update: "fst ` set (AList.update k v hs) = insert k (fst ` set hs)"
  by (induction hs) auto

lemma lower_names [simp]:
  "lower ''X-Tenant-ID'' = ''x-tenant-id''" "lower ''X-Internal-Token'' = ''x-internal-token''"
  "lower ''x-tenant-id'' = ''x-tenant-id''" "lower ''x-internal-token'' = ''x-internal-token''"
  by code_simp+

definition kept_headers :: "headers \<Rightarrow> headers" where
  "kept_headers hs = filter (\<lambda>(k, v). lower k \<notin> set HOP_BY_HOP \<and> lower k \<noteq> ''authorization'') hs"

lemma build_forward_headers_eq:
  "build_forward_headers hs tid tok =
     AList.update ''X-Tenant-ID'' (uuid_str tid) (AList.update ''X-Internal-Token'' tok (dict_of (kept_headers hs)))"
  by (simp add: build_forward_headers_def kept_headers_def Let_def)

lemma kept_header_names: "k \<in> fst ` set (kept_headers hs) \<longleftrightarrow>
    k \<in> fst ` set hs \<and> lower k \<notin> set HOP_BY_HOP \<and> lower k \<noteq> ''authorization''"
  unfolding kept_headers_def by force

lemma no_client_header:
  assumes "header_get hs n = None"
  shows "header_get (dict_of (kept_headers hs)) n = None"
  unfolding header_get_None keys_dict
proof
  fix k assume "k \<in> fst ` set (kept_headers hs)"
  then have "k \<in> fst ` set hs" unfolding kept_header_names by (rule conjunct1)
  with assms show "lower k \<noteq> lower n" unfolding header_get_None by (rule bspec)
qed

lemma forwarded_names:
  "k \<in> fst ` set (build_forward_headers hs tid tok) \<Longrightarrow>
     k \<in> {''X-Tenant-ID'', ''X-Internal-Token''} \<or> (k \<in> fst ` set hs \<and> lower k \<notin> set HOP_BY_HOP \<and>
       lower k \<noteq> ''authorization'')"
  by (auto simp: build_forward_headers_eq keys_update keys_dict kept_header_names)

section \<open>Idempotency\<close>

lemma scoped_key_inj [key_inj]: "scoped_key t k = scoped_key t' k' \<longleftrightarrow> t = t' \<and> k = k'"
  by (auto simp: scoped_key_def append_eq_same_length key_inj)

text \<open>
  Requests with their waiting time, tenant and key: which are duplicates, by the server and
  by remembering when a key was last stored.
\<close>

fun idem_run :: "'r redis_ops \<Rightarrow> (nat \<times> uuid \<times> string) list \<Rightarrow> 'r \<Rightarrow> bool list" where
  "idem_run R [] r = []"
| "idem_run R ((wait, tid, key) # reqs) r =
     (case check_and_store R (scoped_key tid key) IDEMPOTENCY_TTL (r_elapse R (1000 * wait) r) of
        (dup, r') \<Rightarrow> dup # idem_run R reqs r')"

fun idem_spec :: "nat \<Rightarrow> (uuid \<times> string \<Rightarrow> nat option) \<Rightarrow> (nat \<times> uuid \<times> string) list \<Rightarrow> bool list" where
  "idem_spec now stored [] = []"
| "idem_spec now stored ((wait, tid, key) # reqs) =
     (let t = now + wait;
          dup = (case stored (tid, key) of None \<Rightarrow> False | Some t0 \<Rightarrow> t < t0 + IDEMPOTENCY_TTL)
      in dup # idem_spec t (if dup then stored else stored((tid, key) \<mapsto> t)) reqs)"

definition idem_ok :: "keyspace \<Rightarrow> nat \<Rightarrow> (uuid \<times> string \<Rightarrow> nat option) \<Rightarrow> bool" where
  "idem_ok v now stored \<longleftrightarrow> (\<forall>tid key. v (idem_key (scoped_key tid key)) =
     (case stored (tid, key) of None \<Rightarrow> None
      | Some t0 \<Rightarrow> if now < t0 + IDEMPOTENCY_TTL
                   then Some (''1'', Some (1000 * (t0 + IDEMPOTENCY_TTL - now))) else None))"

lemma idem_okD:
  "idem_ok v now stored \<Longrightarrow> v (idem_key (scoped_key tid key)) =
     (case stored (tid, key) of None \<Rightarrow> None
      | Some t0 \<Rightarrow> if now < t0 + IDEMPOTENCY_TTL
                   then Some (''1'', Some (1000 * (t0 + IDEMPOTENCY_TTL - now))) else None)"
  by (simp add: idem_ok_def)

context redis_kv
begin

lemma idem_elapse:
  assumes "idem_ok (view r) now stored"
  shows "idem_ok (view (r_elapse R (1000 * d) r)) (now + d) stored"
  unfolding idem_ok_def
proof (intro allI)
  fix tid key
  show "view (r_elapse R (1000 * d) r) (idem_key (scoped_key tid key)) =
    (case stored (tid, key) of None \<Rightarrow> None
     | Some t0 \<Rightarrow> if now + d < t0 + IDEMPOTENCY_TTL
         then Some (''1'', Some (1000 * (t0 + IDEMPOTENCY_TTL - (now + d)))) else None)"
    using idem_okD [OF assms, of tid key]
    by (auto simp: elapse_view diff_mult_distrib2 split: option.splits)
qed

lemma idem_check:
  assumes "idem_ok (view r) now stored"
    and "check_and_store R (scoped_key tid key) IDEMPOTENCY_TTL r = (dup, r')"
  shows "dup = (case stored (tid, key) of None \<Rightarrow> False | Some t0 \<Rightarrow> now < t0 + IDEMPOTENCY_TTL) \<and>
    idem_ok (view r') now (if dup then stored else stored((tid, key) \<mapsto> now))"
proof -
  let ?k = "idem_key (scoped_key tid key)"
  have pos: "0 < IDEMPOTENCY_TTL" by (simp add: IDEMPOTENCY_TTL_def)
  from assms(2) have dup: "dup = (view r ?k \<noteq> None)"
    and v: "view r' = (if view r ?k = None then (view r)(?k \<mapsto> (''1'', Some (1000 * IDEMPOTENCY_TTL))) else view r)"
    using set_nx_result [OF pos, of ?k "''1''" r] set_nx_view [OF pos, of ?k "''1''" r]
    by (auto simp: check_and_store_def split: prod.splits)
  have "idem_ok (view r') now (if dup then stored else stored((tid, key) \<mapsto> now))"
    using idem_okD [OF assms(1)] pos
    by (auto simp: idem_ok_def dup v key_inj)
  with dup idem_okD [OF assms(1), of tid key] show ?thesis by (auto split: option.splits)
qed

lemma idem_run_spec:
  "idem_ok (view r) now stored \<Longrightarrow> idem_run R reqs r = idem_spec now stored reqs"
proof (induction reqs arbitrary: now stored r)
  case Nil
  then show ?case by simp
next
  case (Cons req reqs)
  obtain wait tid key where req: "req = (wait, tid, key)" by (metis prod_cases3)
  obtain dup r' where check: "check_and_store R (scoped_key tid key) IDEMPOTENCY_TTL (r_elapse R (1000 * wait) r) = (dup, r')"
    by fastforce
  note ok = idem_check [OF idem_elapse [OF Cons.prems] check]
  have rest: "idem_run R reqs r' =
      idem_spec (now + wait) (if dup then stored else stored((tid, key) \<mapsto> now + wait)) reqs"
    by (rule Cons.IH [OF conjunct2 [OF ok]])
  show ?case
    by (simp only: req idem_run.simps idem_spec.simps Let_def check prod.case
        conjunct1 [OF ok, symmetric] rest)
qed

end

text \<open>The rate limiter refuses a request, or sees it through.\<close>

definition rate_ok :: "'r redis_ops \<Rightarrow> gw_settings \<Rightarrow> nat \<Rightarrow> uuid \<Rightarrow> ('r, 'u) gateway \<Rightarrow> bool" where
  "rate_ok R cfg now tid g \<longleftrightarrow>
     \<not> isl (fst (rate_check R (gs_requests_per_minute cfg) now (uuid_str tid) (gw_rate g)))"

definition is_duplicate :: "'r redis_ops \<Rightarrow> uuid \<Rightarrow> http_request \<Rightarrow> ('r, 'u) gateway \<Rightarrow> bool" where
  "is_duplicate R tid req g \<longleftrightarrow> idempotency_applies req \<and>
     (case header_get (rq_headers req) ''Idempotency-Key'' of None \<Rightarrow> False
      | Some key \<Rightarrow> r_get R (idem_key (scoped_key tid key)) (gw_idem g) \<noteq> None)"

lemma rate_check_Inl: "rate_check R l n t r = (Inl e, r') \<Longrightarrow> \<exists>m. e = RateLimitExceeded m"
  by (auto simp: rate_check_def Let_def split: prod.splits if_splits)

lemma check_rate_limit_cases:
  obtains (refused) m r where "check_rate_limit R (gs_requests_per_minute cfg) now tid g =
      (Inl (HTTPException 429 m), g\<lparr>gw_rate := r\<rparr>)" "\<not> rate_ok R cfg now tid g"
  | (admitted) r where "check_rate_limit R (gs_requests_per_minute cfg) now tid g = (Inr (), g\<lparr>gw_rate := r\<rparr>)"
      "rate_ok R cfg now tid g"
proof (cases "rate_check R (gs_requests_per_minute cfg) now (uuid_str tid) (gw_rate g)")
  case (Pair res r)
  then show ?thesis
  proof (cases res)
    case (Inl e)
    with Pair have "rate_check R (gs_requests_per_minute cfg) now (uuid_str tid) (gw_rate g) = (Inl e, r)" by simp
    from rate_check_Inl [OF this] obtain m where "e = RateLimitExceeded m" ..
    with Pair Inl show ?thesis by (intro refused [of m r]) (simp_all add: check_rate_limit_def rate_ok_def)
  next
    case (Inr a)
    with Pair show ?thesis by (intro admitted [of r]) (simp_all add: check_rate_limit_def rate_ok_def)
  qed
qed

context redis_kv
begin

lemma check_idempotency_fresh:
  assumes "view (gw_idem g) (idem_key (scoped_key tid key)) = None"
  shows "\<exists>r. check_idempotency R tid (Some key) g = (Inr (), g\<lparr>gw_idem := r\<rparr>) \<and>
    view r = (view (gw_idem g))(idem_key (scoped_key tid key) \<mapsto> (''1'', Some (1000 * IDEMPOTENCY_TTL)))"
  using assms set_nx_result [of IDEMPOTENCY_TTL "idem_key (scoped_key tid key)" "''1''" "gw_idem g"]
    set_nx_view [of IDEMPOTENCY_TTL "idem_key (scoped_key tid key)" "''1''" "gw_idem g"]
  by (auto simp: check_idempotency_def check_and_store_def IDEMPOTENCY_TTL_def split: prod.splits)

lemma check_idempotency_duplicate:
  assumes "view (gw_idem g) (idem_key (scoped_key tid key)) \<noteq> None"
  shows "\<exists>r. check_idempotency R tid (Some key) g = (Inl (HTTPException 409 ''duplicate_request''), g\<lparr>gw_idem := r\<rparr>) \<and>
    view r = view (gw_idem g)"
  using assms set_nx_result [of IDEMPOTENCY_TTL "idem_key (scoped_key tid key)" "''1''" "gw_idem g"]
    set_nx_view [of IDEMPOTENCY_TTL "idem_key (scoped_key tid key)" "''1''" "gw_idem g"]
  by (auto simp: check_idempotency_def check_and_store_def IDEMPOTENCY_TTL_def split: prod.splits)

end

text \<open>A POST to an idempotent endpoint whose key has not been seen.\<close>

definition first_request :: "('r \<Rightarrow> keyspace) \<Rightarrow> uuid \<Rightarrow> http_request \<Rightarrow> string \<Rightarrow> ('r, 'u) gateway \<Rightarrow> bool" where
  "first_request view tid req key g \<longleftrightarrow> idempotency_applies req \<and>
     header_get (rq_headers req) ''Idempotency-Key'' = Some key \<and>
     view (gw_idem g) (idem_key (scoped_key tid key)) = None"

lemma proxy_first_request:
  assumes "redis_kv R view" and "first_request view tid req key g" and "rate_ok R cfg now tid g"
  obtains r r' where "view r' = (view (gw_idem g))(idem_key (scoped_key tid key) \<mapsto> (''1'', Some (1000 * IDEMPOTENCY_TTL)))"
    and "proxy R cfg send stream now tid req g =
      andthen (proxy_buffered send req (downstream_url cfg (''/v1/'' @ rq_path req))
        (build_forward_headers (rq_headers req) tid (gs_internal_token cfg))) (\<lambda>response.
          seq (if rs_status response \<ge> 500
               then modify (\<lambda>g. g\<lparr>gw_idem := idem_delete R (scoped_key tid key) (gw_idem g)\<rparr>) else ret ())
            (ret (Buffered response)))
        (g\<lparr>gw_rate := r, gw_idem := r'\<rparr>)"
proof (cases rule: check_rate_limit_cases [of R cfg now tid g])
  case (refused m r)
  with assms(3) show ?thesis by simp
next
  case (admitted r)
  have post: "rq_method req \<noteq> ''GET''"
    using assms(2) by (auto simp: first_request_def idempotency_applies_def Let_def)
  from assms(2) have "view (gw_idem (g\<lparr>gw_rate := r\<rparr>)) (idem_key (scoped_key tid key)) = None"
    by (simp add: first_request_def)
  from redis_kv.check_idempotency_fresh [OF assms(1) this]
  obtain r' where r': "check_idempotency R tid (Some key) (g\<lparr>gw_rate := r\<rparr>) = (Inr (), g\<lparr>gw_rate := r, gw_idem := r'\<rparr>)"
    "view r' = (view (gw_idem g))(idem_key (scoped_key tid key) \<mapsto> (''1'', Some (1000 * IDEMPOTENCY_TTL)))" by auto
  with admitted post assms(2) show ?thesis
    by (intro that [of r' r]) (simp_all add: proxy_def Let_def first_request_def)
qed

lemma non_string_tenant_is_not_401:
  assumes "jw_decode L token (gs_jwt_secret cfg) (gs_jwt_algorithm cfg) = Inr claims"
    and "map_of claims ''tenant_id'' = Some (JInt n)" and "map_of claims ''exp'' \<noteq> None"
  shows "get_tenant_id L cfg (Some token) = Inl (PyAttributeError ''replace'')"
  using assms by (auto simp: get_tenant_id_def gw_decode_jwt_def check_claims_def)

section \<open>Sample requests\<close>

definition sample_gw :: gw_settings where
  "sample_gw = \<lparr>gs_workflow_url = ''http://w'', gs_memory_url = ''http://m'', gs_observability_url = ''http://o'',
     gs_internal_token = ''secret'', gs_jwt_secret = ''js'', gs_jwt_algorithm = ''HS256'', gs_requests_per_minute = 5\<rparr>"

definition sample_post :: http_request where
  "sample_post = \<lparr>rq_method = ''POST'', rq_path = ''memory/items'', rq_headers = [(''idempotency-key'', ''k'')],
     rq_query = [], rq_body = ''x''\<rparr>"

definition sample_gateway :: "(keyspace, unit) gateway" where
  "sample_gateway = \<lparr>gw_rate = (\<lambda>_. None), gw_idem = (\<lambda>_. None), gw_up = ()\<rparr>"

lemma sample_post_applies: "idempotency_applies sample_post"
  by (simp add: idempotency_applies_def sample_post_def Let_def rstrip_def)

lemma sample_post_key: "header_get (rq_headers sample_post) ''Idempotency-Key'' = Some ''k''"
  by code_simp

lemma sample_rate_ok: "rate_ok mem_redis sample_gw 0 7 sample_gateway"
  by (simp add: rate_ok_def rate_check_def incr_with_ttl_def mem_redis_def sample_gw_def sample_gateway_def Let_def)

lemma sample_rate_refused:
  "\<not> rate_ok mem_redis (sample_gw\<lparr>gs_requests_per_minute := 0\<rparr>) 0 7 sample_gateway"
  by (simp add: rate_ok_def rate_check_def incr_with_ttl_def mem_redis_def sample_gw_def sample_gateway_def Let_def)

lemma sample_first: "first_request (\<lambda>r. r) 7 sample_post ''k'' sample_gateway"
  by (simp add: first_request_def sample_post_applies sample_post_key) (simp add: sample_gateway_def)

section \<open>Properties\<close>

text \<open>
  C15: A tenant is authenticated exactly when the bearer token decodes with the configured secret
  and algorithm, has an expiry, and carries the text form of that tenant's UUID.
\<close>

lemma tenant_comes_from_the_token:
  "get_tenant_id L cfg credentials = Inr tid \<longleftrightarrow>
     (\<exists>token claims s. credentials = Some token \<and>
        jw_decode L token (gs_jwt_secret cfg) (gs_jwt_algorithm cfg) = Inr claims \<and>
        map_of claims ''exp'' \<noteq> None \<and> map_of claims ''tenant_id'' = Some (JStr s) \<and> uuid_parse s = Some tid)"
proof
  assume "get_tenant_id L cfg credentials = Inr tid"
  then obtain token claims c where 1: "credentials = Some token"
    "gw_decode_jwt L token (gs_jwt_secret cfg) (gs_jwt_algorithm cfg) = Inr claims"
    "map_of claims ''tenant_id'' = Some c" "uuid_of_claim c = Inr tid"
    by (auto simp: get_tenant_id_def split: option.splits sum.splits exn.splits)
  from 1(2) have 2: "jw_decode L token (gs_jwt_secret cfg) (gs_jwt_algorithm cfg) = Inr claims"
    "map_of claims ''exp'' \<noteq> None"
    by (auto simp: gw_decode_jwt_def split: sum.splits dest: check_claims_Inr)
  from 1(4) obtain s where "c = JStr s" "uuid_parse s = Some tid"
    by (cases c) (auto split: option.splits)
  with 1 2 show "\<exists>token claims s. credentials = Some token \<and>
        jw_decode L token (gs_jwt_secret cfg) (gs_jwt_algorithm cfg) = Inr claims \<and>
        map_of claims ''exp'' \<noteq> None \<and> map_of claims ''tenant_id'' = Some (JStr s) \<and> uuid_parse s = Some tid"
    by blast
qed (auto simp: get_tenant_id_def gw_decode_jwt_def check_claims_def)

text \<open>
  C14: When the client sends neither of the two headers itself, the services read the authenticated
  tenant and the gateway's own token from the forwarded request, the tenant's text reads back as the
  same UUID, and neither hop-by-hop headers nor the Authorization header are forwarded.
\<close>

lemma tenant_header_is_authenticated:
  assumes "header_get hs ''X-Tenant-ID'' = None" and "header_get hs ''X-Internal-Token'' = None"
  shows "header_get (build_forward_headers hs tid tok) ''X-Tenant-ID'' = Some (uuid_str tid) \<and>
    uuid_parse (uuid_str tid) = Some tid \<and>
    header_get (build_forward_headers hs tid tok) ''X-Internal-Token'' = Some tok \<and>
    (\<forall>k \<in> fst ` set (build_forward_headers hs tid tok). lower k \<notin> set HOP_BY_HOP \<and> lower k \<noteq> ''authorization'')"
proof (intro conjI ballI)
  let ?d = "dict_of (kept_headers hs)"
  show "header_get (build_forward_headers hs tid tok) ''X-Tenant-ID'' = Some (uuid_str tid)"
    unfolding build_forward_headers_eq
    by (rule header_get_update_new)
      (simp_all add: header_get_update_other no_client_header [OF assms(1)])
  show "header_get (build_forward_headers hs tid tok) ''X-Internal-Token'' = Some tok"
    unfolding build_forward_headers_eq
    by (simp add: header_get_update_other header_get_update_new no_client_header [OF assms(2)])
next
  fix k assume "k \<in> fst ` set (build_forward_headers hs tid tok)"
  from forwarded_names [OF this]
  show "lower k \<notin> set HOP_BY_HOP" and "lower k \<noteq> ''authorization''" by (auto simp: HOP_BY_HOP_def)
qed (rule uuid_parse_str)

lemma tenant_header_is_authenticated_witness:
  "header_get (build_forward_headers [(''host'', ''h''), (''authorization'', ''Bearer t'')] 7 ''secret'') ''X-Tenant-ID'' =
     Some (uuid_str 7)"
proof -
  have "header_get [(''host'', ''h''), (''authorization'', ''Bearer t'')] ''X-Tenant-ID'' = None"
    and "header_get [(''host'', ''h''), (''authorization'', ''Bearer t'')] ''X-Internal-Token'' = None"
    by code_simp+
  from tenant_header_is_authenticated [OF this] show ?thesis by blast
qed

text \<open>
  C13: A client can choose the tenant that the services see: a client header x-tenant-id survives
  next to the injected X-Tenant-ID, comes first, and is the one that is read, whatever tenant the
  token authenticated.
\<close>

lemma tenant_header_can_be_spoofed:
  assumes "\<And>k. k \<in> fst ` set hs \<Longrightarrow> lower k = k" and "map_of (rev hs) ''x-tenant-id'' = Some v"
  shows "header_get (build_forward_headers hs tid tok) ''X-Tenant-ID'' = Some v"
proof -
  let ?d = "dict_of (kept_headers hs)"
  have low: "lower k = k" if "k \<in> fst ` set ?d" for k
    using that assms(1) by (auto simp: keys_dict kept_header_names)
  have "map_of (rev (kept_headers hs)) ''x-tenant-id'' = Some v"
  proof -
    have "rev (kept_headers hs) = filter (\<lambda>(k, v). lower k \<notin> set HOP_BY_HOP \<and> lower k \<noteq> ''authorization'') (rev hs)"
      by (simp add: kept_headers_def rev_filter)
    moreover have "map_of (filter (\<lambda>(k, v). P k) xs) n = map_of xs n" if "P n" for P n and xs :: headers
      using that by (induction xs) auto
    ultimately show ?thesis using assms(2) by (simp add: HOP_BY_HOP_def)
  qed
  then have client: "header_get ?d ''X-Tenant-ID'' = Some v"
    using header_get_lowered [of ?d, OF low] by (simp add: map_of_dict)
  have "''X-Tenant-ID'' \<notin> fst ` set (AList.update ''X-Internal-Token'' tok ?d)"
    using low [of "''X-Tenant-ID''"] by (auto simp: keys_update)
  then show ?thesis unfolding build_forward_headers_eq
    by (rule header_get_update_shadowed [rotated]) (simp_all add: header_get_update_other client)
qed

lemma tenant_header_can_be_spoofed_witness:
  "header_get (build_forward_headers [(''host'', ''h''), (''x-tenant-id'', ''other'')] 7 ''secret'') ''X-Tenant-ID'' =
     Some ''other''"
proof (rule tenant_header_can_be_spoofed)
  fix k assume "k \<in> fst ` set [(''host'', ''h''), (''x-tenant-id'', ''other'')]"
  then have "k = ''host'' \<or> k = ''x-tenant-id''" by simp
  moreover have "lower ''host'' = ''host''" by code_simp
  ultimately show "lower k = k" by auto
qed simp

text \<open>
  C17: A request is treated as a duplicate exactly when the same tenant used the same key less
  than 24 hours before in a request that was not a duplicate; different tenants never share a key.
\<close>

lemma idempotency_window:
  assumes "redis_kv R view" and "\<And>tid key. view r (idem_key (scoped_key tid key)) = None"
  shows "idem_run R reqs r = idem_spec now (\<lambda>_. None) reqs"
  by (rule redis_kv.idem_run_spec [OF assms(1)]) (simp add: idem_ok_def assms(2))

lemma idempotency_window_witness:
  "idem_run mem_redis [(0, 1, ''k''), (86399, 1, ''k''), (0, 2, ''k''), (1, 1, ''k'')] (\<lambda>_. None) =
     [False, True, False, False]"
  using idempotency_window [OF mem.redis_kv_axioms, of "\<lambda>_. None"
      "[(0, 1, ''k''), (86399, 1, ''k''), (0, 2, ''k''), (1, 1, ''k'')]" 0]
  by (simp add: IDEMPOTENCY_TTL_def Let_def)

text \<open>
  C18: A request over the rate limit is answered 429 and a duplicate 409; neither reaches an upstream
  service, and a rate-limited request does not use up its idempotency key.
\<close>

lemma refused_request_goes_nowhere:
  assumes "redis_kv R view" and "\<not> rate_ok R cfg now tid g \<or> is_duplicate R tid req g"
  shows "\<exists>m g'. proxy R cfg send stream now tid req g =
      (Inl (HTTPException (if rate_ok R cfg now tid g then 409 else 429) m), g') \<and>
    gw_up g' = gw_up g \<and> (\<not> rate_ok R cfg now tid g \<longrightarrow> gw_idem g' = gw_idem g)"
proof (cases rule: check_rate_limit_cases [of R cfg now tid g])
  case (refused m r)
  then show ?thesis by (simp add: proxy_def Let_def)
next
  case (admitted r)
  with assms(2) obtain key where key: "idempotency_applies req"
    "header_get (rq_headers req) ''Idempotency-Key'' = Some key"
    "view (gw_idem (g\<lparr>gw_rate := r\<rparr>)) (idem_key (scoped_key tid key)) \<noteq> None"
    by (auto simp: is_duplicate_def redis_kv.get_view [OF assms(1)] split: option.splits)
  from redis_kv.check_idempotency_duplicate [OF assms(1) key(3)]
  obtain r' where "check_idempotency R tid (Some key) (g\<lparr>gw_rate := r\<rparr>) =
    (Inl (HTTPException 409 ''duplicate_request''), g\<lparr>gw_rate := r, gw_idem := r'\<rparr>)" by auto
  with admitted key(1,2) show ?thesis by (simp add: proxy_def Let_def)
qed

lemma refused_request_goes_nowhere_witness:
  "\<exists>m g'. proxy mem_redis (sample_gw\<lparr>gs_requests_per_minute := 0\<rparr>) (\<lambda>_ u. (Inl (RequestError ''down''), u))
      (\<lambda>_ _. Inl (RequestError ''down'')) 0 7 sample_post sample_gateway = (Inl (HTTPException 429 m), g') \<and>
    gw_idem g' = gw_idem sample_gateway"
  using refused_request_goes_nowhere [OF mem.redis_kv_axioms,
      of "sample_gw\<lparr>gs_requests_per_minute := 0\<rparr>" 0 7 sample_gateway sample_post
      "\<lambda>_ u. (Inl (RequestError ''down''), u)" "\<lambda>_ _. Inl (RequestError ''down'')"]
  by (auto simp: sample_rate_refused)

text \<open>
  C19: After the first request with an idempotency key: an upstream response below 500 makes a retry
  a duplicate and one of 500 or more frees the key, but when the upstream cannot be reached at all
  the error is raised with the key still taken, so the client's retry is refused.
\<close>

lemma failure_and_retry:
  assumes "redis_kv R view" and "first_request view tid req key g" and "rate_ok R cfg now tid g"
    and "\<And>u. send u (gw_up g) = (outcome, up)"
  shows "\<exists>res g'. proxy R cfg send stream now tid req g = (res, g') \<and>
    (case outcome of
       Inl e \<Rightarrow> res = Inl e \<and> is_duplicate R tid req g'
     | Inr resp \<Rightarrow> (\<exists>b. res = Inr (Buffered b) \<and> rs_status b = rs_status resp) \<and>
         is_duplicate R tid req g' = (rs_status resp < 500))"
proof -
  let ?k = "idem_key (scoped_key tid key)"
  obtain r r' where r': "view r' = (view (gw_idem g))(?k \<mapsto> (''1'', Some (1000 * IDEMPOTENCY_TTL)))"
    and proxy: "proxy R cfg send stream now tid req g =
      andthen (proxy_buffered send req (downstream_url cfg (''/v1/'' @ rq_path req))
        (build_forward_headers (rq_headers req) tid (gs_internal_token cfg))) (\<lambda>response.
          seq (if rs_status response \<ge> 500
               then modify (\<lambda>g. g\<lparr>gw_idem := idem_delete R (scoped_key tid key) (gw_idem g)\<rparr>) else ret ())
            (ret (Buffered response)))
        (g\<lparr>gw_rate := r, gw_idem := r'\<rparr>)"
    using proxy_first_request [OF assms(1-3)] by blast
  have dup: "is_duplicate R tid req g' = (view (gw_idem g') ?k \<noteq> None)" for g' :: "('a, 'b) gateway"
    using assms(2) by (simp add: is_duplicate_def first_request_def redis_kv.get_view [OF assms(1)])
  show ?thesis
    by (cases outcome) (auto simp: proxy andthen_def seq_def proxy_buffered_def assms(4) dup r'
        idem_delete_def redis_kv.del_view [OF assms(1)])
qed

lemma failure_and_retry_witness:
  "\<exists>g'. proxy mem_redis sample_gw (\<lambda>_ u. (Inl (RequestError ''down''), u)) (\<lambda>_ _. Inl (RequestError ''down'')) 0 7
      sample_post sample_gateway = (Inl (RequestError ''down''), g') \<and> is_duplicate mem_redis 7 sample_post g'"
  using failure_and_retry [OF mem.redis_kv_axioms sample_first sample_rate_ok,
      of "\<lambda>_ u. (Inl (RequestError ''down''), u)" "Inl (RequestError ''down'')" "()" "\<lambda>_ _. Inl (RequestError ''down'')"]
  by (auto simp: sample_gateway_def)

end
