(* ===== verification/Ip_Address.thy ===== *)
theory Ip_Address
  imports Py_Text
begin

text \<open>
  What the webhook URL check uses of Python's \<open>ipaddress\<close> and \<open>str\<close> (CPython 3.12): splitting
  of strings, \<open>ip_address\<close> on the text of an IPv4 or IPv6 address, and membership of an address
  in a network. Addresses are words of 32 and 128 bits.
\<close>

unbundle bit_operations_syntax

section \<open>Splitting strings\<close>

text \<open>\<open>s.split(c)\<close>\<close>

fun split_on :: "char \<Rightarrow> string \<Rightarrow> string list" where
  "split_on c [] = [[]]"
| "split_on c (x # xs) =
     (if x = c then [] # split_on c xs
      else (case split_on c xs of [] \<Rightarrow> [[x]] | p # ps \<Rightarrow> (x # p) # ps))"

text \<open>\<open>s.partition(c)\<close> as the part before, whether \<open>c\<close> was found, and the part after.\<close>

definition partition_on :: "char \<Rightarrow> string \<Rightarrow> string \<times> bool \<times> string" where
  "partition_on c s = (takeWhile (\<lambda>x. x \<noteq> c) s, c \<in> set s, drop 1 (dropWhile (\<lambda>x. x \<noteq> c) s))"

text \<open>\<open>s.rpartition(c)[2]\<close>\<close>

definition after_last :: "char \<Rightarrow> string \<Rightarrow> string" where
  "after_last c s = rev (takeWhile (\<lambda>x. x \<noteq> c) (rev s))"

lemma split_on_absent: "c \<notin> set s \<Longrightarrow> split_on c s = [s]"
  by (induction s) auto

lemma split_on_append: "c \<notin> set s \<Longrightarrow> split_on c (s @ c # t) = s # split_on c t"
  by (induction s) auto

section \<open>Addresses\<close>

datatype ip = V4 "32 word" | V6 "128 word"

fun dec_digits :: "nat \<Rightarrow> string \<Rightarrow> nat option" where
  "dec_digits a [] = Some a"
| "dec_digits a (c # cs) =
     (if 48 \<le> (of_char c :: nat) \<and> (of_char c :: nat) \<le> 57
      then dec_digits (10 * a + ((of_char c :: nat) - 48)) cs else None)"

definition parse_octet :: "string \<Rightarrow> nat option" where
  "parse_octet s =
     (if s = [] then None
      else (case dec_digits 0 s of
        None \<Rightarrow> None
      | Some n \<Rightarrow>
          if 3 < length s then None
          else if s \<noteq> ''0'' \<and> hd s = CHR ''0'' then None
          else if 255 < n then None
          else Some n))"

definition ipv4_int :: "nat \<Rightarrow> nat \<Rightarrow> nat \<Rightarrow> nat \<Rightarrow> nat" where
  "ipv4_int a b c d = ((a * 256 + b) * 256 + c) * 256 + d"

definition parse_ipv4 :: "string \<Rightarrow> nat option" where
  "parse_ipv4 s =
     (if CHR ''/'' \<in> set s \<or> s = [] then None
      else (case map parse_octet (split_on (CHR ''.'') s) of
              [Some a, Some b, Some c, Some d] \<Rightarrow> Some (ipv4_int a b c d)
            | _ \<Rightarrow> None))"

definition parse_hextet :: "string \<Rightarrow> nat option" where
  "parse_hextet s =
     (if s = [] \<or> 4 < length s \<or> (\<exists>c \<in> set s. hex_char c = None) then None else hex_body 0 s)"

text \<open>The hextets of \<open>parts\<close> shifted into \<open>acc\<close> one after the other.\<close>

fun hextets :: "nat \<Rightarrow> string list \<Rightarrow> nat option" where
  "hextets acc [] = Some acc"
| "hextets acc (p # ps) = (case parse_hextet p of None \<Rightarrow> None | Some h \<Rightarrow> hextets (acc * 2 ^ 16 + h) ps)"

text \<open>The last part of an IPv6 text may be an IPv4 text, which stands for two hextets.\<close>

definition ipv6_parts :: "string \<Rightarrow> string list option" where
  "ipv6_parts s =
     (let parts = split_on (CHR '':'') s in
      if length parts < 3 then None
      else if CHR ''.'' \<in> set (last parts)
      then (case parse_ipv4 (last parts) of
              None \<Rightarrow> None
            | Some n \<Rightarrow> Some (butlast parts @ [hex_digits 4 (n div 2 ^ 16), hex_digits 4 (n mod 2 ^ 16)]))
      else Some parts)"

text \<open>The indices strictly inside the list at which a part is empty.\<close>

definition empty_inside :: "string list \<Rightarrow> nat list" where
  "empty_inside parts = filter (\<lambda>i. parts ! i = []) [1..<length parts - 1]"

definition ipv6_of_parts :: "string list \<Rightarrow> nat option" where
  "ipv6_of_parts parts =
     (if 9 < length parts then None
      else (case empty_inside parts of
        [] \<Rightarrow>
          if length parts \<noteq> 8 \<or> hd parts = [] \<or> last parts = [] then None
          else hextets 0 parts
      | [skip] \<Rightarrow>
          (let hi0 = skip; lo0 = length parts - skip - 1;
               hi = (if hd parts = [] then hi0 - 1 else hi0);
               lo = (if last parts = [] then lo0 - 1 else lo0)
           in if hd parts = [] \<and> hi \<noteq> 0 then None
              else if last parts = [] \<and> lo \<noteq> 0 then None
              else if 8 \<le> hi + lo then None
              else (case hextets 0 (take hi parts) of
                      None \<Rightarrow> None
                    | Some n \<Rightarrow> hextets (n * 2 ^ (16 * (8 - (hi + lo)))) (drop (length parts - lo) parts)))
      | _ \<Rightarrow> None))"

definition parse_ipv6 :: "string \<Rightarrow> nat option" where
  "parse_ipv6 s =
     (if CHR ''/'' \<in> set s then None
      else (case partition_on (CHR ''%'') s of
              (addr, sep, scope_id) \<Rightarrow>
                if sep \<and> (scope_id = [] \<or> CHR ''%'' \<in> set scope_id) then None
                else if addr = [] then None
                else (case ipv6_parts addr of None \<Rightarrow> None | Some parts \<Rightarrow> ipv6_of_parts parts)))"

text \<open>\<open>ipaddress.ip_address(s)\<close>; None stands for the \<open>ValueError\<close>.\<close>

definition ip_address :: "string \<Rightarrow> ip option" where
  "ip_address s =
     (case parse_ipv4 s of
        Some n \<Rightarrow> Some (V4 (of_nat n))
      | None \<Rightarrow> (case parse_ipv6 s of Some n \<Rightarrow> Some (V6 (of_nat n)) | None \<Rightarrow> None))"

text \<open>\<open>str(IPv4Address(a))\<close>\<close>

definition ipv4_str :: "32 word \<Rightarrow> string" where
  "ipv4_str a = (let n = unat a in
     str_nat (n div 2 ^ 24) @ ''.'' @ str_nat (n div 2 ^ 16 mod 256) @ ''.'' @
     str_nat (n div 2 ^ 8 mod 256) @ ''.'' @ str_nat (n mod 256))"

section \<open>Networks\<close>

text \<open>A network is its address and its prefix length.\<close>

datatype ip_network = Net4 "32 word" nat | Net6 "128 word" nat

text \<open>\<open>addr in network\<close>\<close>

fun ip_in :: "ip \<Rightarrow> ip_network \<Rightarrow> bool" where
  "ip_in (V4 a) (Net4 n p) = (a AND NOT (mask (32 - p)) = n)"
| "ip_in (V6 a) (Net6 n p) = (a AND NOT (mask (128 - p)) = n)"
| "ip_in _ _ = False"

text \<open>A network is the interval of the addresses that share its prefix.\<close>

lemma in_prefix_iff:
  fixes a n :: "'a :: len word"
  assumes "uint n mod 2 ^ k = 0"
  shows "a AND NOT (mask k) = n \<longleftrightarrow> uint n \<le> uint a \<and> uint a < uint n + 2 ^ k"
proof -
  have "uint (a AND NOT (mask k)) = push_bit k (drop_bit k (uint a))"
    by (rule bit_eqI) (auto simp: bit_simps dest: bit_imp_le_length)
  then have masked: "uint (a AND NOT (mask k)) = 2 ^ k * (uint a div 2 ^ k)"
    by (simp add: push_bit_eq_mult drop_bit_eq_div mult.commute)
  from assms obtain q where q: "uint n = 2 ^ k * q" by blast
  have "a AND NOT (mask k) = n \<longleftrightarrow> uint (a AND NOT (mask k)) = uint n" by (rule word_uint_eq_iff)
  also have "\<dots> \<longleftrightarrow> uint a div 2 ^ k = q" by (simp add: masked q)
  also have "\<dots> \<longleftrightarrow> q * 2 ^ k \<le> uint a \<and> uint a < (q + 1) * 2 ^ k"
  proof
    assume "uint a div 2 ^ k = q"
    then have "uint a = q * 2 ^ k + uint a mod 2 ^ k" by (metis div_mult_mod_eq)
    moreover have "0 \<le> uint a mod 2 ^ k" "uint a mod 2 ^ k < 2 ^ k" by simp_all
    ultimately have "q * 2 ^ k \<le> uint a" and "uint a < q * 2 ^ k + 2 ^ k" by linarith+
    then show "q * 2 ^ k \<le> uint a \<and> uint a < (q + 1) * 2 ^ k" by (simp add: algebra_simps)
  next
    assume bounds: "q * 2 ^ k \<le> uint a \<and> uint a < (q + 1) * 2 ^ k"
    then have "uint a = 2 ^ k * q + (uint a - q * 2 ^ k)" and "0 \<le> uint a - q * 2 ^ k"
      and "uint a - q * 2 ^ k < 2 ^ k" by (simp_all add: algebra_simps)
    then show "uint a div 2 ^ k = q" by (rule int_div_pos_eq)
  qed
  finally show ?thesis by (simp add: q algebra_simps)
qed

section \<open>Reading IPv4 addresses\<close>

lemma dec_char_code [simp]: "d < 10 \<Longrightarrow> (of_char (digit_char d) :: nat) = 48 + d"
  by (simp add: digit_char_def)

lemma dec_digits_char [simp]: "d < 10 \<Longrightarrow> dec_digits a (digit_char d # cs) = dec_digits (10 * a + d) cs"
  by simp

lemma parse_octet_str:
  assumes "n < 256"
  shows "parse_octet (str_nat n) = Some n"
proof -
  have zero: "digit_char d \<noteq> CHR ''0''" if "d \<noteq> 0" "d < 10" for d
  proof
    assume "digit_char d = CHR ''0''"
    then have "(of_char (digit_char d) :: nat) = of_char (CHR ''0'')" by (simp only:)
    with that show False by simp
  qed
  consider "n < 10" | "10 \<le> n" "n < 100" | "100 \<le> n" by linarith
  then show ?thesis
  proof cases
    case 1
    then have "str_nat n = [digit_char n]" by (simp add: str_nat.simps)
    with 1 zero [of n] show ?thesis by (auto simp: parse_octet_def digit_char_def)
  next
    case 2
    then have "str_nat n = [digit_char (n div 10), digit_char (n mod 10)]" by (simp add: str_nat.simps)
    moreover have "n div 10 < 10" "n mod 10 < 10" "n div 10 \<noteq> 0" using 2 by auto
    moreover have "10 * (n div 10) + n mod 10 = n" by simp
    ultimately show ?thesis using zero [of "n div 10"] assms
      by (simp add: parse_octet_def del: dec_digits.simps(2))
  next
    case 3
    with assms have bounds: "\<not> n < 10" "\<not> n div 10 < 10" "n div 10 div 10 < 10" "n div 10 div 10 \<noteq> 0"
      by linarith+
    then have "str_nat n = [digit_char (n div 10 div 10), digit_char (n div 10 mod 10), digit_char (n mod 10)]"
      by (simp add: str_nat.simps)
    moreover note bounds(3,4)
    moreover have "n div 10 mod 10 < 10" "n mod 10 < 10" by simp_all
    moreover have "10 * (10 * (n div 10 div 10) + n div 10 mod 10) + n mod 10 = n" by simp
    ultimately show ?thesis using zero [of "n div 10 div 10"] assms
      by (simp add: parse_octet_def del: dec_digits.simps(2))
  qed
qed

lemma ip_address_ipv4_str: "ip_address (ipv4_str a) = Some (V4 a)"
proof -
  let ?n = "unat a"
  have bound: "?n < 2 ^ 32" using unsigned_less [of a] by simp
  have dot: "CHR ''.'' \<notin> set (str_nat k)" and slash: "CHR ''/'' \<notin> set (str_nat k)" for k
    by (simp_all add: str_nat_absent)
  have "split_on (CHR ''.'') (ipv4_str a) =
      [str_nat (?n div 2 ^ 24), str_nat (?n div 2 ^ 16 mod 256), str_nat (?n div 2 ^ 8 mod 256), str_nat (?n mod 256)]"
    by (simp add: ipv4_str_def Let_def split_on_append split_on_absent dot)
  moreover have "?n div 2 ^ 24 < 256" using bound by simp
  ultimately have "map parse_octet (split_on (CHR ''.'') (ipv4_str a)) =
      [Some (?n div 2 ^ 24), Some (?n div 2 ^ 16 mod 256), Some (?n div 2 ^ 8 mod 256), Some (?n mod 256)]"
    by (simp add: parse_octet_str)
  moreover have "CHR ''/'' \<notin> set (ipv4_str a)" "ipv4_str a \<noteq> []"
    using slash by (auto simp: ipv4_str_def Let_def)
  moreover have "ipv4_int (?n div 2 ^ 24) (?n div 2 ^ 16 mod 256) (?n div 2 ^ 8 mod 256) (?n mod 256) = ?n"
  proof -
    have "?n div 2 ^ 16 = ?n div 2 ^ 8 div 256" "?n div 2 ^ 24 = ?n div 2 ^ 16 div 256"
      by (simp_all add: div_mult2_eq [symmetric])
    then show ?thesis by (simp only: ipv4_int_def div_mult_mod_eq) (simp add: div_mult_mod_eq)
  qed
  ultimately have "parse_ipv4 (ipv4_str a) = Some ?n" by (simp add: parse_ipv4_def)
  then show ?thesis by (simp add: ip_address_def)
qed

end
