(* ===== verification/Webhook_Url.thy ===== *)
theory Webhook_Url
  imports Ip_Address
begin

text \<open>
  \<open>webhooks/url_validator.py\<close> of the workflow service. \<open>urlparse\<close> is that of CPython 3.12, as
  far as the scheme and the host name depend on it; the name resolver \<open>getaddrinfo\<close> is the
  argument \<open>resolve\<close>, which gives the address texts of a host name, or None when it raises.
\<close>

section \<open>urlparse\<close>

definition is_alpha :: "char \<Rightarrow> bool" where
  "is_alpha c \<longleftrightarrow> (let n = (of_char c :: nat) in (65 \<le> n \<and> n \<le> 90) \<or> (97 \<le> n \<and> n \<le> 122))"

definition scheme_char :: "char \<Rightarrow> bool" where
  "scheme_char c \<longleftrightarrow> is_alpha c \<or> (let n = (of_char c :: nat) in 48 \<le> n \<and> n \<le> 57) \<or> c \<in> set ''+-.''"

text \<open>Leading control characters and spaces are dropped, tabs and line ends removed everywhere.\<close>

definition clean_url :: "string \<Rightarrow> string" where
  "clean_url s = filter (\<lambda>c. c \<notin> {CHR 0x09, CHR 0x0A, CHR 0x0D})
     (dropWhile (\<lambda>c. (of_char c :: nat) \<le> 32) s)"

definition split_scheme :: "string \<Rightarrow> string \<times> string" where
  "split_scheme url =
     (case partition_on (CHR '':'') url of
        (s, found, rest) \<Rightarrow>
          if found \<and> s \<noteq> [] \<and> is_alpha (hd url) \<and> list_all scheme_char s then (lower s, rest)
          else ([], url))"

definition split_netloc :: "string \<Rightarrow> string" where
  "split_netloc url =
     (if take 2 url = ''//'' then takeWhile (\<lambda>c. c \<notin> set ''/?#'') (drop 2 url) else [])"

text \<open>\<open>_check_bracketed_host\<close>: an \<open>IPvFuture\<close> or IPv6 text.\<close>

definition ip_future :: "string \<Rightarrow> bool" where
  "ip_future h \<longleftrightarrow>
     (let body = drop 1 h; digits = takeWhile (\<lambda>c. hex_char c \<noteq> None) body; rest = drop (length digits) body
      in take 1 h = ''v'' \<and> digits \<noteq> [] \<and> take 1 rest = ''.'' \<and> drop 1 rest \<noteq> [])"

definition bracketed_host_ok :: "string \<Rightarrow> bool" where
  "bracketed_host_ok h =
     (if take 1 h = ''v'' then ip_future h
      else (case ip_address h of Some (V6 _) \<Rightarrow> True | _ \<Rightarrow> False))"

text \<open>\<open>urlparse(url)\<close> as scheme and network location; None stands for a \<open>ValueError\<close>.\<close>

definition urlparse :: "string \<Rightarrow> (string \<times> string) option" where
  "urlparse s =
     (case split_scheme (clean_url s) of
        (scheme, url) \<Rightarrow>
          let netloc = split_netloc url
          in if (CHR ''['' \<in> set netloc) \<noteq> (CHR '']'' \<in> set netloc) then None
             else if CHR ''['' \<in> set netloc \<and>
               \<not> bracketed_host_ok (fst (partition_on (CHR '']'') (snd (snd (partition_on (CHR ''['') netloc))))) then None
             else Some (scheme, netloc))"

text \<open>\<open>parsed.hostname\<close>: user information, port and case are dropped, the zone keeps its case.\<close>

definition hostname :: "string \<Rightarrow> string option" where
  "hostname netloc =
     (let hostinfo = after_last (CHR ''@'') netloc;
          (_, bracket, inner) = partition_on (CHR ''['') hostinfo;
          h = (if bracket then fst (partition_on (CHR '']'') inner) else fst (partition_on (CHR '':'') hostinfo))
      in if h = [] then None
         else (case partition_on (CHR ''%'') h of
                 (addr, zone_sep, zone) \<Rightarrow> Some (lower addr @ (if zone_sep then ''%'' else []) @ zone)))"

section \<open>The check\<close>

definition BLOCKED_NETWORKS :: "ip_network list" where
  "BLOCKED_NETWORKS =
     [Net4 0x0A000000 8, Net4 0xAC100000 12, Net4 0xC0A80000 16, Net4 0x7F000000 8, Net4 0xA9FE0000 16,
      Net4 0x00000000 32, Net6 0x1 128, Net6 0xFC000000000000000000000000000000 7,
      Net6 0xFE800000000000000000000000000000 10, Net6 0xFFFF00000000 96]"

definition blocked :: "ip \<Rightarrow> bool" where
  "blocked a \<longleftrightarrow> list_ex (ip_in a) BLOCKED_NETWORKS"

fun check_addresses :: "string list \<Rightarrow> exn + unit" where
  "check_addresses [] = Inr ()"
| "check_addresses (ip_str # rest) =
     (case ip_address ip_str of
        None \<Rightarrow> check_addresses rest
      | Some a \<Rightarrow>
          if blocked a
          then Inl (WebhookURLError (''Webhook URL resolves to a private/internal IP address ('' @ ip_str @
                 '') and cannot be used as a webhook endpoint''))
          else check_addresses rest)"

definition validate_webhook_url :: "(string \<Rightarrow> string list option) \<Rightarrow> string \<Rightarrow> exn + unit" where
  "validate_webhook_url resolve url =
     (case urlparse url of
        None \<Rightarrow> Inl (WebhookURLError (''Invalid URL: '' @ py_repr url))
      | Some (scheme, netloc) \<Rightarrow>
          if scheme \<notin> {''https'', ''http''}
          then Inl (WebhookURLError (''Webhook URL must use https:// scheme, got: '' @ py_repr scheme))
          else (case hostname netloc of
                  None \<Rightarrow> Inl (WebhookURLError ''Webhook URL must include a hostname'')
                | Some h \<Rightarrow>
                    if h = [] then Inl (WebhookURLError ''Webhook URL must include a hostname'')
                    else (case resolve h of
                       None \<Rightarrow> Inl (WebhookURLError (''Webhook hostname could not be resolved: '' @ py_repr h))
                     | Some answers \<Rightarrow> check_addresses answers)))"

section \<open>What is refused\<close>

text \<open>The forbidden destinations as intervals of addresses.\<close>

definition private4 :: "int \<Rightarrow> bool" where
  "private4 n \<longleftrightarrow> n = 0 \<or> (0x0A000000 \<le> n \<and> n \<le> 0x0AFFFFFF) \<or> (0x7F000000 \<le> n \<and> n \<le> 0x7FFFFFFF) \<or>
     (0xA9FE0000 \<le> n \<and> n \<le> 0xA9FEFFFF) \<or> (0xAC100000 \<le> n \<and> n \<le> 0xAC1FFFFF) \<or>
     (0xC0A80000 \<le> n \<and> n \<le> 0xC0A8FFFF)"

definition private6 :: "int \<Rightarrow> bool" where
  "private6 n \<longleftrightarrow> n = 1 \<or> (0xFFFF00000000 \<le> n \<and> n \<le> 0xFFFFFFFFFFFF) \<or>
     (0xFC000000000000000000000000000000 \<le> n \<and> n \<le> 0xFDFFFFFFFFFFFFFFFFFFFFFFFFFFFFFF) \<or>
     (0xFE800000000000000000000000000000 \<le> n \<and> n \<le> 0xFEBFFFFFFFFFFFFFFFFFFFFFFFFFFFFF)"

fun private_ip :: "ip \<Rightarrow> bool" where
  "private_ip (V4 a) = private4 (uint a)"
| "private_ip (V6 a) = private6 (uint a)"

lemma blocked_iff: "blocked a = private_ip a"
proof (cases a)
  case (V4 w)
  have "0 \<le> uint w" by simp
  then show ?thesis
    by (auto simp: V4 blocked_def BLOCKED_NETWORKS_def in_prefix_iff private4_def uint_0_iff)
next
  case (V6 w)
  moreover have one: "w = 1 \<longleftrightarrow> uint w = 1" by (simp add: word_uint_eq_iff)
  ultimately show ?thesis
    by (auto simp: blocked_def BLOCKED_NETWORKS_def in_prefix_iff private6_def one)
qed

lemma check_addresses_ok:
  "check_addresses answers = Inr () \<longleftrightarrow> (\<forall>s \<in> set answers. \<forall>a. ip_address s = Some a \<longrightarrow> \<not> private_ip a)"
  by (induction answers) (auto simp: blocked_iff split: option.splits)

lemma partition_absent: "c \<notin> set s \<Longrightarrow> partition_on c s = (s, False, [])"
  by (induction s) (auto simp: partition_on_def)

lemma hostname_nonempty:
  assumes "hostname netloc = Some h"
  shows "h \<noteq> []"
proof -
  have "(case partition_on (CHR ''%'') x of
      (addr, zone_sep, zone) \<Rightarrow> lower addr @ (if zone_sep then ''%'' else []) @ zone) \<noteq> []" if "x \<noteq> []" for x
    using that by (cases "CHR ''%'' \<in> set x") (auto simp: partition_absent, auto simp: partition_on_def lower_def)
  with assms show ?thesis by (fastforce simp: hostname_def Let_def split: prod.splits if_splits)
qed

lemma validate_ok:
  "validate_webhook_url resolve url = Inr () \<longleftrightarrow>
     (\<exists>scheme netloc h answers. urlparse url = Some (scheme, netloc) \<and> scheme \<in> {''https'', ''http''} \<and>
        hostname netloc = Some h \<and> resolve h = Some answers \<and>
        (\<forall>s \<in> set answers. \<forall>a. ip_address s = Some a \<longrightarrow> \<not> private_ip a))"
  by (auto simp: validate_webhook_url_def check_addresses_ok dest: hostname_nonempty split: option.splits)

text \<open>
  C25: A webhook URL is accepted exactly when it is a http or https URL whose host name resolves and no
  address it resolves to lies in one of the forbidden intervals; in particular an answer that is the
  dotted text of a loopback, private or link-local IPv4 address is always refused.
\<close>

lemma accepted_url_is_public:
  "(validate_webhook_url resolve url = Inr () \<longleftrightarrow>
     (\<exists>scheme netloc h answers. urlparse url = Some (scheme, netloc) \<and> (scheme = ''https'' \<or> scheme = ''http'') \<and>
        hostname netloc = Some h \<and> resolve h = Some answers \<and>
        (\<forall>s \<in> set answers. \<forall>a. ip_address s = Some a \<longrightarrow> \<not> private_ip a))) \<and>
   (\<forall>scheme netloc h answers a. urlparse url = Some (scheme, netloc) \<and> hostname netloc = Some h \<and>
      resolve h = Some answers \<and> ipv4_str a \<in> set answers \<and> private4 (uint a) \<longrightarrow>
      validate_webhook_url resolve url \<noteq> Inr ())"
  by (auto simp: validate_ok) (use ip_address_ipv4_str in \<open>fastforce+\<close>)

lemma accepted_url_is_public_witness:
  "validate_webhook_url (\<lambda>_. Some [ipv4_str 0x7F000001]) ''https://me@hook.example:8080/x'' \<noteq> Inr () \<and>
   validate_webhook_url (\<lambda>_. Some [''93.184.216.34'']) ''https://me@hook.example:8080/x'' = Inr ()"
proof -
  have url: "urlparse ''https://me@hook.example:8080/x'' = Some (''https'', ''me@hook.example:8080'')"
    and host: "hostname ''me@hook.example:8080'' = Some ''hook.example''"
    and ip: "ip_address ''93.184.216.34'' = Some (V4 1572395042)" by (simp_all add: ip_address_def parse_ipv4_def parse_octet_def ipv4_int_def parse_ipv6_def ipv6_parts_def ipv6_of_parts_def empty_inside_def upt_rec parse_hextet_def
      urlparse_def split_scheme_def clean_url_def partition_on_def is_alpha_def scheme_char_def lower_def lower_char_def split_netloc_def hostname_def after_last_def bracketed_host_ok_def Let_def)
  have "private4 (uint (0x7F000001 :: 32 word))" "\<not> private4 1572395042" by (simp_all add: private4_def)
  with url host ip show ?thesis
    using accepted_url_is_public [of "\<lambda>_. Some [ipv4_str 0x7F000001]" "''https://me@hook.example:8080/x''"]
      accepted_url_is_public [of "\<lambda>_. Some [''93.184.216.34'']" "''https://me@hook.example:8080/x''"]
    by auto
qed

text \<open>
  The IPv6 unspecified address, which reaches the local host as 0.0.0.0 does, is in no
  blocked network.
\<close>

lemma unspecified_ipv6_is_accepted: "validate_webhook_url (\<lambda>_. Some [''::'']) ''http://[::]:8000/'' = Inr ()"
proof -
  have "urlparse ''http://[::]:8000/'' = Some (''http'', ''[::]:8000'')" "hostname ''[::]:8000'' = Some ''::''"
    "ip_address ''::'' = Some (V6 0)" by (simp_all add: ip_address_def parse_ipv4_def parse_octet_def ipv4_int_def parse_ipv6_def ipv6_parts_def ipv6_of_parts_def empty_inside_def upt_rec parse_hextet_def
      urlparse_def split_scheme_def clean_url_def partition_on_def is_alpha_def scheme_char_def lower_def lower_char_def split_netloc_def hostname_def after_last_def bracketed_host_ok_def Let_def)
  then show ?thesis by (simp add: validate_ok private6_def)
qed

end
