(* ===== verification/Webhooks.thy ===== *)
theory Webhooks
  imports Webhook_Url Workflow_Db
begin

text \<open>
  The webhooks of the workflow service: \<open>webhooks/crypto.py\<close>, \<open>webhooks/dispatcher.py\<close>,
  \<open>webhooks/tasks.py\<close> and \<open>routes/webhooks.py\<close>. AES-GCM, HMAC-SHA256, \<open>json.dumps\<close>, the random
  source, the clock and the HTTP client are the fields of \<open>hook_env\<close>. Strings stand for their
  UTF-8 bytes, so \<open>encode\<close> and \<open>decode\<close> do nothing.
\<close>

section \<open>Rows and environment\<close>

record sub_row =
  su_id :: uuid
  su_tenant_id :: uuid
  su_url :: string
  su_secret_encrypted :: string
  su_events :: "string list"
  su_active :: bool

record deliv_row =
  dl_id :: uuid
  dl_subscription_id :: uuid
  dl_tenant_id :: uuid
  dl_execution_id :: uuid
  dl_event_type :: string
  dl_payload :: variables
  dl_status :: string
  dl_attempt_count :: nat
  dl_last_attempt_at :: "nat option"
  dl_next_retry_at :: "nat option"
  dl_response_code :: "nat option"
  dl_response_body :: "string option"

record webhook_post =
  wp_url :: string
  wp_content :: string
  wp_headers :: "(string \<times> string) list"
  wp_timeout :: nat

text \<open>\<open>hs_posts\<close> are the requests sent so far, which no rollback takes back.\<close>

record hook_service =
  hs_subs :: "sub_row list"
  hs_delivs :: "deliv_row list"
  hs_posts :: "webhook_post list"
  hs_tick :: nat

record hook_env =
  he_encrypt :: "string \<Rightarrow> string \<Rightarrow> string \<Rightarrow> string"
  he_decrypt :: "string \<Rightarrow> string \<Rightarrow> string \<Rightarrow> exn + string"
  he_hmac :: "string \<Rightarrow> string \<Rightarrow> string"
  he_dumps :: "variables \<Rightarrow> string"
  he_isoformat :: "nat \<Rightarrow> string"
  he_now :: "nat \<Rightarrow> nat"
  he_uuid :: "nat \<Rightarrow> uuid"
  he_random :: "nat \<Rightarrow> nat \<Rightarrow> string"
  he_client :: "nat \<Rightarrow> webhook_post \<Rightarrow> exn + (nat \<times> string)"
  he_resolve :: "string \<Rightarrow> string list option"
  he_key :: string

text \<open>One draw from the clock or the random source.\<close>

definition draw :: "(nat \<Rightarrow> 'a) \<Rightarrow> (hook_service, 'a) py" where
  "draw f = (\<lambda>sv. (Inr (f (hs_tick sv)), sv\<lparr>hs_tick := Suc (hs_tick sv)\<rparr>))"

text \<open>The session commits on return and rolls back on an exception.\<close>

definition hook_session :: "(hook_service, 'a) py \<Rightarrow> (hook_service, 'a) py" where
  "hook_session body = (\<lambda>sv.
     case body sv of
       (Inr a, sv') \<Rightarrow> (Inr a, sv')
     | (Inl e, sv') \<Rightarrow> (Inl e, sv'\<lparr>hs_subs := hs_subs sv, hs_delivs := hs_delivs sv\<rparr>))"

section \<open>Secrets\<close>

definition bytes_hex :: "string \<Rightarrow> string" where
  "bytes_hex bs = concat (map (\<lambda>c. hex_digits 2 (of_char c)) bs)"

text \<open>\<open>bytes.fromhex\<close>, which skips white space between bytes.\<close>

fun bytes_fromhex :: "string \<Rightarrow> string option" where
  "bytes_fromhex [] = Some []"
| "bytes_fromhex [c] = (if c \<in> set whitespace then Some [] else None)"
| "bytes_fromhex (c # d # cs) =
     (if c \<in> set whitespace then bytes_fromhex (d # cs)
      else (case (hex_char c, hex_char d, bytes_fromhex cs) of
              (Some h, Some l, Some bs) \<Rightarrow> Some (char_of (16 * h + l) # bs)
            | _ \<Rightarrow> None))"

text \<open>\<open>AESGCM(bytes.fromhex(hex_key))\<close>\<close>

definition aes_key :: "string \<Rightarrow> exn + string" where
  "aes_key hex_key =
     (case bytes_fromhex hex_key of
        None \<Rightarrow> Inl (PyValueError ''non-hexadecimal number found in fromhex() arg'')
      | Some k \<Rightarrow> if length k \<in> {16, 24, 32} then Inr k
                  else Inl (PyValueError ''AESGCM key must be 128, 192, or 256 bits.''))"

definition generate_webhook_secret :: "hook_env \<Rightarrow> (hook_service, string) py" where
  "generate_webhook_secret E = andthen (draw (\<lambda>t. he_random E t 32)) (\<lambda>bs. ret (bytes_hex bs))"

definition encrypt_secret :: "hook_env \<Rightarrow> string \<Rightarrow> string \<Rightarrow> (hook_service, string) py" where
  "encrypt_secret E plaintext hex_key =
     andthen (liftsum (aes_key hex_key)) (\<lambda>key.
     andthen (draw (\<lambda>t. he_random E t 12)) (\<lambda>nonce.
     ret (bytes_hex (nonce @ he_encrypt E key nonce plaintext))))"

definition decrypt_secret :: "hook_env \<Rightarrow> string \<Rightarrow> string \<Rightarrow> exn + string" where
  "decrypt_secret E hex_ciphertext hex_key =
     (case bytes_fromhex hex_key of
        None \<Rightarrow> Inl (PyValueError ''non-hexadecimal number found in fromhex() arg'')
      | Some _ \<Rightarrow>
          (case bytes_fromhex hex_ciphertext of
             None \<Rightarrow> Inl (PyValueError ''non-hexadecimal number found in fromhex() arg'')
           | Some raw \<Rightarrow>
               (case aes_key hex_key of
                  Inl e \<Rightarrow> Inl e
                | Inr key \<Rightarrow> he_decrypt E key (take 12 raw) (drop 12 raw))))"

section \<open>Delivery\<close>

definition sign_payload :: "hook_env \<Rightarrow> string \<Rightarrow> string \<Rightarrow> string" where
  "sign_payload E payload_bytes secret = ''sha256='' @ bytes_hex (he_hmac E secret payload_bytes)"

text \<open>The signed request that is sent for a payload, with its time stamp and delivery id.\<close>

definition signed_post ::
  "hook_env \<Rightarrow> nat \<Rightarrow> uuid \<Rightarrow> string \<Rightarrow> string \<Rightarrow> string \<Rightarrow> variables \<Rightarrow> webhook_post" where
  "signed_post E now did url secret event_type payload =
     (let with_meta = AList.update ''delivery_id'' (JStr (uuid_str did))
            (AList.update ''timestamp'' (JStr (he_isoformat E now)) payload);
          content = he_dumps E with_meta
      in \<lparr>wp_url = url, wp_content = content,
          wp_headers = [(''Content-Type'', ''application/json''),
            (''X-Sutram-Signature'', sign_payload E content secret), (''X-Sutram-Event'', event_type)],
          wp_timeout = 10\<rparr>)"

definition deliver ::
  "hook_env \<Rightarrow> string \<Rightarrow> string \<Rightarrow> string \<Rightarrow> variables \<Rightarrow> (hook_service, nat \<times> string) py" where
  "deliver E url secret event_type payload =
     andthen (draw (he_now E)) (\<lambda>now.
     andthen (draw (he_uuid E)) (\<lambda>did.
     let post = signed_post E now did url secret event_type payload
     in andthen (gets (\<lambda>sv. he_client E (length (hs_posts sv)) post)) (\<lambda>response.
        seq (modify (\<lambda>sv. sv\<lparr>hs_posts := hs_posts sv @ [post]\<rparr>)) (liftsum response))))"

definition RETRY_DELAYS :: "nat list" where
  "RETRY_DELAYS = [1, 5, 30, 300, 1800]"

definition save_delivery :: "deliv_row \<Rightarrow> (hook_service, unit) py" where
  "save_delivery d = modify (\<lambda>sv. sv\<lparr>hs_delivs := update_rows (\<lambda>r. dl_id r = dl_id d) (\<lambda>_. d) (hs_delivs sv)\<rparr>)"

text \<open>The bookkeeping after an attempt; it gives the delay before the next one, if there is one.\<close>

definition after_attempt ::
  "hook_env \<Rightarrow> nat \<Rightarrow> deliv_row \<Rightarrow> nat \<times> string \<Rightarrow> (hook_service, nat option) py" where
  "after_attempt E attempt d response =
     andthen (draw (he_now E)) (\<lambda>now.
     let d1 = d\<lparr>dl_attempt_count := dl_attempt_count d + 1, dl_last_attempt_at := Some now,
                dl_response_code := Some (fst response), dl_response_body := Some (take 1000 (snd response))\<rparr>
     in if 200 \<le> fst response \<and> fst response < 300
        then seq (save_delivery (d1\<lparr>dl_status := ''delivered''\<rparr>)) (ret None)
        else if length RETRY_DELAYS - 1 \<le> attempt
        then seq (save_delivery (d1\<lparr>dl_status := ''dead_lettered''\<rparr>)) (ret None)
        else andthen (draw (he_now E)) (\<lambda>now'.
          seq (save_delivery (d1\<lparr>dl_status := ''pending'', dl_next_retry_at := Some (now' + RETRY_DELAYS ! attempt)\<rparr>))
            (ret (Some (RETRY_DELAYS ! attempt)))))"

definition deliver_attempt ::
  "hook_env \<Rightarrow> bool \<Rightarrow> uuid \<Rightarrow> uuid \<Rightarrow> nat \<Rightarrow> (hook_service, nat option) py" where
  "deliver_attempt E byp did tid attempt = hook_session
     (andthen (gets (\<lambda>sv. select_rows (tenant_ctx byp tid) dl_tenant_id (\<lambda>r. dl_id r = did) (hs_delivs sv))) (\<lambda>drows.
      andthen (liftsum (scalar_one_or_none drows)) (\<lambda>found.
      case found of
        None \<Rightarrow> ret None
      | Some d \<Rightarrow>
          if dl_status d \<in> {''delivered'', ''dead_lettered''} then ret None
          else
            andthen (gets (\<lambda>sv. select_rows (tenant_ctx byp tid) su_tenant_id (\<lambda>r. su_id r = dl_subscription_id d)
              (hs_subs sv))) (\<lambda>srows.
            andthen (liftsum (scalar_one_or_none srows)) (\<lambda>sub.
            case (case sub of None \<Rightarrow> None | Some s \<Rightarrow> if su_active s then Some s else None) of
              None \<Rightarrow> seq (save_delivery (d\<lparr>dl_status := ''failed''\<rparr>)) (ret None)
            | Some s \<Rightarrow>
                andthen (liftsum (decrypt_secret E (su_secret_encrypted s) (he_key E))) (\<lambda>secret.
                andthen (tryexcept (deliver E (su_url s) secret (dl_event_type d) (dl_payload d))
                  (\<lambda>e. case e of RequestError m \<Rightarrow> ret (0, m) | _ \<Rightarrow> throw e)) (\<lambda>response.
                after_attempt E attempt d response)))))))"

text \<open>
  The Celery task with its retries: a retry beyond \<open>max_retries\<close> raises, otherwise the task runs
  again after the countdown. The result lists the countdowns.
\<close>

function deliver_webhook ::
  "hook_env \<Rightarrow> bool \<Rightarrow> uuid \<Rightarrow> uuid \<Rightarrow> nat \<Rightarrow> (hook_service, nat list) py" where
  "deliver_webhook E byp did tid retries =
     andthen (deliver_attempt E byp did tid retries) (\<lambda>delay.
     case delay of
       None \<Rightarrow> ret []
     | Some d \<Rightarrow>
         if retries < length RETRY_DELAYS
         then andthen (deliver_webhook E byp did tid (Suc retries)) (\<lambda>ds. ret (d # ds))
         else throw (LibraryError ''MaxRetriesExceededError''))"
  by pat_completeness auto
termination by (relation "measure (\<lambda>(_, _, _, _, n). length RETRY_DELAYS - n)") auto

declare deliver_webhook.simps [simp del]

section \<open>Routes\<close>

definition create_webhook ::
  "hook_env \<Rightarrow> string \<Rightarrow> string list \<Rightarrow> uuid \<Rightarrow> (hook_service, sub_row \<times> string) py" where
  "create_webhook E url events tid = hook_session
     (seq (liftsum (case validate_webhook_url (he_resolve E) url of
             Inl e \<Rightarrow> Inl (HTTPException 422 (exn_str e)) | Inr u \<Rightarrow> Inr u))
     (andthen (generate_webhook_secret E) (\<lambda>raw_secret.
      andthen (encrypt_secret E raw_secret (he_key E)) (\<lambda>encrypted.
      andthen (draw (he_uuid E)) (\<lambda>sid.
      let sub = \<lparr>su_id = sid, su_tenant_id = tid, su_url = url, su_secret_encrypted = encrypted,
                su_events = events, su_active = True\<rparr>
      in seq (modify (\<lambda>sv. sv\<lparr>hs_subs := hs_subs sv @ [sub]\<rparr>)) (ret (sub, raw_secret)))))))"

definition list_webhooks :: "bool \<Rightarrow> uuid \<Rightarrow> (hook_service, sub_row list) py" where
  "list_webhooks byp tid = hook_session
     (gets (\<lambda>sv. select_rows (tenant_ctx byp tid) su_tenant_id
        (\<lambda>r. su_tenant_id r = tid \<and> su_active r) (hs_subs sv)))"

definition delete_webhook :: "bool \<Rightarrow> uuid \<Rightarrow> uuid \<Rightarrow> (hook_service, unit) py" where
  "delete_webhook byp wid tid = hook_session
     (andthen (gets (\<lambda>sv. select_rows (tenant_ctx byp tid) su_tenant_id
        (\<lambda>r. su_id r = wid \<and> su_tenant_id r = tid) (hs_subs sv))) (\<lambda>rows.
      andthen (liftsum (scalar_one_or_none rows)) (\<lambda>found.
      case found of
        None \<Rightarrow> throw (HTTPException 404 ''Webhook subscription not found'')
      | Some s \<Rightarrow> modify (\<lambda>sv. sv\<lparr>hs_subs :=
          update_rows (\<lambda>r. su_id r = su_id s) (\<lambda>_. s\<lparr>su_active := False\<rparr>) (hs_subs sv)\<rparr>))))"

section \<open>Secrets survive storage\<close>

lemma digit_char_no_space: "d < 16 \<Longrightarrow> digit_char d \<notin> set whitespace"
  using digit_char_not [of d] by (auto simp: whitespace_def)

lemma bytes_fromhex_hex: "bytes_fromhex (bytes_hex bs) = Some bs"
proof (induction bs)
  case Nil
  then show ?case by (simp add: bytes_hex_def)
next
  case (Cons b bs)
  have "hex_digits 2 n = [digit_char (n div 16 mod 16), digit_char (n mod 16)]" for n
    by (simp add: numeral_2_eq_2)
  moreover have "16 * (of_char b div 16 mod 16) + of_char b mod 16 = (of_char b :: nat)"
  proof -
 have "(of_char b :: nat) div 16 < 16" using nat_of_char_less_256 [of b] by linarith
    then show ?thesis by simp
  qed
  ultimately show ?case
    using Cons digit_char_no_space [of "of_char b div 16 mod 16"] by (simp add: bytes_hex_def)
qed

lemma length_bytes_hex [simp]: "length (bytes_hex bs) = 2 * length bs"
  by (induction bs) (simp_all add: bytes_hex_def)

lemma decrypt_encrypted:
  assumes "\<And>k n m. he_decrypt E k n (he_encrypt E k n m) = Inr m" and "aes_key hex_key = Inr key"
    and "length nonce = 12"
  shows "decrypt_secret E (bytes_hex (nonce @ he_encrypt E key nonce m)) hex_key = Inr m"
  using assms by (auto simp: decrypt_secret_def bytes_fromhex_hex aes_key_def split: option.splits)

section \<open>Attempts\<close>

lemma wp_draw [simp]: "wp (draw f) Q X sv = Q (f (hs_tick sv)) (sv\<lparr>hs_tick := Suc (hs_tick sv)\<rparr>)"
  by (simp add: draw_def wp_def)

lemma wp_save_delivery [simp]:
  "wp (save_delivery d) Q X sv =
     Q () (sv\<lparr>hs_delivs := update_rows (\<lambda>r. dl_id r = dl_id d) (\<lambda>_. d) (hs_delivs sv)\<rparr>)"
  by (simp add: save_delivery_def)

lemma wp_hook_session:
  "wp (hook_session body) Q X sv =
     wp body Q (\<lambda>e sv'. X e (sv'\<lparr>hs_subs := hs_subs sv, hs_delivs := hs_delivs sv\<rparr>)) sv"
  by (simp add: wp_def hook_session_def split: prod.split sum.split)

text \<open>
  A delivery that can be attempted: its row and its active subscription belong to the tenant, and
  the subscription's secret decrypts.
\<close>

definition attemptable :: "hook_env \<Rightarrow> uuid \<Rightarrow> uuid \<Rightarrow> sub_row \<Rightarrow> string \<Rightarrow> deliv_row \<Rightarrow> hook_service \<Rightarrow> bool" where
  "attemptable E did tid s secret d sv \<longleftrightarrow>
     distinct (map dl_id (hs_delivs sv)) \<and> distinct (map su_id (hs_subs sv)) \<and>
     d \<in> set (hs_delivs sv) \<and> dl_id d = did \<and> dl_tenant_id d = tid \<and>
     dl_status d \<notin> {''delivered'', ''dead_lettered''} \<and>
     s \<in> set (hs_subs sv) \<and> su_id s = dl_subscription_id d \<and> su_tenant_id s = tid \<and> su_active s \<and>
     decrypt_secret E (su_secret_encrypted s) (he_key E) = Inr secret"

text \<open>What the client's answer counts as: a connection failure has status 0.\<close>

fun response_of :: "exn + (nat \<times> string) \<Rightarrow> (nat \<times> string) option" where
  "response_of (Inr r) = Some r"
| "response_of (Inl (RequestError m)) = Some (0, m)"
| "response_of (Inl e) = None"

definition success :: "nat \<Rightarrow> bool" where
  "success code \<longleftrightarrow> 200 \<le> code \<and> code < 300"

definition signed_for :: "hook_env \<Rightarrow> string \<Rightarrow> sub_row \<Rightarrow> webhook_post \<Rightarrow> bool" where
  "signed_for E secret s p \<longleftrightarrow> wp_url p = su_url s \<and>
     map_of (wp_headers p) ''X-Sutram-Signature'' = Some (''sha256='' @ bytes_hex (he_hmac E secret (wp_content p)))"

text \<open>The state after an attempt with status \<open>code\<close>.\<close>

definition attempted ::
  "hook_env \<Rightarrow> nat \<Rightarrow> nat \<Rightarrow> sub_row \<Rightarrow> string \<Rightarrow> deliv_row \<Rightarrow> hook_service \<Rightarrow> deliv_row \<Rightarrow> hook_service \<Rightarrow> bool" where
  "attempted E attempt code s secret d sv d' sv' \<longleftrightarrow>
     hs_subs sv' = hs_subs sv \<and>
     hs_delivs sv' = update_rows (\<lambda>r. dl_id r = dl_id d) (\<lambda>_. d') (hs_delivs sv) \<and>
     (\<exists>p. hs_posts sv' = hs_posts sv @ [p] \<and> signed_for E secret s p) \<and>
     dl_id d' = dl_id d \<and> dl_tenant_id d' = dl_tenant_id d \<and> dl_subscription_id d' = dl_subscription_id d \<and>
     dl_attempt_count d' = Suc (dl_attempt_count d) \<and> dl_response_code d' = Some code \<and>
     dl_status d' = (if success code then ''delivered'' else if 4 \<le> attempt then ''dead_lettered'' else ''pending'')"

lemma RETRY_DELAYS_length [simp]: "length RETRY_DELAYS = 5"
  by (simp add: RETRY_DELAYS_def)

lemma signed_post_signed: "signed_for E secret s (signed_post E now did (su_url s) secret et payload)"
  by (simp add: signed_for_def signed_post_def sign_payload_def Let_def)

lemma deliver_eq:
  "\<exists>p. signed_for E secret s p \<and> deliver E (su_url s) secret et payload sv =
     (he_client E (length (hs_posts sv)) p,
      sv\<lparr>hs_tick := Suc (Suc (hs_tick sv)), hs_posts := hs_posts sv @ [p]\<rparr>)"
  by (intro exI conjI, rule signed_post_signed) (simp add: deliver_def draw_def Let_def py_defs)

lemma deliver_effect:
  assumes "\<And>p. map_option fst (response_of (he_client E (length (hs_posts sv)) p)) = Some code"
  shows "wp (tryexcept (deliver E (su_url s) secret et payload)
      (\<lambda>e. case e of RequestError m \<Rightarrow> ret (0, m) | _ \<Rightarrow> throw e))
    (\<lambda>r sv'. fst r = code \<and> (\<exists>p. hs_posts sv' = hs_posts sv @ [p] \<and> signed_for E secret s p) \<and>
       hs_subs sv' = hs_subs sv \<and> hs_delivs sv' = hs_delivs sv)
    (\<lambda>_ _. False) sv"
proof -
  obtain p where p: "signed_for E secret s p" and eq: "deliver E (su_url s) secret et payload sv =
     (he_client E (length (hs_posts sv)) p, sv\<lparr>hs_tick := Suc (Suc (hs_tick sv)), hs_posts := hs_posts sv @ [p]\<rparr>)"
    using deliver_eq [of E secret s et payload sv] by blast
  from assms [of p] show ?thesis
    by (cases "he_client E (length (hs_posts sv)) p" rule: response_of.cases)
      (auto simp: wp_def tryexcept_def eq p)
qed

lemma after_attempt_effect:
  assumes "dl_status d \<noteq> ''delivered''" and "attempt < 5"
  shows "wp (after_attempt E attempt d r)
    (\<lambda>delay sv'. \<exists>d'. hs_subs sv' = hs_subs sv \<and> hs_posts sv' = hs_posts sv \<and>
       hs_delivs sv' = update_rows (\<lambda>x. dl_id x = dl_id d) (\<lambda>_. d') (hs_delivs sv) \<and>
       dl_id d' = dl_id d \<and> dl_tenant_id d' = dl_tenant_id d \<and> dl_subscription_id d' = dl_subscription_id d \<and>
       dl_attempt_count d' = Suc (dl_attempt_count d) \<and> dl_response_code d' = Some (fst r) \<and>
       dl_status d' = (if success (fst r) then ''delivered'' else if 4 \<le> attempt then ''dead_lettered'' else ''pending'') \<and>
       delay = (if success (fst r) \<or> 4 \<le> attempt then None else Some (RETRY_DELAYS ! attempt)))
    X sv"
  by (cases "success (fst r)"; cases "4 \<le> attempt")
    (simp add: after_attempt_def Let_def flip: success_def, rule exI, rule conjI, rule refl, simp)+

lemma attempt_effect:
  assumes "attemptable E did tid s secret d sv" and "attempt < 5"
    and "\<And>p. map_option fst (response_of (he_client E (length (hs_posts sv)) p)) = Some code"
  shows "wp (deliver_attempt E byp did tid attempt)
    (\<lambda>delay sv'. (\<exists>d'. attempted E attempt code s secret d sv d' sv') \<and>
       delay = (if success code \<or> 4 \<le> attempt then None else Some (RETRY_DELAYS ! attempt)))
    (\<lambda>_ _. False) sv"
proof -
  note ok = assms(1) [unfolded attemptable_def]
  have rows: "select_rows (tenant_ctx byp tid) dl_tenant_id (\<lambda>r. dl_id r = did) (hs_delivs sv) = [d]"
    using select_rows_id [of dl_id "hs_delivs sv" d "tenant_ctx byp tid" dl_tenant_id] ok by simp
  have subs: "select_rows (tenant_ctx byp tid) su_tenant_id (\<lambda>r. su_id r = dl_subscription_id d) (hs_subs sv) = [s]"
    using select_rows_id [of su_id "hs_subs sv" s "tenant_ctx byp tid" su_tenant_id] ok by simp
  have open_status: "dl_status d \<noteq> ''delivered''" "dl_status d \<noteq> ''dead_lettered''" using ok by auto
  show ?thesis
    unfolding deliver_attempt_def wp_hook_session
    apply (simp add: rows subs open_status ok del: wp_tryexcept split del: if_split)
    apply (rule wp_mono [OF deliver_effect [OF assms(3)]])
     apply (elim conjE exE)
     apply (rule wp_mono [OF after_attempt_effect [OF open_status(1) assms(2)]])
      apply (auto simp: attempted_def)
    done
qed

section \<open>The retry schedule\<close>

lemma update_row_ids: "k d' = k d \<Longrightarrow> map k (update_rows (\<lambda>r. k r = k d) (\<lambda>_. d') rows) = map k rows"
  by (simp add: update_rows_def)

lemma update_row_mem: "d \<in> set rows \<Longrightarrow> d' \<in> set (update_rows (\<lambda>r. k r = k d) (\<lambda>_. d') rows)"
  by (force simp: update_rows_def)

lemma attempted_attemptable:
  assumes "attemptable E did tid s secret d sv" and "attempted E attempt code s secret d sv d' sv'"
    and "dl_status d' = ''pending''"
  shows "attemptable E did tid s secret d' sv'"
  using assms by (auto simp: attemptable_def attempted_def update_row_ids intro: update_row_mem)

text \<open>The row, requests and countdowns when the attempts from \<open>k\<close> on have ended before attempt \<open>m\<close>.\<close>

definition ended_at ::
  "hook_env \<Rightarrow> (nat \<Rightarrow> nat) \<Rightarrow> sub_row \<Rightarrow> string \<Rightarrow> deliv_row \<Rightarrow> hook_service \<Rightarrow> nat \<Rightarrow> nat \<Rightarrow> nat list \<Rightarrow> hook_service \<Rightarrow> bool" where
  "ended_at E c s secret d sv k m ds sv' \<longleftrightarrow>
     k < m \<and> m \<le> 5 \<and> (\<forall>i. k \<le> i \<and> i < m - 1 \<longrightarrow> \<not> success (c i)) \<and> (success (c (m - 1)) \<or> m = 5) \<and>
     ds = take (m - 1 - k) (drop k RETRY_DELAYS) \<and>
     (\<exists>ps. hs_posts sv' = hs_posts sv @ ps \<and> length ps = m - k \<and> (\<forall>p \<in> set ps. signed_for E secret s p)) \<and>
     (\<exists>d' \<in> set (hs_delivs sv'). dl_id d' = dl_id d \<and> dl_attempt_count d' = dl_attempt_count d + (m - k) \<and>
        dl_response_code d' = Some (c (m - 1)) \<and>
        dl_status d' = (if success (c (m - 1)) then ''delivered'' else ''dead_lettered''))"

lemma ended_at_step:
  assumes "attempted E k (c k) s secret d sv d' sv1" and "ended_at E c s secret d' sv1 (Suc k) m ds sv'"
    and "\<not> success (c k)" and "k < 4"
  shows "ended_at E c s secret d sv k m (RETRY_DELAYS ! k # ds) sv'"
proof -
  from assms(2) have m: "Suc k < m" "m \<le> 5" by (auto simp: ended_at_def)
  have "drop k RETRY_DELAYS = RETRY_DELAYS ! k # drop (Suc k) RETRY_DELAYS"
    using assms(4) by (simp add: Cons_nth_drop_Suc)
  moreover have "m - 1 - k = Suc (m - 1 - Suc k)" "m - k = Suc (m - Suc k)" using m by simp_all
  moreover have "k \<le> i \<longleftrightarrow> i = k \<or> Suc k \<le> i" for i by auto
  ultimately show ?thesis
    using assms(1-3) m unfolding ended_at_def attempted_def
    by (auto simp: intro!: bexI)
qed

lemma ended_at_once:
  assumes "attempted E k (c k) s secret d sv d' sv'" and "success (c k) \<or> 4 \<le> k" and "k < 5"
    and "d \<in> set (hs_delivs sv)"
  shows "ended_at E c s secret d sv k (Suc k) [] sv'"
proof -
  from assms(1) have "d' \<in> set (hs_delivs sv')" using assms(4) by (auto simp: attempted_def intro: update_row_mem)
  moreover have "c (Suc k - 1) = c k" "Suc k - k = 1" "success (c k) \<or> Suc k = 5" using assms(2,3) by auto
  ultimately show ?thesis using assms(1-3) unfolding ended_at_def attempted_def by auto
qed

lemma deliver_webhook_effect:
  assumes "attemptable E did tid s secret d sv" and "k < 5"
    and "\<And>i p. k \<le> i \<Longrightarrow>
      map_option fst (response_of (he_client E (length (hs_posts sv) + (i - k)) p)) = Some (c i)"
  shows "wp (deliver_webhook E byp did tid k)
    (\<lambda>ds sv'. \<exists>m. ended_at E c s secret d sv k m ds sv') (\<lambda>_ _. False) sv"
  using assms
proof (induction "5 - k" arbitrary: k d sv)
  case 0
  then show ?case by simp
next
  case (Suc x)
  have "map_option fst (response_of (he_client E (length (hs_posts sv)) p)) = Some (c k)" for p
    using Suc.prems(3) [of k p] by simp
  from attempt_effect [OF Suc.prems(1,2) this, of byp] show ?case
    unfolding deliver_webhook.simps [of E byp did tid k]
  proof (rule wp_bind)
    fix delay sv1
    assume "(\<exists>d'. attempted E k (c k) s secret d sv d' sv1) \<and>
      delay = (if success (c k) \<or> 4 \<le> k then None else Some (RETRY_DELAYS ! k))"
    then obtain d' where d': "attempted E k (c k) s secret d sv d' sv1"
      and delay: "delay = (if success (c k) \<or> 4 \<le> k then None else Some (RETRY_DELAYS ! k))" by blast
    show "wp (case delay of None \<Rightarrow> ret []
        | Some w \<Rightarrow> if k < length RETRY_DELAYS
            then andthen (deliver_webhook E byp did tid (Suc k)) (\<lambda>ds. ret (w # ds))
            else throw (LibraryError ''MaxRetriesExceededError''))
      (\<lambda>ds sv'. \<exists>m. ended_at E c s secret d sv k m ds sv') (\<lambda>_ _. False) sv1"
    proof (cases "success (c k) \<or> 4 \<le> k")
      case True
      with ended_at_once [of E k c, OF d' True Suc.prems(2)] Suc.prems(1) delay show ?thesis
        by (auto simp: attemptable_def)
    next
      case False
      then have "attemptable E did tid s secret d' sv1"
        using attempted_attemptable [OF Suc.prems(1) d'] d' by (simp add: attempted_def)
      moreover have "map_option fst (response_of (he_client E (length (hs_posts sv1) + (i - Suc k)) p)) = Some (c i)"
        if "Suc k \<le> i" for i p
      proof -
        have "length (hs_posts sv1) = Suc (length (hs_posts sv))" using d' by (auto simp: attempted_def)
        then have "length (hs_posts sv1) + (i - Suc k) = length (hs_posts sv) + (i - k)" using that by simp
        with Suc.prems(3) [of i p] that show ?thesis by simp
      qed
      ultimately have "wp (deliver_webhook E byp did tid (Suc k))
          (\<lambda>ds sv'. \<exists>m. ended_at E c s secret d' sv1 (Suc k) m ds sv') (\<lambda>_ _. False) sv1"
        using Suc.hyps(2) False by (intro Suc.hyps(1)) auto
      then show ?thesis
        using delay False Suc.prems(2) ended_at_step [of E k c, OF d']
        by simp (erule wp_mono; simp; blast)
    qed
  qed simp
qed

section \<open>Properties\<close>

text \<open>
  C26: A delivery is attempted until the first answer with a 2xx status, at most five times, with waits
  of 1, 5, 30 and 300 seconds in between (never the 1800 seconds of the table); every request goes to
  the subscription's URL signed with its secret, and the delivery ends delivered or dead-lettered with
  the number of attempts counted.
\<close>

lemma delivery_schedule:
  assumes "attemptable E did tid s secret d sv"
    and "\<And>i p. map_option fst (response_of (he_client E (length (hs_posts sv) + i) p)) = Some (c i)"
  shows "\<exists>m ps d' sv'. deliver_webhook E byp did tid 0 sv = (Inr (take (m - 1) [1, 5, 30, 300]), sv') \<and>
    1 \<le> m \<and> m \<le> 5 \<and> (\<forall>i < m - 1. \<not> success (c i)) \<and> (success (c (m - 1)) \<or> m = 5) \<and>
    hs_posts sv' = hs_posts sv @ ps \<and> length ps = m \<and> list_all (signed_for E secret s) ps \<and>
    d' \<in> set (hs_delivs sv') \<and> dl_id d' = did \<and> dl_attempt_count d' = dl_attempt_count d + m \<and>
    dl_status d' = (if success (c (m - 1)) then ''delivered'' else ''dead_lettered'')"
proof -
  obtain ds sv' m where run: "deliver_webhook E byp did tid 0 sv = (Inr ds, sv')"
    and e: "ended_at E c s secret d sv 0 m ds sv'"
    using deliver_webhook_effect [OF assms(1), of 0 c byp] assms(2) by (auto simp: wp_Inr)
  from e have "ds = take (m - 1) RETRY_DELAYS" "m \<le> 5" by (auto simp: ended_at_def)
  then have "ds = take (m - 1) [1, 5, 30, 300]"
    by (auto simp: RETRY_DELAYS_def take_Cons split: nat.splits)
  with run have "deliver_webhook E byp did tid 0 sv = (Inr (take (m - 1) [1, 5, 30, 300]), sv')" by simp
  moreover have "dl_id d = did" using assms(1) by (simp add: attemptable_def)
  moreover obtain ps where "hs_posts sv' = hs_posts sv @ ps" "length ps = m" "list_all (signed_for E secret s) ps"
    using e by (auto simp: ended_at_def list_all_iff)
  moreover obtain d' where "d' \<in> set (hs_delivs sv')" "dl_id d' = dl_id d"
      "dl_attempt_count d' = dl_attempt_count d + m"
      "dl_status d' = (if success (c (m - 1)) then ''delivered'' else ''dead_lettered'')"
    using e by (auto simp: ended_at_def)
  moreover have "1 \<le> m" "m \<le> 5" "\<forall>i < m - 1. \<not> success (c i)" "success (c (m - 1)) \<or> m = 5"
    using e by (auto simp: ended_at_def)
  ultimately show ?thesis
    by (intro exI [of _ m] exI [of _ ps] exI [of _ d'] exI [of _ sv']) simp
qed

text \<open>An environment with a cipher that prefixes the key, and a client that answers 503 twice, then 200.\<close>

definition sample_hooks :: hook_env where
  "sample_hooks = \<lparr>he_encrypt = (\<lambda>k n m. k @ m), he_decrypt = (\<lambda>k n m. Inr (drop (length k) m)),
     he_hmac = (\<lambda>k m. k), he_dumps = (\<lambda>_. ''{}''), he_isoformat = str_nat, he_now = id, he_uuid = of_nat,
     he_random = (\<lambda>t n. replicate n (CHR ''r'')),
     he_client = (\<lambda>i p. if i < 2 then Inr (503, ''busy'') else Inr (200, ''ok'')),
     he_resolve = (\<lambda>_. Some [''93.184.216.34'']), he_key = replicate 64 (CHR ''0'')\<rparr>"

definition sample_sub :: sub_row where
  "sample_sub = \<lparr>su_id = 3, su_tenant_id = 7, su_url = ''https://hook.example/x'',
     su_secret_encrypted = bytes_hex (replicate 12 (CHR ''n'') @ replicate 32 (CHR 0x00) @ ''secret''),
     su_events = [''execution.completed''], su_active = True\<rparr>"

definition sample_delivery :: deliv_row where
  "sample_delivery = \<lparr>dl_id = 4, dl_subscription_id = 3, dl_tenant_id = 7, dl_execution_id = 1,
     dl_event_type = ''execution.completed'', dl_payload = [], dl_status = ''pending'', dl_attempt_count = 0,
     dl_last_attempt_at = None, dl_next_retry_at = None, dl_response_code = None, dl_response_body = None\<rparr>"

definition sample_hook_service :: hook_service where
  "sample_hook_service = \<lparr>hs_subs = [sample_sub], hs_delivs = [sample_delivery], hs_posts = [], hs_tick = 0\<rparr>"

lemma sample_key: "aes_key (he_key sample_hooks) = Inr (replicate 32 (CHR 0x00))"
proof -
  have zero: "char_of (48 :: nat) = CHR ''0''" using char_of_char [of "CHR ''0''", where 'a = nat] by simp
  have two: "hex_digits 2 x = [digit_char (x div 16 mod 16), digit_char (x mod 16)]" for x
    by (simp add: numeral_2_eq_2)
  have "bytes_hex (replicate n (CHR 0x00)) = replicate (2 * n) (CHR ''0'')" for n
    by (induction n) (simp_all add: bytes_hex_def two digit_char_def zero)
  from this [of 32] have "bytes_fromhex (replicate 64 (CHR ''0'')) = Some (replicate 32 (CHR 0x00))"
    using bytes_fromhex_hex [of "replicate 32 (CHR 0x00)"] by simp
  then show ?thesis by (simp add: aes_key_def sample_hooks_def)
qed

lemma sample_attemptable: "attemptable sample_hooks 4 7 sample_sub ''secret'' sample_delivery sample_hook_service"
proof -
  have "decrypt_secret sample_hooks (su_secret_encrypted sample_sub) (he_key sample_hooks) = Inr ''secret''"
    using sample_key by (auto simp: decrypt_secret_def sample_sub_def bytes_fromhex_hex aes_key_def
        split: option.splits if_splits) (simp add: sample_hooks_def)
  then show ?thesis by (simp add: attemptable_def sample_hook_service_def sample_sub_def sample_delivery_def)
qed

lemma delivery_schedule_witness:
  "\<exists>sv'. deliver_webhook sample_hooks False 4 7 0 sample_hook_service = (Inr [1, 5], sv') \<and>
     length (hs_posts sv') = 3"
proof -
  let ?c = "\<lambda>i. if i < 2 then 503 else 200"
  have posts: "hs_posts sample_hook_service = []" by (simp add: sample_hook_service_def)
  have "map_option fst (response_of (he_client sample_hooks (length (hs_posts sample_hook_service) + i) p)) = Some (?c i)"
    for i p by (simp add: sample_hooks_def posts)
  from delivery_schedule [OF sample_attemptable this, of False] posts
  obtain m sv' where "deliver_webhook sample_hooks False 4 7 0 sample_hook_service =
      (Inr (take (m - 1) [1, 5, 30, 300]), sv')" "1 \<le> m" "\<forall>i < m - 1. \<not> success (if i < 2 then 503 else 200)"
      "success (if m - 1 < 2 then 503 else 200) \<or> m = 5" "length (hs_posts sv') = m"
    by auto
  moreover from this have "m = 3" by (cases "m \<le> 2"; cases "3 < m") (auto simp: success_def split: if_splits dest: spec [of _ 2])
  ultimately show ?thesis by (auto simp: numeral_3_eq_3)
qed

text \<open>
  C27: The secret that a registration shows once is the one that its deliveries are signed with: the row
  it stores is active, belongs to the tenant and decrypts to the shown secret, which has 64 characters.
\<close>

lemma shown_secret_signs:
  assumes "\<And>k n m. he_decrypt E k n (he_encrypt E k n m) = Inr m" and "aes_key (he_key E) = Inr key"
    and "\<And>t n. length (he_random E t n) = n" and "validate_webhook_url (he_resolve E) url = Inr ()"
  shows "\<exists>sub secret sv'. create_webhook E url events tid sv = (Inr (sub, secret), sv') \<and>
    hs_subs sv' = hs_subs sv @ [sub] \<and> su_active sub \<and> su_tenant_id sub = tid \<and> su_url sub = url \<and>
    length secret = 64 \<and> decrypt_secret E (su_secret_encrypted sub) (he_key E) = Inr secret"
  using assms(3) decrypt_encrypted [OF assms(1,2)]
  by (simp add: create_webhook_def hook_session_def generate_webhook_secret_def encrypt_secret_def draw_def
      py_defs assms(2,4) Let_def)

lemma shown_secret_signs_witness:
  "\<exists>sub secret sv'. create_webhook (sample_hooks\<lparr>he_resolve := \<lambda>_. Some []\<rparr>) ''http://a'' [] 7 sample_hook_service =
      (Inr (sub, secret), sv') \<and> su_active sub"
proof -
  let ?E = "sample_hooks\<lparr>he_resolve := \<lambda>_. Some []\<rparr>"
  have "urlparse ''http://a'' = Some (''http'', ''a'')" "hostname ''a'' = Some ''a''"
    by (simp_all add: urlparse_def split_scheme_def clean_url_def partition_on_def is_alpha_def
        scheme_char_def lower_def lower_char_def split_netloc_def hostname_def after_last_def Let_def)
  then have "validate_webhook_url (he_resolve ?E) ''http://a'' = Inr ()" by (simp add: validate_ok)
  moreover have "aes_key (he_key ?E) = Inr (replicate 32 (CHR 0x00))" using sample_key by simp
  ultimately show ?thesis
    using shown_secret_signs [of ?E "replicate 32 (CHR 0x00)" "''http://a''" "[]" 7 sample_hook_service]
    by (auto simp: sample_hooks_def)
qed

end
