(* ===== verification/Webhook_Api.thy ===== *)
theory Webhook_Api
  imports Json_Body Webhooks
begin

text \<open>
  The surface of \<open>routes/webhooks.py\<close>: its request body, its responses and its routes on JSON. The secret
  of a subscription is in the response of its registration and in no other.
\<close>

section \<open>Bodies and responses\<close>

record subscription_create =
  bc_url :: string
  bc_events :: "string list"

definition parse_subscription_create :: "subscription_create reader" where
  "parse_subscription_create body =
     Option.bind (read_dict body) (\<lambda>d.
     Option.bind (field read_str None ''url'' d) (\<lambda>url.
     Option.bind (field (read_list read_str) (Some [''execution.completed'']) ''events'' d) (\<lambda>events.
       Some \<lparr>bc_url = url, bc_events = events\<rparr>)))"

definition subscription_response :: "sub_row \<Rightarrow> json" where
  "subscription_response s = JObj
     [(''id'', JStr (uuid_str (su_id s))), (''tenant_id'', JStr (uuid_str (su_tenant_id s))),
      (''url'', JStr (su_url s)), (''events'', JList (map JStr (su_events s))), (''active'', JBool (su_active s))]"

definition registration_response :: "sub_row \<times> string \<Rightarrow> json" where
  "registration_response r = (case r of (s, secret) \<Rightarrow> JObj
     [(''id'', JStr (uuid_str (su_id s))), (''tenant_id'', JStr (uuid_str (su_tenant_id s))),
      (''url'', JStr (su_url s)), (''events'', JList (map JStr (su_events s))), (''secret'', JStr secret)])"

section \<open>Routes\<close>

definition post_webhook :: "hook_env \<Rightarrow> exn + uuid \<Rightarrow> json \<Rightarrow> (hook_service, json) py" where
  "post_webhook E caller body =
     admitted caller (parse_subscription_create body) (\<lambda>tid b.
       andthen (create_webhook E (bc_url b) (bc_events b) tid) (\<lambda>r. ret (registration_response r)))"

definition get_webhooks :: "bool \<Rightarrow> exn + uuid \<Rightarrow> (hook_service, json) py" where
  "get_webhooks byp caller =
     admitted caller (Some ()) (\<lambda>tid _.
       andthen (list_webhooks byp tid) (\<lambda>subs. ret (JList (map subscription_response subs))))"

section \<open>Secrets\<close>

text \<open>Two services that differ only in the stored secrets answer a listing alike.\<close>

definition hide_secrets :: "hook_service \<Rightarrow> hook_service" where
  "hide_secrets sv = sv\<lparr>hs_subs := map (\<lambda>s. s\<lparr>su_secret_encrypted := []\<rparr>) (hs_subs sv)\<rparr>"

lemma response_hides_secret:
  "subscription_response (s\<lparr>su_secret_encrypted := x\<rparr>) = subscription_response s"
  by (simp add: subscription_response_def)

lemma get_webhooks_rows:
  "get_webhooks byp caller sv =
     (case caller of
        Inl e \<Rightarrow> (Inl e, sv)
      | Inr tid \<Rightarrow> (Inr (JList (map subscription_response
          (filter (\<lambda>r. su_tenant_id r = tid \<and> su_active r) (hs_subs sv)))), sv))"
proof -
  have rows: "select_rows (tenant_ctx byp tid) su_tenant_id (\<lambda>r. su_tenant_id r = tid \<and> su_active r) rs =
      filter (\<lambda>r. su_tenant_id r = tid \<and> su_active r) rs" for tid and rs :: "sub_row list"
    by (auto simp: select_rows_def tenant_isolation_def set_tenant_context_def intro: filter_cong)
  show ?thesis
    by (simp add: get_webhooks_def admitted_apply list_webhooks_def hook_session_def andthen_def rows split: sum.split)
qed

lemma listing_hides_secrets:
  assumes "hide_secrets sv = hide_secrets sv'"
  shows "fst (get_webhooks byp caller sv) = fst (get_webhooks byp caller sv')"
proof -
  let ?h = "\<lambda>s. s\<lparr>su_secret_encrypted := []\<rparr>"
  have hidden: "map subscription_response (filter (\<lambda>r. su_tenant_id r = tid \<and> su_active r) rs) =
      map subscription_response (filter (\<lambda>r. su_tenant_id r = tid \<and> su_active r) (map ?h rs))" for tid rs
    by (simp add: filter_map o_def response_hides_secret)
  have "map ?h (hs_subs sv) = map ?h (hs_subs sv')"
    using arg_cong [OF assms, of hs_subs] by (simp add: hide_secrets_def)
  then show ?thesis
    unfolding get_webhooks_rows using hidden [of _ "hs_subs sv"] hidden [of _ "hs_subs sv'"]
    by (auto split: sum.split)
qed

text \<open>
  What is registered through the API is listed to its tenant as it was answered, without the secret.
\<close>

lemma registered_is_listed:
  assumes "post_webhook E (Inr tid) body sv = (Inr j, sv')"
  shows "\<exists>b sub secret. parse_subscription_create body = Some b \<and> j = registration_response (sub, secret) \<and>
    su_url sub = bc_url b \<and> su_events sub = bc_events b \<and>
    (\<exists>rows. get_webhooks byp (Inr tid) sv' = (Inr (JList (rows @ [subscription_response sub])), sv'))"
proof -
  obtain b sub secret where b: "parse_subscription_create body = Some b" "j = registration_response (sub, secret)"
      and post: "create_webhook E (bc_url b) (bc_events b) tid sv = (Inr (sub, secret), sv')"
    using assms by (auto simp: post_webhook_def admitted_Inr andthen_ret_Inr)
  have "su_url sub = bc_url b \<and> su_events sub = bc_events b \<and> su_tenant_id sub = tid \<and> su_active sub \<and>
      hs_subs sv' = hs_subs sv @ [sub]"
    using post
    by (auto simp: create_webhook_def hook_session_def generate_webhook_secret_def encrypt_secret_def draw_def
        andthen_def seq_def Let_def split: prod.splits sum.splits)
  with b show ?thesis by (auto simp: get_webhooks_rows)
qed

end
