(* ===== verification/Memory_Ranking.thy ===== *)
theory Memory_Ranking
  imports Prelude "HOL-Library.Multiset" "HOL-Library.Sublist"
begin

text \<open>
  \<open>retrieval/reranker.py\<close> of the memory service: the composite score of a candidate and the
  choice of the best ones. Python floats are reals, \<open>math.exp\<close> and \<open>math.log\<close> the real
  functions, and timestamps seconds. A half-life of None is \<open>float('inf')\<close>.
\<close>

record candidate =
  ca_id :: string
  ca_content :: string
  ca_metadata :: variables
  ca_embedding_model :: string
  ca_accessed_at :: real
  ca_access_count :: nat
  ca_similarity :: real
  ca_memory_type :: string

record scored =
  sc_score :: real
  sc_candidate :: candidate

definition FREQ_CAP :: real where "FREQ_CAP = 2"

definition recency_score :: "real \<Rightarrow> real \<Rightarrow> real option \<Rightarrow> exn + real" where
  "recency_score now accessed_at half_life_days =
     (let age_days = (now - accessed_at) / 86400
      in case half_life_days of
           None \<Rightarrow> Inr (exp 0)
         | Some h \<Rightarrow> if h = 0 then Inl (ZeroDivisionError ''float division by zero'')
                     else Inr (exp (- age_days * ln 2 / h)))"

definition TYPE_HALF_LIFE :: "(string \<times> real option) list" where
  "TYPE_HALF_LIFE = [(''episodic'', Some 30), (''semantic'', None), (''procedural'', None)]"

definition effective_half_life :: "real \<Rightarrow> string \<Rightarrow> real option" where
  "effective_half_life half_life_days t =
     (case map_of TYPE_HALF_LIFE t of Some h \<Rightarrow> h | None \<Rightarrow> Some half_life_days)"

definition freq_term :: "nat \<Rightarrow> real" where
  "freq_term access_count = min (ln (real access_count + 1)) FREQ_CAP"

definition score_candidate :: "real \<Rightarrow> real \<Rightarrow> candidate \<Rightarrow> exn + scored" where
  "score_candidate half_life_days now c =
     (case recency_score now (ca_accessed_at c) (effective_half_life half_life_days (ca_memory_type c)) of
        Inl e \<Rightarrow> Inl e
      | Inr rec \<Rightarrow> Inr \<lparr>sc_score = ca_similarity c * (6 / 10) + rec * (3 / 10) + freq_term (ca_access_count c) * (1 / 10),
                       sc_candidate = c\<rparr>)"

text \<open>The scoring loop; \<open>clock i\<close> is the time at which candidate \<open>i\<close> is scored.\<close>

fun score_all :: "real \<Rightarrow> (nat \<Rightarrow> real) \<Rightarrow> candidate list \<Rightarrow> exn + scored list" where
  "score_all h clock [] = Inr []"
| "score_all h clock (c # cs) =
     (case score_candidate h (clock 0) c of
        Inl e \<Rightarrow> Inl e
      | Inr s \<Rightarrow> (case score_all h (clock \<circ> Suc) cs of Inl e \<Rightarrow> Inl e | Inr ss \<Rightarrow> Inr (s # ss)))"

text \<open>\<open>sort(key=score, reverse=True)\<close> is stable, as is sorting by the negated score.\<close>

definition rerank :: "(nat \<Rightarrow> real) \<Rightarrow> candidate list \<Rightarrow> int \<Rightarrow> real \<Rightarrow> exn + scored list" where
  "rerank clock candidates top_k half_life_days =
     (case score_all half_life_days clock candidates of
        Inl e \<Rightarrow> Inl e
      | Inr scored \<Rightarrow> Inr (slice_to top_k (sort_key (\<lambda>x. - sc_score x) scored)))"

section \<open>Scores\<close>

definition known_type :: "candidate \<Rightarrow> bool" where
  "known_type c \<longleftrightarrow> ca_memory_type c \<in> {''episodic'', ''semantic'', ''procedural''}"

lemma known_half_life:
  "known_type c \<Longrightarrow> effective_half_life h (ca_memory_type c) =
     (if ca_memory_type c = ''episodic'' then Some 30 else None)"
  by (auto simp: known_type_def effective_half_life_def TYPE_HALF_LIFE_def)

lemma score_candidate_known:
  "known_type c \<Longrightarrow> \<exists>s. score_candidate h now c = Inr s \<and> sc_candidate s = c"
  by (simp add: score_candidate_def recency_score_def known_half_life)

lemma score_all_known:
  "list_all known_type cs \<Longrightarrow> \<exists>ss. score_all h clock cs = Inr ss \<and> map sc_candidate ss = cs"
proof (induction cs arbitrary: clock)
  case (Cons c cs)
  then obtain ss where "score_all h (clock \<circ> Suc) cs = Inr ss" "map sc_candidate ss = cs"
    using Cons.IH [of "clock \<circ> Suc"] by auto
  with Cons.prems score_candidate_known [of c h "clock 0"] show ?case by auto
qed simp

text \<open>No half-life that is passed in has an effect on the memory types that exist.\<close>

lemma half_life_setting_unused:
  assumes "list_all known_type cs"
  shows "rerank clock cs k h = rerank clock cs k h'"
proof -
  have "score_candidate h now c = score_candidate h' now c" if "known_type c" for c now
    using that by (simp add: score_candidate_def known_half_life)
  then have "score_all h clock cs = score_all h' clock cs"
    using assms by (induction cs arbitrary: clock) (auto split: sum.split)
  then show ?thesis by (simp add: rerank_def)
qed

lemma freq_term_bounds: "0 \<le> freq_term n \<and> freq_term n \<le> 2"
  by (simp add: freq_term_def FREQ_CAP_def)

lemma recency_bounds:
  assumes "known_type c" and "ca_accessed_at c \<le> now"
    and "recency_score now (ca_accessed_at c) (effective_half_life h (ca_memory_type c)) = Inr r"
  shows "0 < r \<and> r \<le> 1"
  using assms by (auto simp: known_half_life recency_score_def Let_def split: if_splits)

lemma score_bounds:
  assumes "known_type c" and "ca_accessed_at c \<le> now" and "score_candidate h now c = Inr s"
  shows "6 / 10 * ca_similarity c < sc_score s \<and> sc_score s \<le> 6 / 10 * ca_similarity c + 5 / 10"
proof -
  obtain r where r: "recency_score now (ca_accessed_at c) (effective_half_life h (ca_memory_type c)) = Inr r"
    and s: "sc_score s = ca_similarity c * (6 / 10) + r * (3 / 10) + freq_term (ca_access_count c) * (1 / 10)"
    using assms(3) by (auto simp: score_candidate_def split: sum.splits)
  from recency_bounds [OF assms(1,2) r] freq_term_bounds [of "ca_access_count c"] show ?thesis
    by (simp add: s)
qed

lemma score_all_each:
  "score_all h clock cs = Inr ss \<Longrightarrow> s \<in> set ss \<Longrightarrow>
     \<exists>i < length cs. score_candidate h (clock i) (cs ! i) = Inr s"
proof (induction cs arbitrary: clock ss)
  case (Cons c cs)
  then obtain s0 ss0 where s0: "score_candidate h (clock 0) c = Inr s0"
    and ss0: "score_all h (clock \<circ> Suc) cs = Inr ss0" and ss: "ss = s0 # ss0"
    by (auto split: sum.splits)
  show ?case
  proof (cases "s = s0")
    case True
    with s0 show ?thesis by (intro exI [of _ 0]) simp
  next
    case False
    with Cons.prems(2) ss have "s \<in> set ss0" by simp
    from Cons.IH [OF ss0 this] obtain i where "i < length cs" "score_candidate h ((clock \<circ> Suc) i) (cs ! i) = Inr s"
      by blast
    then show ?thesis by (intro exI [of _ "Suc i"]) simp
  qed
qed simp

section \<open>Choosing the best\<close>

lemma sort_take_best:
  fixes f :: "'a \<Rightarrow> real"
  defines "rs n xs \<equiv> take n (sort_key (\<lambda>x. - f x) xs)"
  shows "sorted_wrt (\<lambda>x y. f y \<le> f x) (rs n xs)" and "mset (rs n xs) \<subseteq># mset xs"
    and "x \<in># mset xs - mset (rs n xs) \<Longrightarrow> y \<in> set (rs n xs) \<Longrightarrow> f x \<le> f y"
    and "prefix (filter (\<lambda>x. f x = v) (rs n xs)) (filter (\<lambda>x. f x = v) xs)"
proof -
  let ?s = "sort_key (\<lambda>x. - f x) xs"
  have sorted: "sorted_wrt (\<lambda>x y. f y \<le> f x) ?s"
    using sorted_sort_key [of "\<lambda>x. - f x" xs] by (simp add: sorted_map)
  then have split: "sorted_wrt (\<lambda>x y. f y \<le> f x) (take n ?s @ drop n ?s)" by simp
  show "sorted_wrt (\<lambda>x y. f y \<le> f x) (rs n xs)"
    using split unfolding rs_def sorted_wrt_append by simp
  have parts: "mset xs = mset (take n ?s) + mset (drop n ?s)"
    by (metis append_take_drop_id mset_append mset_sort)
  then show "mset (rs n xs) \<subseteq># mset xs" by (simp add: rs_def)
  show "f x \<le> f y" if "x \<in># mset xs - mset (rs n xs)" and "y \<in> set (rs n xs)"
    using that split parts unfolding rs_def sorted_wrt_append by simp
  have "filter (\<lambda>x. - f x = - v) ?s = filter (\<lambda>x. - f x = - v) xs" by (rule sort_key_stable)
  then have "filter (\<lambda>x. f x = v) ?s = filter (\<lambda>x. f x = v) xs" by simp
  moreover have "filter P ?s = filter P (take n ?s) @ filter P (drop n ?s)" for P
    by (metis append_take_drop_id filter_append)
  ultimately show "prefix (filter (\<lambda>x. f x = v) (rs n xs)) (filter (\<lambda>x. f x = v) xs)"
    unfolding rs_def by (metis prefixI)
qed

text \<open>
  C28: For candidates of the existing memory types, reranking always returns; its result has the
  requested number of candidates (or all), in descending order of score, nothing left out scores higher
  than anything chosen, and among equal scores those found first are chosen first. Every score lies
  within one half of 0.6 times the similarity.
\<close>

lemma rerank_returns_best:
  assumes "list_all known_type cs"
  shows "\<exists>ss rs. score_all h clock cs = Inr ss \<and> map sc_candidate ss = cs \<and> rerank clock cs (int k) h = Inr rs \<and>
    length rs = min k (length cs) \<and> sorted_wrt (\<lambda>x y. sc_score y \<le> sc_score x) rs \<and> mset rs \<subseteq># mset ss \<and>
    (\<forall>x y. x \<in># mset ss - mset rs \<and> y \<in> set rs \<longrightarrow> sc_score x \<le> sc_score y) \<and>
    (\<forall>v. prefix (filter (\<lambda>x. sc_score x = v) rs) (filter (\<lambda>x. sc_score x = v) ss)) \<and>
    ((\<forall>i c. c \<in> set cs \<longrightarrow> ca_accessed_at c \<le> clock i) \<longrightarrow>
       (\<forall>s \<in> set ss. 6 / 10 * ca_similarity (sc_candidate s) < sc_score s \<and>
          sc_score s \<le> 6 / 10 * ca_similarity (sc_candidate s) + 5 / 10))"
proof -
  obtain ss where ss: "score_all h clock cs = Inr ss" "map sc_candidate ss = cs"
    using score_all_known [OF assms] by blast
  let ?rs = "take k (sort_key (\<lambda>x. - sc_score x) ss)"
  have "length ss = length cs" using ss(2) by (metis length_map)
  then have "length ?rs = min k (length cs)" by simp
  moreover have "rerank clock cs (int k) h = Inr ?rs" by (simp add: rerank_def ss(1) slice_to_def)
  moreover have "6 / 10 * ca_similarity (sc_candidate s) < sc_score s \<and>
      sc_score s \<le> 6 / 10 * ca_similarity (sc_candidate s) + 5 / 10"
    if "\<forall>i c. c \<in> set cs \<longrightarrow> ca_accessed_at c \<le> clock i" and s: "s \<in> set ss" for s
  proof -
    from score_all_each [OF ss(1) s] obtain i where i: "i < length cs" "score_candidate h (clock i) (cs ! i) = Inr s"
      by blast
    then have "known_type (cs ! i)" "cs ! i \<in> set cs" using assms by (auto simp: list_all_length)
    moreover have "sc_candidate s = cs ! i" using i(2) by (auto simp: score_candidate_def split: sum.splits)
    ultimately show ?thesis using score_bounds [OF _ _ i(2)] that(1) by simp
  qed
  ultimately show ?thesis
    using ss sort_take_best [where f = sc_score and xs = ss and n = k]
    by (intro exI [of _ ss] exI [of _ ?rs]) auto
qed

text \<open>Two facts, the second of which is more similar.\<close>

definition sample_candidate :: "string \<Rightarrow> real \<Rightarrow> candidate" where
  "sample_candidate i s = \<lparr>ca_id = i, ca_content = i, ca_metadata = [], ca_embedding_model = ''m'',
     ca_accessed_at = 0, ca_access_count = 0, ca_similarity = s, ca_memory_type = ''semantic''\<rparr>"

lemma rerank_returns_best_witness:
  "\<exists>r. rerank (\<lambda>_. 0) [sample_candidate ''a'' 0, sample_candidate ''b'' 1] (int 1) 30 = Inr [r] \<and> ca_id (sc_candidate r) = ''b''"
proof -
  let ?cs = "[sample_candidate ''a'' 0, sample_candidate ''b'' 1]"
  have "list_all known_type ?cs" by (simp add: known_type_def sample_candidate_def)
  from rerank_returns_best [OF this, of 30 "\<lambda>_. 0" 1] obtain ss rs where ss: "map sc_candidate ss = ?cs"
    "score_all 30 (\<lambda>_. 0) ?cs = Inr ss"
    and rs: "rerank (\<lambda>_. 0) ?cs (int 1) 30 = Inr rs" "length rs = 1" "mset rs \<subseteq># mset ss"
      "\<forall>x y. x \<in># mset ss - mset rs \<and> y \<in> set rs \<longrightarrow> sc_score x \<le> sc_score y"
    by (elim exE conjE) (rule that, assumption+, simp, assumption+)
  from ss(2) have scores: "ss = [\<lparr>sc_score = 3 / 10, sc_candidate = sample_candidate ''a'' 0\<rparr>,
      \<lparr>sc_score = 9 / 10, sc_candidate = sample_candidate ''b'' 1\<rparr>]"
    by (simp add: score_candidate_def recency_score_def effective_half_life_def TYPE_HALF_LIFE_def
        freq_term_def FREQ_CAP_def sample_candidate_def)
  obtain r where r: "rs = [r]" using rs(2) by (cases rs) auto
  with rs(3) scores have "r = ss ! 0 \<or> r = ss ! 1" by auto
  moreover have "r \<noteq> ss ! 0" using rs(4) r scores by (auto dest: spec [of _ "ss ! 1"])
  ultimately show ?thesis using rs(1) r scores by (auto simp: sample_candidate_def)
qed

end
