(* ===== verification/Memory_Service.thy ===== *)
theory Memory_Service
  imports Redis Py_Text Memory_Ranking Events Workflow_Db "HOL-Library.List_Lexorder" "HOL-Library.Char_ord"
begin

text \<open>
  The memory service: embedding registry and cache (\<open>embedding/registry.py\<close>,
  \<open>retrieval/embedder.py\<close>), the searcher (\<open>retrieval/searcher.py\<close>) and the routes
  (\<open>routes/memory.py\<close>). The embedding providers, the vector index, hashing, JSON, the clock and
  the key scan of Redis are fields of \<open>mem_env\<close>; the Redis server is the argument \<open>R\<close>.

  SELECT DISTINCT gives the values in the order in which they are first met; SQL leaves the
  order open, and it decides only between candidates of equal score.
\<close>

section \<open>Rows, environment, state\<close>

record mem_item =
  mi_id :: uuid
  mi_tenant_id :: uuid
  mi_memory_type :: string
  mi_content :: string
  mi_embedding :: "real list"
  mi_embedding_model :: string
  mi_extra_metadata :: variables
  mi_created_at :: nat
  mi_accessed_at :: nat
  mi_access_count :: nat
  mi_retention_policy :: string
  mi_compressed :: bool

record mem_summary =
  sm_id :: uuid
  sm_tenant_id :: uuid
  sm_summary :: string
  sm_original_ids :: "uuid list"
  sm_embedding :: "real list"
  sm_embedding_model :: string
  sm_created_at :: nat

record search_result =
  sr_item :: mem_item
  sr_score :: real
  sr_similarity :: real

record mem_settings =
  st_default_model :: string
  st_embedding_ttl :: nat
  st_query_ttl :: nat
  st_candidate_limit :: nat
  st_half_life :: real
  st_threshold_days :: nat
  st_batch_size :: nat

definition default_mem_settings :: mem_settings where
  "default_mem_settings = \<lparr>st_default_model = ''text-embedding-3-small'', st_embedding_ttl = 3600,
     st_query_ttl = 300, st_candidate_limit = 50, st_half_life = 30, st_threshold_days = 7, st_batch_size = 100\<rparr>"

type_synonym provider = "string list \<Rightarrow> exn + real list list"

record 'r mem_env =
  me_settings :: mem_settings
  me_providers :: "(string \<times> provider) list"
  me_sha256 :: "string \<Rightarrow> string"
  me_vec_dumps :: "real list \<Rightarrow> string"
  me_vec_loads :: "string \<Rightarrow> exn + real list"
  me_dumps :: "search_result list \<Rightarrow> string"
  me_loads :: "string \<Rightarrow> exn + search_result list"
  me_distance :: "real list \<Rightarrow> real list \<Rightarrow> real"
  me_nearest :: "real list \<Rightarrow> real list list \<Rightarrow> nat list"
  me_scan :: "string \<Rightarrow> 'r \<Rightarrow> string list list"
  me_now :: "nat \<Rightarrow> nat"
  me_time_ms :: "nat \<Rightarrow> nat"
  me_uuid :: "nat \<Rightarrow> uuid"

record 'r mem_service =
  ms_items :: "mem_item list"
  ms_summaries :: "mem_summary list"
  ms_cache :: 'r
  ms_sent :: "(string \<times> event) list"
  ms_background :: "(uuid list \<times> uuid) list"
  ms_tick :: nat

text \<open>A request works on its session's view of the tables; the cache and the stream are shared.\<close>

record 'r mem_request =
  mq_sv :: "'r mem_service"
  mq_items :: "mem_item list"
  mq_summaries :: "mem_summary list"
  mq_rls :: rls_ctx

definition mem_begin :: "bool \<Rightarrow> 'r mem_service \<Rightarrow> 'r mem_request" where
  "mem_begin byp sv = \<lparr>mq_sv = sv, mq_items = ms_items sv, mq_summaries = ms_summaries sv,
     mq_rls = \<lparr>rls_bypass = byp, rls_tenant = None\<rparr>\<rparr>"

text \<open>The commit of a session's tables on top of what the service has become.\<close>

definition mem_commit :: "'r mem_request \<Rightarrow> 'r mem_service \<Rightarrow> 'r mem_service" where
  "mem_commit q sv = sv\<lparr>ms_items := mq_items q, ms_summaries := mq_summaries q\<rparr>"

definition with_mem_session :: "bool \<Rightarrow> ('r mem_request, 'a) py \<Rightarrow> ('r mem_service, 'a) py" where
  "with_mem_session byp body = (\<lambda>sv.
     case body (mem_begin byp sv) of
       (Inr a, q) \<Rightarrow> (Inr a, mem_commit q (mq_sv q))
     | (Inl e, q) \<Rightarrow> (Inl e, mq_sv q))"

definition mem_tenant :: "uuid \<Rightarrow> ('r mem_request, unit) py" where
  "mem_tenant tid = modify (\<lambda>q. q\<lparr>mq_rls := set_tenant_context tid (mq_rls q)\<rparr>)"

definition mem_tick :: "(nat \<Rightarrow> 'a) \<Rightarrow> ('r mem_request, 'a) py" where
  "mem_tick f = (\<lambda>q. (Inr (f (ms_tick (mq_sv q))), q\<lparr>mq_sv := (mq_sv q)\<lparr>ms_tick := Suc (ms_tick (mq_sv q))\<rparr>\<rparr>))"

definition cache_get :: "'r redis_ops \<Rightarrow> string \<Rightarrow> ('r mem_request, string option) py" where
  "cache_get R key = gets (\<lambda>q. r_get R key (ms_cache (mq_sv q)))"

definition cache_setex :: "'r redis_ops \<Rightarrow> string \<Rightarrow> nat \<Rightarrow> string \<Rightarrow> ('r mem_request, unit) py" where
  "cache_setex R key ttl v =
     modify (\<lambda>q. q\<lparr>mq_sv := (mq_sv q)\<lparr>ms_cache := r_setex R key ttl v (ms_cache (mq_sv q))\<rparr>\<rparr>)"

definition mem_publish :: "'r mem_env \<Rightarrow> uuid \<Rightarrow> event_body \<Rightarrow> ('r mem_request, unit) py" where
  "mem_publish E tid body =
     andthen (mem_tick (me_uuid E)) (\<lambda>tr.
     andthen (mem_tick (me_now E)) (\<lambda>now.
     modify (\<lambda>q. q\<lparr>mq_sv := (mq_sv q)\<lparr>ms_sent := ms_sent (mq_sv q) @
       [(''memory.events'', \<lparr>ev_trace_id = tr, ev_tenant_id = tid, ev_timestamp = now,
          ev_schema_version = 1, ev_body = body\<rparr>)]\<rparr>\<rparr>)))"

section \<open>Embedding\<close>

definition registry_register :: "string \<Rightarrow> provider \<Rightarrow> (string \<times> provider) list \<Rightarrow> (string \<times> provider) list" where
  "registry_register model_name p ps = AList.update model_name p ps"

definition registry_get :: "(string \<times> provider) list \<Rightarrow> string \<Rightarrow> exn + provider" where
  "registry_get ps model_name =
     (case map_of ps model_name of
        None \<Rightarrow> Inl (PyKeyError (''No embedding provider registered for model: '' @ model_name))
      | Some p \<Rightarrow> Inr p)"

definition registry_embed :: "(string \<times> provider) list \<Rightarrow> string list \<Rightarrow> string \<Rightarrow> exn + real list list" where
  "registry_embed ps texts model =
     (case registry_get ps model of Inl e \<Rightarrow> Inl e | Inr p \<Rightarrow> p texts)"

definition registered_models :: "(string \<times> provider) list \<Rightarrow> string list" where
  "registered_models ps = map fst ps"

definition embedding_key :: "'r mem_env \<Rightarrow> string \<Rightarrow> string \<Rightarrow> string" where
  "embedding_key E model text = ''embedding:'' @ model @ '':'' @ me_sha256 E text"

definition embed :: "'r redis_ops \<Rightarrow> 'r mem_env \<Rightarrow> string \<Rightarrow> string \<Rightarrow> ('r mem_request, real list) py" where
  "embed R E text model =
     andthen (cache_get R (embedding_key E model text)) (\<lambda>cached.
     case cached of
       Some v \<Rightarrow> liftsum (me_vec_loads E v)
     | None \<Rightarrow>
         andthen (liftsum (registry_embed (me_providers E) [text] model)) (\<lambda>vectors.
         case vectors of
           [] \<Rightarrow> throw (LibraryError ''list index out of range'')
         | vector # _ \<Rightarrow>
             seq (cache_setex R (embedding_key E model text) (st_embedding_ttl (me_settings E)) (me_vec_dumps E vector))
               (ret vector)))"

section \<open>Search\<close>

definition pick :: "nat list \<Rightarrow> 'a list \<Rightarrow> 'a list" where
  "pick idxs xs = map (nth xs) idxs"

text \<open>\<open>ORDER BY embedding <=> q LIMIT lim\<close>: the index gives the rows in its order of distance.\<close>

definition nearest_rows :: "'r mem_env \<Rightarrow> real list \<Rightarrow> ('a \<Rightarrow> real list) \<Rightarrow> nat \<Rightarrow> 'a list \<Rightarrow> 'a list" where
  "nearest_rows E qvec emb n rows = take n (pick (me_nearest E qvec (map emb rows)) rows)"

definition item_candidate :: "'r mem_env \<Rightarrow> real list \<Rightarrow> mem_item \<Rightarrow> candidate" where
  "item_candidate E qvec r = \<lparr>ca_id = uuid_str (mi_id r), ca_content = mi_content r,
     ca_metadata = mi_extra_metadata r, ca_embedding_model = mi_embedding_model r,
     ca_accessed_at = real (mi_accessed_at r), ca_access_count = mi_access_count r,
     ca_similarity = 1 - me_distance E (mi_embedding r) qvec, ca_memory_type = mi_memory_type r\<rparr>"

definition summary_candidate :: "'r mem_env \<Rightarrow> real list \<Rightarrow> mem_summary \<Rightarrow> candidate" where
  "summary_candidate E qvec r = \<lparr>ca_id = uuid_str (sm_id r), ca_content = sm_summary r,
     ca_metadata = [], ca_embedding_model = sm_embedding_model r,
     ca_accessed_at = real (sm_created_at r), ca_access_count = 0,
     ca_similarity = 1 - me_distance E (sm_embedding r) qvec, ca_memory_type = ''episodic''\<rparr>"

definition item_candidates ::
  "'r mem_env \<Rightarrow> uuid \<Rightarrow> string list \<Rightarrow> string \<Rightarrow> real list \<Rightarrow> 'r mem_request \<Rightarrow> candidate list" where
  "item_candidates E tid types model qvec q =
     map (item_candidate E qvec)
       (nearest_rows E qvec mi_embedding (st_candidate_limit (me_settings E))
          (select_rows (mq_rls q) mi_tenant_id
             (\<lambda>r. mi_tenant_id r = tid \<and> \<not> mi_compressed r \<and> mi_memory_type r \<in> set types \<and>
                  mi_embedding_model r = model) (mq_items q)))"

definition summary_candidates ::
  "'r mem_env \<Rightarrow> uuid \<Rightarrow> string \<Rightarrow> real list \<Rightarrow> 'r mem_request \<Rightarrow> candidate list" where
  "summary_candidates E tid model qvec q =
     map (summary_candidate E qvec)
       (nearest_rows E qvec sm_embedding (st_candidate_limit (me_settings E) div 2)
          (select_rows (mq_rls q) sm_tenant_id (\<lambda>r. sm_tenant_id r = tid \<and> sm_embedding_model r = model)
             (mq_summaries q)))"

text \<open>One query per embedding model, over a table given by its candidate function.\<close>

fun per_model ::
  "'r redis_ops \<Rightarrow> 'r mem_env \<Rightarrow> string \<Rightarrow> (string \<Rightarrow> real list \<Rightarrow> 'r mem_request \<Rightarrow> candidate list) \<Rightarrow> string list \<Rightarrow>
     ('r mem_request, candidate list) py" where
  "per_model R E query cands [] = ret []"
| "per_model R E query cands (model # models) =
     andthen (embed R E query model) (\<lambda>vector.
     andthen (gets (cands model vector)) (\<lambda>found.
     andthen (per_model R E query cands models) (\<lambda>rest. ret (found @ rest))))"

definition search ::
  "'r redis_ops \<Rightarrow> 'r mem_env \<Rightarrow> string \<Rightarrow> uuid \<Rightarrow> int \<Rightarrow> string list option \<Rightarrow> ('r mem_request, scored list) py" where
  "search R E query tid top_k memory_types =
     (let types = (case memory_types of None \<Rightarrow> [''episodic'', ''semantic'', ''procedural'']
                   | Some ts \<Rightarrow> if ts = [] then [''episodic'', ''semantic'', ''procedural''] else ts)
      in andthen (gets (\<lambda>q. remdups (map mi_embedding_model (select_rows (mq_rls q) mi_tenant_id
            (\<lambda>r. mi_tenant_id r = tid \<and> \<not> mi_compressed r) (mq_items q))))) (\<lambda>models.
         andthen (per_model R E query (item_candidates E tid types) models) (\<lambda>items.
         andthen (gets (\<lambda>q. remdups (map sm_embedding_model (select_rows (mq_rls q) sm_tenant_id
            (\<lambda>r. sm_tenant_id r = tid) (mq_summaries q))))) (\<lambda>summary_models.
         andthen (per_model R E query (summary_candidates E tid) summary_models) (\<lambda>summaries.
         let candidates = items @ summaries
         in if candidates = [] then ret []
            else andthen (mem_tick (\<lambda>t i. real (me_now E (t + i)))) (\<lambda>clock.
              liftsum (rerank clock candidates top_k (st_half_life (me_settings E)))))))))"

section \<open>Routes\<close>

definition query_prefix :: "uuid \<Rightarrow> string" where
  "query_prefix tid = ''memory:query:'' @ uuid_str tid @ '':''"

text \<open>The batches of keys that one iteration of SCAN yields are deleted one after the other.\<close>

fun delete_keys :: "'r redis_ops \<Rightarrow> string list \<Rightarrow> 'r \<Rightarrow> 'r" where
  "delete_keys R [] r = r"
| "delete_keys R (k # ks) r = delete_keys R ks (r_del R k r)"

fun delete_batches :: "'r redis_ops \<Rightarrow> string list list \<Rightarrow> 'r \<Rightarrow> 'r" where
  "delete_batches R [] r = r"
| "delete_batches R (ks # kss) r = delete_batches R kss (if ks = [] then r else delete_keys R ks r)"

definition invalidate_query_cache :: "'r redis_ops \<Rightarrow> 'r mem_env \<Rightarrow> uuid \<Rightarrow> ('r mem_request, unit) py" where
  "invalidate_query_cache R E tid =
     modify (\<lambda>q. let r = ms_cache (mq_sv q) in
       q\<lparr>mq_sv := (mq_sv q)\<lparr>ms_cache := delete_batches R (me_scan E (query_prefix tid @ ''*'') r) r\<rparr>\<rparr>)"

definition store_body ::
  "'r redis_ops \<Rightarrow> 'r mem_env \<Rightarrow> string \<Rightarrow> memory_type \<Rightarrow> variables \<Rightarrow> string \<Rightarrow> uuid \<Rightarrow> ('r mem_request, mem_item) py" where
  "store_body R E content mtype metadata retention tid =
     seq (mem_tenant tid)
     (andthen (embed R E content (st_default_model (me_settings E))) (\<lambda>vector.
      andthen (mem_tick (me_uuid E)) (\<lambda>iid.
      andthen (mem_tick (me_now E)) (\<lambda>now.
      let item = \<lparr>mi_id = iid, mi_tenant_id = tid, mi_memory_type = memory_type_value mtype,
            mi_content = content, mi_embedding = vector, mi_embedding_model = st_default_model (me_settings E),
            mi_extra_metadata = metadata, mi_created_at = now, mi_accessed_at = now, mi_access_count = 0,
            mi_retention_policy = retention, mi_compressed = False\<rparr>
      in seq (modify (\<lambda>q. q\<lparr>mq_items := mq_items q @ [item]\<rparr>))
         (seq (invalidate_query_cache R E tid)
         (seq (mem_publish E tid (MemoryWritten iid mtype)) (ret item)))))))"

definition store_memory ::
  "bool \<Rightarrow> 'r redis_ops \<Rightarrow> 'r mem_env \<Rightarrow> string \<Rightarrow> memory_type \<Rightarrow> variables \<Rightarrow> string \<Rightarrow> uuid \<Rightarrow>
     ('r mem_service, mem_item) py" where
  "store_memory byp R E content mtype metadata retention tid =
     with_mem_session byp (store_body R E content mtype metadata retention tid)"

definition find_item :: "uuid \<Rightarrow> uuid \<Rightarrow> ('r mem_request, mem_item) py" where
  "find_item iid tid =
     andthen (gets (\<lambda>q. select_rows (mq_rls q) mi_tenant_id (\<lambda>r. mi_id r = iid \<and> mi_tenant_id r = tid) (mq_items q)))
       (\<lambda>rows. andthen (liftsum (scalar_one_or_none rows)) (\<lambda>found.
         case found of None \<Rightarrow> throw (HTTPException 404 ''Memory item not found'') | Some item \<Rightarrow> ret item))"

definition get_memory_item :: "bool \<Rightarrow> uuid \<Rightarrow> uuid \<Rightarrow> ('r mem_service, mem_item) py" where
  "get_memory_item byp iid tid = with_mem_session byp (seq (mem_tenant tid) (find_item iid tid))"

definition forget_memory :: "bool \<Rightarrow> 'r redis_ops \<Rightarrow> 'r mem_env \<Rightarrow> uuid \<Rightarrow> uuid \<Rightarrow> ('r mem_service, unit) py" where
  "forget_memory byp R E iid tid = with_mem_session byp
     (seq (mem_tenant tid)
     (andthen (find_item iid tid) (\<lambda>item.
      seq (modify (\<lambda>q. q\<lparr>mq_items := filter (\<lambda>r. mi_id r \<noteq> mi_id item) (mq_items q)\<rparr>))
          (invalidate_query_cache R E tid))))"

text \<open>\<open>round(x, 4)\<close>, to even on a tie.\<close>

definition round4 :: "real \<Rightarrow> real" where
  "round4 x =
     (let y = x * 10000; f = \<lfloor>y\<rfloor>; d = y - of_int f
      in of_int (if d < 1 / 2 then f else if 1 / 2 < d then f + 1 else if even f then f else f + 1) / 10000)"

fun join :: "string \<Rightarrow> string list \<Rightarrow> string" where
  "join sep [] = []"
| "join sep [x] = x"
| "join sep (x # y # xs) = x @ sep @ join sep (y # xs)"

definition type_strs :: "memory_type list option \<Rightarrow> string list" where
  "type_strs ts =
     (case ts of None \<Rightarrow> [''all''] | Some l \<Rightarrow> if l = [] then [''all''] else sort (map memory_type_value l))"

definition query_key :: "'r mem_env \<Rightarrow> uuid \<Rightarrow> string \<Rightarrow> memory_type list option \<Rightarrow> string" where
  "query_key E tid query ts = query_prefix tid @ me_sha256 E (query @ ''|'' @ join '','' (type_strs ts))"

fun ids_of :: "scored list \<Rightarrow> exn + uuid list" where
  "ids_of [] = Inr []"
| "ids_of (s # ss) =
     (case uuid_parse (ca_id (sc_candidate s)) of
        None \<Rightarrow> Inl (PyValueError ''badly formed hexadecimal UUID string'')
      | Some i \<Rightarrow> (case ids_of ss of Inl e \<Rightarrow> Inl e | Inr is \<Rightarrow> Inr (i # is)))"

text \<open>The item rows of the candidates: a candidate without one (a summary) is dropped.\<close>

definition results_of :: "mem_item list \<Rightarrow> scored list \<Rightarrow> search_result list" where
  "results_of rows candidates =
     (let rows_by_id = foldl (\<lambda>d r. AList.update (uuid_str (mi_id r)) r d) [] rows
      in concat (map (\<lambda>s. case map_of rows_by_id (ca_id (sc_candidate s)) of
                     None \<Rightarrow> []
                   | Some row \<Rightarrow> [\<lparr>sr_item = row, sr_score = round4 (sc_score s),
                                 sr_similarity = ca_similarity (sc_candidate s)\<rparr>]) candidates))"

definition run_search ::
  "'r redis_ops \<Rightarrow> 'r mem_env \<Rightarrow> string \<Rightarrow> int \<Rightarrow> memory_type list option \<Rightarrow> uuid \<Rightarrow> ('r mem_request, search_result list) py" where
  "run_search R E query top_k ts tid =
     seq (mem_tenant tid)
     (andthen (search R E query tid top_k
         (case ts of None \<Rightarrow> None | Some l \<Rightarrow> if l = [] then None else Some (map memory_type_value l))) (\<lambda>candidates.
      if candidates = [] then ret []
      else
        andthen (liftsum (ids_of candidates)) (\<lambda>ids.
        andthen (gets (\<lambda>q. select_rows (mq_rls q) mi_tenant_id (\<lambda>r. mi_id r \<in> set ids) (mq_items q))) (\<lambda>rows.
        seq (modify (\<lambda>q. q\<lparr>mq_sv := (mq_sv q)\<lparr>ms_background := ms_background (mq_sv q) @ [(ids, tid)]\<rparr>\<rparr>))
          (ret (results_of rows candidates))))))"

text \<open>The reply: its results, whether they come from the cache, and the latency.\<close>

definition search_memory ::
  "bool \<Rightarrow> 'r redis_ops \<Rightarrow> 'r mem_env \<Rightarrow> string \<Rightarrow> int \<Rightarrow> memory_type list option \<Rightarrow> uuid \<Rightarrow>
     ('r mem_service, search_result list \<times> bool \<times> nat) py" where
  "search_memory byp R E query top_k ts tid = with_mem_session byp
     (andthen (mem_tick (me_time_ms E)) (\<lambda>start_ms.
      andthen (cache_get R (query_key E tid query ts)) (\<lambda>cached.
      case cached of
        Some v \<Rightarrow>
          andthen (mem_tick (me_time_ms E)) (\<lambda>end_ms.
          andthen (liftsum (me_loads E v)) (\<lambda>results.
          seq (mem_publish E tid (MemorySearched (me_sha256 E query) (length results) (end_ms - start_ms) True))
            (ret (results, True, end_ms - start_ms))))
      | None \<Rightarrow>
          andthen (run_search R E query top_k ts tid) (\<lambda>results.
          andthen (mem_tick (me_time_ms E)) (\<lambda>end_ms.
          seq (cache_setex R (query_key E tid query ts) (st_query_ttl (me_settings E)) (me_dumps E results))
            (seq (mem_publish E tid (MemorySearched (me_sha256 E query) (length results) (end_ms - start_ms) False))
              (ret (results, False, end_ms - start_ms))))))))"

text \<open>The background task of a search, in a session of its own; a failure is only logged.\<close>

definition update_access_stats :: "bool \<Rightarrow> 'r mem_env \<Rightarrow> uuid list \<Rightarrow> uuid \<Rightarrow> ('r mem_service, unit) py" where
  "update_access_stats byp E ids tid = tryexcept (with_mem_session byp
     (seq (mem_tenant tid)
     (andthen (mem_tick (me_now E)) (\<lambda>now.
      modify (\<lambda>q. q\<lparr>mq_items := update_rows
        (\<lambda>r. tenant_isolation (mq_rls q) (mi_tenant_id r) \<and> mi_id r \<in> set ids \<and> mi_tenant_id r = tid)
        (\<lambda>r. r\<lparr>mi_accessed_at := now, mi_access_count := mi_access_count r + 1\<rparr>) (mq_items q)\<rparr>))))) (\<lambda>_. ret ())"

end
