(* ===== verification/Memory_Search.thy ===== *)
theory Memory_Search
  imports Memory_Service
begin

text \<open>
  What the routes of the memory service guarantee: which items a search returns, what the query
  cache does to later searches, and how storing and searching interleave.
\<close>

section \<open>What a search reads\<close>

lemma wp_mem_tick [simp]:
  "wp (mem_tick f) Q X q = Q (f (ms_tick (mq_sv q))) (q\<lparr>mq_sv := (mq_sv q)\<lparr>ms_tick := Suc (ms_tick (mq_sv q))\<rparr>\<rparr>)"
  by (simp add: mem_tick_def wp_def)

lemma wp_cache_ops [simp]:
  "wp (cache_get R k) Q X q = Q (r_get R k (ms_cache (mq_sv q))) q"
  "wp (cache_setex R k t v) Q' X' q = Q' () (q\<lparr>mq_sv := (mq_sv q)\<lparr>ms_cache := r_setex R k t v (ms_cache (mq_sv q))\<rparr>\<rparr>)"
  "wp (mem_tenant tid) Q' X' q = Q' () (q\<lparr>mq_rls := set_tenant_context tid (mq_rls q)\<rparr>)"
  by (simp_all add: cache_get_def cache_setex_def mem_tenant_def)

text \<open>\<open>reads q q'\<close>: the tables and the context are those of \<open>q\<close>; the cache, the stream and the clock may differ.\<close>

definition reads :: "'r mem_request \<Rightarrow> 'r mem_request \<Rightarrow> bool" where
  "reads q q' \<longleftrightarrow> mq_items q' = mq_items q \<and> mq_summaries q' = mq_summaries q \<and> mq_rls q' = mq_rls q \<and>
     ms_items (mq_sv q') = ms_items (mq_sv q) \<and> ms_summaries (mq_sv q') = ms_summaries (mq_sv q)"

lemma reads_refl [simp]: "reads q q"
  by (simp add: reads_def)

lemma reads_trans: "reads q q' \<Longrightarrow> reads q' q'' \<Longrightarrow> reads q q''"
  by (simp add: reads_def)

lemma wp_mem_publish:
  "(\<And>q'. reads q q' \<Longrightarrow> ms_cache (mq_sv q') = ms_cache (mq_sv q) \<Longrightarrow> Q () q') \<Longrightarrow> wp (mem_publish E tid b) Q X q"
  by (simp add: mem_publish_def reads_def)

lemma wp_embed:
  assumes "\<And>v q'. reads q q' \<Longrightarrow> Q v q'" and "\<And>e q'. reads q q' \<Longrightarrow> X e q'"
  shows "wp (embed R E text model) Q X q"
  using assms by (auto simp: embed_def reads_def split: option.split sum.split list.split)

lemma wp_per_model:
  assumes "\<And>model v q'. reads q q' \<Longrightarrow> \<forall>c \<in> set (cands model v q'). P c"
    and "\<And>cs q'. reads q q' \<Longrightarrow> \<forall>c \<in> set cs. P c \<Longrightarrow> Q cs q'" and "\<And>e q'. reads q q' \<Longrightarrow> X e q'"
  shows "wp (per_model R E query cands models) Q X q"
  using assms
proof (induction models arbitrary: q Q)
  case Nil
  then show ?case by simp
next
  case (Cons model models)
  show ?case
    unfolding per_model.simps wp_andthen
  proof (rule wp_embed)
    fix v q' assume r: "reads q q'"
    have "wp (per_model R E query cands models) (\<lambda>rest. wp (ret (cands model v q' @ rest)) Q X) X q'"
    proof (rule Cons.IH)
      show "\<forall>c \<in> set (cands m v' q''). P c" if "reads q' q''" for m v' q''
        using Cons.prems(1) reads_trans [OF r that] by blast
      show "wp (ret (cands model v q' @ rest)) Q X q''" if "reads q' q''" "\<forall>c \<in> set rest. P c" for rest q''
        using Cons.prems(1) [OF r, of model v] Cons.prems(2) [OF reads_trans [OF r that(1)], of "cands model v q' @ rest"] that(2)
        by auto
      show "X e q''" if "reads q' q''" for e q'' using Cons.prems(3) reads_trans [OF r that] by blast
    qed
    then show "wp (gets (cands model v)) (\<lambda>a. wp (per_model R E query cands models) (\<lambda>b. wp (ret (a @ b)) Q X) X) X q'"
      by simp
  next
    show "X e q'" if "reads q q'" for e q' using Cons.prems(3) that by blast
  qed
qed

definition nearest_ok :: "'r mem_env \<Rightarrow> bool" where
  "nearest_ok E \<longleftrightarrow> (\<forall>v es. set (me_nearest E v es) \<subseteq> {..<length es})"

lemma nearest_rows_subset: "nearest_ok E \<Longrightarrow> set (nearest_rows E v emb n rows) \<subseteq> set rows"
  unfolding nearest_ok_def nearest_rows_def pick_def
  by (fastforce dest!: in_set_takeD)

text \<open>A candidate comes from an active item of the tenant, or from a summary.\<close>

definition from_item :: "uuid \<Rightarrow> string list \<Rightarrow> mem_item list \<Rightarrow> candidate \<Rightarrow> bool" where
  "from_item tid types items c \<longleftrightarrow> (\<exists>r \<in> set items. ca_id c = uuid_str (mi_id r) \<and> mi_tenant_id r = tid \<and>
     \<not> mi_compressed r \<and> mi_memory_type r \<in> set types)"

definition from_summary :: "mem_summary list \<Rightarrow> candidate \<Rightarrow> bool" where
  "from_summary summaries c \<longleftrightarrow> (\<exists>r \<in> set summaries. ca_id c = uuid_str (sm_id r))"

lemma item_candidates_from:
  assumes "nearest_ok E" and "c \<in> set (item_candidates E tid types model v q)"
  shows "from_item tid types (mq_items q) c"
  using assms nearest_rows_subset [OF assms(1)] select_rows_subset
  by (fastforce simp: item_candidates_def from_item_def item_candidate_def select_rows_def)

lemma summary_candidates_from:
  assumes "nearest_ok E" and "c \<in> set (summary_candidates E tid model v q)"
  shows "from_summary (mq_summaries q) c"
  using assms nearest_rows_subset [OF assms(1)]
  by (fastforce simp: summary_candidates_def from_summary_def summary_candidate_def select_rows_def)

lemma score_candidate_same: "score_candidate h now c = Inr s \<Longrightarrow> sc_candidate s = c"
  by (auto simp: score_candidate_def split: sum.splits)

lemma rerank_subset:
  assumes "rerank clock cs (int k) h = Inr rs"
  shows "length rs \<le> k" and "s \<in> set rs \<Longrightarrow> sc_candidate s \<in> set cs"
proof -
  obtain ss where ss: "score_all h clock cs = Inr ss" and rs: "rs = take k (sort_key (\<lambda>x. - sc_score x) ss)"
    using assms by (auto simp: rerank_def slice_to_def split: sum.splits)
  show "length rs \<le> k" by (simp add: rs)
  assume "s \<in> set rs"
  then have "s \<in> set ss" by (auto simp: rs dest: in_set_takeD)
  from score_all_each [OF ss this] show "sc_candidate s \<in> set cs"
    using score_candidate_same by fastforce
qed

definition types_searched :: "string list option \<Rightarrow> string list" where
  "types_searched ts = (case ts of None \<Rightarrow> [''episodic'', ''semantic'', ''procedural'']
     | Some l \<Rightarrow> if l = [] then [''episodic'', ''semantic'', ''procedural''] else l)"

lemma wp_search:
  assumes ok: "nearest_ok E"
    and Q: "\<And>ss q'. reads q q' \<Longrightarrow> length ss \<le> k \<Longrightarrow>
      \<forall>s \<in> set ss. from_item tid (types_searched ts) (mq_items q) (sc_candidate s) \<or>
        from_summary (mq_summaries q) (sc_candidate s) \<Longrightarrow> Q ss q'"
    and X: "\<And>e q'. reads q q' \<Longrightarrow> X e q'"
  shows "wp (search R E query tid (int k) ts) Q X q"
proof -
  let ?P = "\<lambda>c. from_item tid (types_searched ts) (mq_items q) c \<or> from_summary (mq_summaries q) c"
  have items: "\<forall>c \<in> set (item_candidates E tid (types_searched ts) m v q'). ?P c" if "reads q q'" for m v q'
    using item_candidates_from [OF ok] that by (fastforce simp: reads_def)
  have summaries: "\<forall>c \<in> set (summary_candidates E tid m v q'). ?P c" if "reads q q'" for m v q'
    using summary_candidates_from [OF ok] that by (fastforce simp: reads_def)
  have last_part: "wp (if cs @ ds = [] then ret []
      else andthen (mem_tick (\<lambda>t i. real (me_now E (t + i))))
        (\<lambda>clock. liftsum (rerank clock (cs @ ds) (int k) (st_half_life (me_settings E))))) Q X q2"
    if q2: "reads q q2" and all: "\<forall>c \<in> set (cs @ ds). ?P c" for cs ds q2
  proof -
    let ?q3 = "q2\<lparr>mq_sv := mq_sv q2\<lparr>ms_tick := Suc (ms_tick (mq_sv q2))\<rparr>\<rparr>"
    let ?r = "rerank (\<lambda>i. real (me_now E (ms_tick (mq_sv q2) + i))) (cs @ ds) (int k) (st_half_life (me_settings E))"
    have q3: "reads q ?q3" using q2 by (auto simp: reads_def)
    have "case ?r of Inl e \<Rightarrow> X e ?q3 | Inr a \<Rightarrow> Q a ?q3"
    proof (cases ?r)
      case (Inl e)
      then show ?thesis using X [OF q3] by simp
    next
      case (Inr ss)
      have "\<forall>s \<in> set ss. ?P (sc_candidate s)" using rerank_subset(2) [OF Inr] all by blast
      with Q [OF q3 rerank_subset(1) [OF Inr]] Inr show ?thesis by simp
    qed
    moreover have "Q [] q2" using Q [OF q2, of "[]"] by simp
    ultimately show ?thesis by simp
  qed
  show ?thesis
    unfolding search_def types_searched_def [symmetric] Let_def
    apply (simp only: wp_andthen wp_gets)
    apply (rule wp_per_model [where P = ?P, OF items], assumption)
    subgoal premises first for cs q1
      apply (simp only: wp_gets wp_andthen)
      apply (rule wp_per_model [where P = ?P])
      subgoal using summaries reads_trans [OF first(1)] by blast
      subgoal premises second for ds q2
        by (rule last_part [OF reads_trans [OF first(1) second(1)]]) (use first(2) second(2) in auto)
      subgoal using X reads_trans [OF first(1)] by blast
      done
    subgoal using X by blast
    done
qed

section \<open>The rows behind the candidates\<close>

lemma rows_by_id_lookup:
  "map_of (foldl (\<lambda>d r. AList.update (uuid_str (mi_id r)) r d) d0 rows) k = Some r \<Longrightarrow>
     map_of d0 k = Some r \<or> (r \<in> set rows \<and> k = uuid_str (mi_id r))"
proof (induction rows arbitrary: d0)
  case (Cons x rows)
  from Cons.IH [of "AList.update (uuid_str (mi_id x)) x d0"] Cons.prems show ?case
    by (auto simp: update_conv split: if_splits)
qed simp

lemma results_of_rows:
  assumes "x \<in> set (results_of rows candidates)"
  shows "\<exists>s \<in> set candidates. sr_item x \<in> set rows \<and> ca_id (sc_candidate s) = uuid_str (mi_id (sr_item x)) \<and>
    sr_score x = round4 (sc_score s)"
proof -
  let ?d = "foldl (\<lambda>d r. AList.update (uuid_str (mi_id r)) r d) [] rows"
  from assms obtain s row where "s \<in> set candidates" and look: "map_of ?d (ca_id (sc_candidate s)) = Some row"
    and "x = \<lparr>sr_item = row, sr_score = round4 (sc_score s), sr_similarity = ca_similarity (sc_candidate s)\<rparr>"
    by (auto simp: results_of_def Let_def split: option.splits)
  moreover from rows_by_id_lookup [OF look] have "row \<in> set rows \<and> ca_id (sc_candidate s) = uuid_str (mi_id row)" by simp
  ultimately show ?thesis by auto
qed

lemma length_results_of: "length (results_of rows candidates) \<le> length candidates"
proof -
  have "length (concat (map f xs)) \<le> length xs" if "\<And>x. length (f x) \<le> 1" for f :: "scored \<Rightarrow> search_result list" and xs
  proof (induction xs)
    case (Cons a xs)
    with that [of a] show ?case by simp
  qed simp
  then show ?thesis by (simp add: results_of_def Let_def split: option.split)
qed

definition own_result :: "uuid \<Rightarrow> string list \<Rightarrow> mem_item list \<Rightarrow> search_result \<Rightarrow> bool" where
  "own_result tid types items x \<longleftrightarrow> sr_item x \<in> set items \<and> mi_tenant_id (sr_item x) = tid \<and>
     \<not> mi_compressed (sr_item x) \<and> mi_memory_type (sr_item x) \<in> set types"

text \<open>The ids of items and summaries are unique, also between the tables.\<close>

definition mem_ok :: "mem_item list \<Rightarrow> mem_summary list \<Rightarrow> bool" where
  "mem_ok items summaries \<longleftrightarrow> distinct (map mi_id items) \<and> mi_id ` set items \<inter> sm_id ` set summaries = {}"

lemma results_are_own:
  assumes "mem_ok items summaries" and "set rows \<subseteq> set items"
    and "\<forall>s \<in> set ss. from_item tid types items (sc_candidate s) \<or> from_summary summaries (sc_candidate s)"
  shows "\<forall>x \<in> set (results_of rows ss). own_result tid types items x"
proof
  fix x assume "x \<in> set (results_of rows ss)"
  from results_of_rows [OF this] obtain s where s: "s \<in> set ss" and x: "sr_item x \<in> set items"
    and id: "ca_id (sc_candidate s) = uuid_str (mi_id (sr_item x))" using assms(2) by blast
  have "\<not> from_summary summaries (sc_candidate s)"
    using assms(1) x id by (auto simp: mem_ok_def from_summary_def uuid_str_inj)
  with assms(3) s obtain r where r: "r \<in> set items" "ca_id (sc_candidate s) = uuid_str (mi_id r)"
    "mi_tenant_id r = tid" "\<not> mi_compressed r" "mi_memory_type r \<in> set types" by (auto simp: from_item_def)
  with id have "mi_id r = mi_id (sr_item x)" by (simp add: uuid_str_inj)
  then have "r = sr_item x" using assms(1) r(1) x by (auto simp: mem_ok_def distinct_map dest: inj_onD)
  with r show "own_result tid types items x" by (simp add: own_result_def)
qed

definition requested_types :: "memory_type list option \<Rightarrow> string list" where
  "requested_types ts = types_searched (case ts of None \<Rightarrow> None | Some l \<Rightarrow> if l = [] then None else Some (map memory_type_value l))"

lemma wp_run_search:
  assumes "nearest_ok E" and "mem_ok (mq_items q) (mq_summaries q)"
    and Q: "\<And>rs q'. reads (q\<lparr>mq_rls := set_tenant_context tid (mq_rls q)\<rparr>) q' \<Longrightarrow> length rs \<le> k \<Longrightarrow>
      \<forall>x \<in> set rs. own_result tid (requested_types ts) (mq_items q) x \<Longrightarrow> Q rs q'"
    and X: "\<And>e q'. reads (q\<lparr>mq_rls := set_tenant_context tid (mq_rls q)\<rparr>) q' \<Longrightarrow> X e q'"
  shows "wp (run_search R E query (int k) ts tid) Q X q"
  unfolding run_search_def wp_seq wp_cache_ops wp_andthen
proof (rule wp_search [OF assms(1)])
  let ?q = "q\<lparr>mq_rls := set_tenant_context tid (mq_rls q)\<rparr>"
  fix ss :: "scored list" and q' assume r: "reads ?q q'" and len: "length ss \<le> k"
    and "\<forall>s \<in> set ss. from_item tid (types_searched (case ts of None \<Rightarrow> None | Some l \<Rightarrow> if l = [] then None else Some (map memory_type_value l)))
        (mq_items ?q) (sc_candidate s) \<or> from_summary (mq_summaries ?q) (sc_candidate s)"
  then have own: "\<forall>x \<in> set (results_of (select_rows (mq_rls q') mi_tenant_id P (mq_items q')) ss).
      own_result tid (requested_types ts) (mq_items q) x" for P
    using assms(2) select_rows_subset [of "mq_rls q'" mi_tenant_id P "mq_items q'"]
    by (intro results_are_own [of _ "mq_summaries q"]) (auto simp: reads_def requested_types_def)
  have "Q [] q'" using Q [OF r, of "[]"] by simp
  moreover have "Q (results_of (select_rows (mq_rls q') mi_tenant_id P (mq_items q')) ss) q''"
    if "reads ?q q''" for P q'' using Q [OF that] own length_results_of order_trans len by blast
  ultimately show "wp (if ss = [] then ret []
      else andthen (liftsum (ids_of ss)) (\<lambda>ids.
        andthen (gets (\<lambda>q. select_rows (mq_rls q) mi_tenant_id (\<lambda>r. mi_id r \<in> set ids) (mq_items q))) (\<lambda>rows.
        seq (modify (\<lambda>q. q\<lparr>mq_sv := (mq_sv q)\<lparr>ms_background := ms_background (mq_sv q) @ [(ids, tid)]\<rparr>\<rparr>))
          (ret (results_of rows ss))))) Q X q'"
    using r X by (auto simp: reads_def split: sum.split)
qed (rule X)

section \<open>The query cache\<close>

lemma wp_with_mem_session:
  "wp (with_mem_session byp body) Q X sv =
     wp body (\<lambda>a q. Q a (mem_commit q (mq_sv q))) (\<lambda>e q. X e (mq_sv q)) (mem_begin byp sv)"
  by (simp add: wp_def with_mem_session_def split: prod.split sum.split)

context redis_kv
begin

lemma get_setex: "0 < ttl \<Longrightarrow> r_get R k (r_setex R k' ttl v r) = (if k = k' then Some v else r_get R k r)"
  by (simp add: get_view setex_view)

lemma view_delete_keys: "view (delete_keys R ks r) k = (if k \<in> set ks then None else view r k)"
  by (induction ks arbitrary: r) (auto simp: del_view)

lemma view_delete_batches: "view (delete_batches R kss r) k = (if k \<in> set (concat kss) then None else view r k)"
  by (induction kss arbitrary: r) (auto simp: view_delete_keys)

end

text \<open>
  What SCAN promises of a finite keyspace: every key with the prefix that the pattern asks for is in
  one of the batches.
\<close>

definition scan_ok :: "('r \<Rightarrow> keyspace) \<Rightarrow> 'r mem_env \<Rightarrow> bool" where
  "scan_ok view E \<longleftrightarrow> (\<forall>r p k. finite (dom (view r)) \<longrightarrow> view r k \<noteq> None \<longrightarrow> prefix p k \<longrightarrow>
     k \<in> set (concat (me_scan E (p @ ''*'') r)))"

lemma query_key_prefix: "prefix (query_prefix tid) (query_key E tid query ts)"
  by (simp add: query_key_def)

lemma query_prefix_inj: "prefix (query_prefix tid) (query_key E tid' query ts) \<longleftrightarrow> tid = tid'"
proof
  assume "prefix (query_prefix tid) (query_key E tid' query ts)"
  then obtain s where "uuid_str tid @ CHR '':'' # s = uuid_str tid' @ CHR '':'' # me_sha256 E (query @ ''|'' @ join '','' (type_strs ts))"
    by (auto simp: prefix_def query_key_def query_prefix_def)
  then show "tid = tid'" by (simp add: append_eq_same_length uuid_str_inj)
qed (simp add: query_key_prefix)

text \<open>A property of the request that survives a computation, whether it returns or raises.\<close>

definition survives :: "('s \<Rightarrow> bool) \<Rightarrow> ('s, 'a) py \<Rightarrow> bool" where
  "survives I m \<longleftrightarrow> (\<forall>s. I s \<longrightarrow> wp m (\<lambda>_. I) (\<lambda>_. I) s)"

lemma survives_andthen [intro]:
  "survives I m \<Longrightarrow> (\<And>a. survives I (f a)) \<Longrightarrow> survives I (andthen m f)"
  unfolding survives_def by (blast intro: wp_bind)

lemma survives_basic [intro]:
  "survives I (ret a)" "survives I (Pair r)" "survives I (throw e)" "survives I (gets f)" "survives I (liftsum r)"
  by (auto simp: survives_def split: sum.split)

lemma survives_modify [intro]: "(\<And>s. I s \<Longrightarrow> I (g s)) \<Longrightarrow> survives I (modify g)"
  by (simp add: survives_def)

text \<open>The cached query results of a tenant other than \<open>tid\<close> are as before.\<close>

definition others_kept :: "'r redis_ops \<Rightarrow> 'r mem_env \<Rightarrow> uuid \<Rightarrow> 'r \<Rightarrow> 'r mem_request \<Rightarrow> bool" where
  "others_kept R E tid c q \<longleftrightarrow> (\<forall>tid' query ts. tid' \<noteq> tid \<longrightarrow>
     r_get R (query_key E tid' query ts) (ms_cache (mq_sv q)) = r_get R (query_key E tid' query ts) c)"

context redis_kv
begin

lemma others_embed:
  assumes "0 < st_embedding_ttl (me_settings E)"
  shows "survives (others_kept R E tid c) (embed R E text model)"
proof -
  have "query_key E tid' query ts \<noteq> embedding_key E model text" for tid' query ts
    by (simp add: query_key_def query_prefix_def embedding_key_def)
  with assms show ?thesis
    unfolding embed_def cache_get_def cache_setex_def seq_def
    by (auto intro!: survives_andthen survives_basic survives_modify
        simp: others_kept_def get_setex split: option.split list.split)
qed

lemma others_per_model:
  assumes "0 < st_embedding_ttl (me_settings E)"
  shows "survives (others_kept R E tid c) (per_model R E query cands models)"
  by (induction models) (auto intro: others_embed [OF assms])

lemma others_tick: "survives (others_kept R E tid c) (mem_tick f)"
  by (simp add: survives_def others_kept_def)

lemma others_run_search:
  assumes "0 < st_embedding_ttl (me_settings E)"
  shows "survives (others_kept R E tid c) (run_search R E query k ts tid')"
  unfolding run_search_def search_def Let_def seq_def mem_tenant_def
  by (auto intro!: survives_andthen survives_basic survives_modify others_per_model [OF assms] others_tick
      simp: others_kept_def)

end

text \<open>What a search that misses the cache leaves behind.\<close>

definition missed ::
  "'r redis_ops \<Rightarrow> 'r mem_env \<Rightarrow> string \<Rightarrow> nat \<Rightarrow> memory_type list option \<Rightarrow> uuid \<Rightarrow> 'r mem_service \<Rightarrow>
     search_result list \<Rightarrow> 'r mem_service \<Rightarrow> bool" where
  "missed R E query k ts tid sv rs sv' \<longleftrightarrow>
     ms_items sv' = ms_items sv \<and> ms_summaries sv' = ms_summaries sv \<and> length rs \<le> k \<and>
     (\<forall>x \<in> set rs. own_result tid (requested_types ts) (ms_items sv) x) \<and>
     (\<exists>c. ms_cache sv' = r_setex R (query_key E tid query ts) (st_query_ttl (me_settings E)) (me_dumps E rs) c)"

lemma search_memory_miss:
  assumes "nearest_ok E" and "mem_ok (ms_items sv) (ms_summaries sv)"
    and "r_get R (query_key E tid query ts) (ms_cache sv) = None"
  shows "wp (search_memory byp R E query (int k) ts tid)
    (\<lambda>(rs, hit, lat) sv'. \<not> hit \<and> missed R E query k ts tid sv rs sv')
    (\<lambda>e sv'. ms_items sv' = ms_items sv \<and> ms_summaries sv' = ms_summaries sv) sv"
proof -
  let ?q = "(mem_begin byp sv)\<lparr>mq_sv := sv\<lparr>ms_tick := Suc (ms_tick sv)\<rparr>\<rparr>"
  have run: "wp (run_search R E query (int k) ts tid)
      (\<lambda>rs q'. reads (?q\<lparr>mq_rls := set_tenant_context tid (mq_rls ?q)\<rparr>) q' \<and> length rs \<le> k \<and>
         (\<forall>x \<in> set rs. own_result tid (requested_types ts) (ms_items sv) x))
      (\<lambda>e q'. reads (?q\<lparr>mq_rls := set_tenant_context tid (mq_rls ?q)\<rparr>) q') ?q"
    by (rule wp_run_search [OF assms(1)]) (use assms(2) in \<open>simp_all add: mem_begin_def\<close>)
  have start: "(mem_begin byp sv)\<lparr>mq_sv := (mq_sv (mem_begin byp sv))\<lparr>ms_tick := Suc (ms_tick (mq_sv (mem_begin byp sv)))\<rparr>\<rparr> = ?q"
    and cache: "ms_cache (mq_sv ?q) = ms_cache sv" by (simp_all add: mem_begin_def)
  show ?thesis
    unfolding search_memory_def wp_with_mem_session wp_andthen wp_mem_tick wp_cache_ops start cache assms(3) option.case
    by (rule wp_mono [OF run])
      (auto simp: mem_publish_def missed_def reads_def mem_begin_def mem_commit_def)
qed

lemma search_memory_hit:
  assumes "r_get R (query_key E tid query ts) (ms_cache sv) = Some v" and "me_loads E v = Inr rs"
  shows "\<exists>lat sv'. search_memory byp R E query k ts tid sv = (Inr (rs, True, lat), sv')"
proof -
  have "wp (search_memory byp R E query k ts tid) (\<lambda>(rs', hit, lat) _. rs' = rs \<and> hit) (\<lambda>_ _. False) sv"
    unfolding search_memory_def wp_with_mem_session
    by (simp add: mem_begin_def assms mem_publish_def)
  then show ?thesis by (auto simp: wp_Inr)
qed

lemma missed_hits:
  assumes "redis_kv R view" and "0 < st_query_ttl (me_settings E)" and "me_loads E (me_dumps E rs) = Inr rs"
    and "missed R E query k ts tid sv0 rs sv" and "type_strs ts' = type_strs ts"
  shows "\<exists>lat sv'. search_memory byp R E query k' ts' tid (sv\<lparr>ms_items := items, ms_summaries := summaries\<rparr>) =
    (Inr (rs, True, lat), sv')"
proof -
  note get_setex = redis_kv.get_setex [OF assms(1)]
  have "query_key E tid query ts' = query_key E tid query ts" using assms(5) by (simp add: query_key_def)
  then have "r_get R (query_key E tid query ts') (ms_cache sv) = Some (me_dumps E rs)"
    using assms(2,4) by (auto simp: missed_def get_setex)
  then show ?thesis using assms(3) by (intro search_memory_hit) simp_all
qed

lemma finite_embed:
  assumes "redis_kv R view" and "0 < st_embedding_ttl (me_settings E)" and "finite (dom (view (ms_cache (mq_sv q))))"
  shows "wp (embed R E text model)
    (\<lambda>_ q'. reads q q' \<and> finite (dom (view (ms_cache (mq_sv q'))))) (\<lambda>_ q'. True) q"
proof -
  note setex_view = redis_kv.setex_view [OF assms(1)]
  show ?thesis
    using assms(2,3) by (auto simp: embed_def reads_def setex_view split: option.split sum.split list.split)
qed

text \<open>A store, up to its commit: the tenant's cached query results are gone, the tables still the old ones.\<close>

lemma store_body_effect:
  assumes "redis_kv R view" and "0 < st_embedding_ttl (me_settings E)" and "finite (dom (view (ms_cache sv)))"
    and "scan_ok view E"
  shows "wp (store_body R E content mt md ret' tid)
    (\<lambda>item q. mq_items q = ms_items sv @ [item] \<and> mq_summaries q = ms_summaries sv \<and>
       ms_items (mq_sv q) = ms_items sv \<and> ms_summaries (mq_sv q) = ms_summaries sv \<and> mi_tenant_id item = tid \<and>
       (\<forall>query ts. r_get R (query_key E tid query ts) (ms_cache (mq_sv q)) = None))
    (\<lambda>_ _. True) (mem_begin byp sv)"
proof -
  note get_view = redis_kv.get_view [OF assms(1)] and view_delete_batches = redis_kv.view_delete_batches [OF assms(1)]
  let ?q = "(mem_begin byp sv)\<lparr>mq_rls := set_tenant_context tid (mq_rls (mem_begin byp sv))\<rparr>"
  have gone: "view (delete_batches R (me_scan E (query_prefix tid @ ''*'') r) r) (query_key E tid query ts) = None"
    if "finite (dom (view r))" for r query ts
  proof (cases "view r (query_key E tid query ts) = None")
    case False
    with assms(4) that query_key_prefix [of tid E query ts] show ?thesis
      unfolding scan_ok_def view_delete_batches by metis
  qed (simp add: view_delete_batches)
  have "wp (embed R E content (st_default_model (me_settings E)))
      (\<lambda>_ q'. reads ?q q' \<and> finite (dom (view (ms_cache (mq_sv q'))))) (\<lambda>_ q'. True) ?q"
    using assms(3) by (intro finite_embed [OF assms(1,2)]) (simp add: mem_begin_def)
  then show ?thesis
    unfolding store_body_def wp_seq wp_cache_ops wp_andthen
    by (rule wp_mono)
      (auto simp: mem_publish_def invalidate_query_cache_def Let_def reads_def mem_begin_def get_view gone)
qed

lemma survivesD: "survives I m \<Longrightarrow> I s \<Longrightarrow> wp m (\<lambda>_. I) (\<lambda>_. I) s"
  by (simp add: survives_def)

context redis_kv
begin

lemma others_publish: "survives (others_kept R E tid c) (mem_publish E' t b)"
  unfolding mem_publish_def
  by (intro survives_andthen others_tick survives_modify) (simp add: others_kept_def)

lemma others_search_memory:
  assumes "0 < st_embedding_ttl (me_settings E)" and "0 < st_query_ttl (me_settings E)" and "tid' \<noteq> tid"
  shows "r_get R (query_key E tid' query' ts') (ms_cache (snd (search_memory byp R E query k ts tid sv))) =
    r_get R (query_key E tid' query' ts') (ms_cache sv)"
proof -
  let ?I = "others_kept R E tid (ms_cache sv)"
  have "query_key E t q s \<noteq> query_key E tid query ts" if "t \<noteq> tid" for t q s
    using query_prefix_inj [of tid E t q s] query_key_prefix [of tid E query ts] that by metis
  then have set: "survives ?I (cache_setex R (query_key E tid query ts) (st_query_ttl (me_settings E)) v)" for v
    unfolding cache_setex_def using assms(2)
    by (intro survives_modify) (auto simp: others_kept_def get_setex)
  have "survives ?I (andthen (mem_tick (me_time_ms E)) (\<lambda>start_ms.
      andthen (cache_get R (query_key E tid query ts)) (\<lambda>cached.
      case cached of
        Some v \<Rightarrow>
          andthen (mem_tick (me_time_ms E)) (\<lambda>end_ms.
          andthen (liftsum (me_loads E v)) (\<lambda>results.
          seq (mem_publish E tid (MemorySearched (me_sha256 E query) (length results) (end_ms - start_ms) True))
            (ret (results, True, end_ms - start_ms))))
      | None \<Rightarrow>
          andthen (run_search R E query k ts tid) (\<lambda>results.
          andthen (mem_tick (me_time_ms E)) (\<lambda>end_ms.
          seq (cache_setex R (query_key E tid query ts) (st_query_ttl (me_settings E)) (me_dumps E results))
            (seq (mem_publish E tid (MemorySearched (me_sha256 E query) (length results) (end_ms - start_ms) False))
              (ret (results, False, end_ms - start_ms))))))))"
    unfolding seq_def cache_get_def
    by (auto intro!: survives_andthen survives_basic others_tick set others_publish others_run_search [OF assms(1)]
        split: option.split)
  from survivesD [OF this, of "mem_begin byp sv"] have "wp (search_memory byp R E query k ts tid)
      (\<lambda>_ sv'. \<forall>t q s. t \<noteq> tid \<longrightarrow> r_get R (query_key E t q s) (ms_cache sv') = r_get R (query_key E t q s) (ms_cache sv))
      (\<lambda>_ sv'. \<forall>t q s. t \<noteq> tid \<longrightarrow> r_get R (query_key E t q s) (ms_cache sv') = r_get R (query_key E t q s) (ms_cache sv)) sv"
    unfolding search_memory_def wp_with_mem_session
    by (rule wp_mono) (simp_all add: others_kept_def mem_begin_def mem_commit_def)
  then show ?thesis using assms(3) by (simp add: wp_state)
qed

end

section \<open>Properties\<close>

text \<open>
  A service without items, whose provider embeds every text alike and whose results are cached
  as an empty list.
\<close>

definition sample_mem :: "keyspace mem_env" where
  "sample_mem = \<lparr>me_settings = default_mem_settings,
     me_providers = [(''text-embedding-3-small'', \<lambda>texts. Inr (map (\<lambda>_. [1]) texts))], me_sha256 = id,
     me_vec_dumps = (\<lambda>_. ''[1]''), me_vec_loads = (\<lambda>_. Inr [1]), me_dumps = (\<lambda>_. ''[]''), me_loads = (\<lambda>_. Inr []),
     me_distance = (\<lambda>_ _. 0), me_nearest = (\<lambda>_ es. [0..<length es]),
     me_scan = (\<lambda>p r. [sorted_list_of_set {k \<in> dom r. prefix (butlast p) k}]), me_now = id, me_time_ms = id,
     me_uuid = of_nat\<rparr>"

definition sample_mem_service :: "keyspace mem_service" where
  "sample_mem_service = \<lparr>ms_items = [], ms_summaries = [], ms_cache = (\<lambda>_. None), ms_sent = [], ms_background = [],
     ms_tick = 0\<rparr>"

lemma sample_mem_ok:
  "nearest_ok sample_mem" "mem_ok (ms_items sample_mem_service) (ms_summaries sample_mem_service)"
  "0 < st_query_ttl (me_settings sample_mem)" "0 < st_embedding_ttl (me_settings sample_mem)"
  "scan_ok (\<lambda>r. r) sample_mem"
  by (auto simp: nearest_ok_def sample_mem_def mem_ok_def sample_mem_service_def default_mem_settings_def scan_ok_def)

lemma sample_search:
  "\<exists>lat sv'. search_memory True mem_redis sample_mem ''q'' (int 3) None 7 sample_mem_service = (Inr ([], False, lat), sv')"
proof -
  have "wp (search_memory True mem_redis sample_mem ''q'' (int 3) None 7) (\<lambda>(rs, hit, lat) _. rs = [] \<and> \<not> hit)
      (\<lambda>_ _. False) sample_mem_service"
    unfolding search_memory_def wp_with_mem_session
    by (simp add: mem_begin_def sample_mem_service_def mem_redis_def run_search_def search_def mem_publish_def
        select_rows_def Let_def)
  then show ?thesis by (auto simp: wp_Inr)
qed

text \<open>
  C29: A search that is not answered from the cache returns at most as many results as asked for, each an
  item of the service that belongs to the tenant, is not compressed and has one of the requested types
  (so no summary is ever returned), and changes neither items nor summaries.
\<close>

lemma search_is_isolated:
  assumes "nearest_ok E" and "mem_ok (ms_items sv) (ms_summaries sv)"
    and "r_get R (query_key E tid query ts) (ms_cache sv) = None"
    and "search_memory byp R E query (int k) ts tid sv = (Inr (rs, hit, lat), sv')"
  shows "\<not> hit \<and> length rs \<le> k \<and> ms_items sv' = ms_items sv \<and> ms_summaries sv' = ms_summaries sv \<and>
    (\<forall>x \<in> set rs. sr_item x \<in> set (ms_items sv) \<and> mi_tenant_id (sr_item x) = tid \<and>
       \<not> mi_compressed (sr_item x) \<and> mi_memory_type (sr_item x) \<in> set (requested_types ts))"
  using wp_result [OF search_memory_miss [OF assms(1-3), of byp k] assms(4)]
  by (auto simp: missed_def own_result_def)

lemma search_is_isolated_witness:
  "\<exists>rs lat sv'. search_memory True mem_redis sample_mem ''q'' (int 3) None 7 sample_mem_service = (Inr (rs, False, lat), sv') \<and>
     length rs \<le> 3"
proof -
  have "r_get mem_redis (query_key sample_mem 7 ''q'' None) (ms_cache sample_mem_service) = None"
    by (simp add: mem_redis_def sample_mem_service_def)
  with sample_search search_is_isolated [OF sample_mem_ok(1,2), of mem_redis 7 "''q''" None True 3] show ?thesis by blast
qed

text \<open>
  After a search that missed the cache, every search of the tenant with the same query and types is
  answered with the same results from the cache, whatever number of results it asks for, and the cached
  results of all other tenants are untouched.
\<close>

lemma cached_search_ignores_top_k:
  assumes "redis_kv R view" and "0 < st_query_ttl (me_settings E)" and "0 < st_embedding_ttl (me_settings E)"
    and "nearest_ok E" and "mem_ok (ms_items sv) (ms_summaries sv)"
    and "r_get R (query_key E tid query ts) (ms_cache sv) = None"
    and "search_memory byp R E query (int k) ts tid sv = (Inr (rs, hit, lat), sv')"
    and "me_loads E (me_dumps E rs) = Inr rs"
  shows "(\<forall>byp' k' ts'. type_strs ts' = type_strs ts \<longrightarrow>
      (\<exists>lat' sv2. search_memory byp' R E query k' ts' tid sv' = (Inr (rs, True, lat'), sv2))) \<and>
    (\<forall>tid' query' ts'. tid' \<noteq> tid \<longrightarrow>
       r_get R (query_key E tid' query' ts') (ms_cache sv') = r_get R (query_key E tid' query' ts') (ms_cache sv))"
proof -
  note others_search_memory = redis_kv.others_search_memory [OF assms(1)]
  have "missed R E query k ts tid sv rs sv'"
    using wp_result [OF search_memory_miss [OF assms(4-6), of byp k] assms(7)] by simp
  from missed_hits [OF assms(1,2,8) this, where items = "ms_items sv'" and summaries = "ms_summaries sv'"]
  have "\<exists>lat' sv2. search_memory byp' R E query k' ts' tid sv' = (Inr (rs, True, lat'), sv2)"
    if "type_strs ts' = type_strs ts" for byp' k' ts' using that by simp
  moreover have "r_get R (query_key E tid' query' ts') (ms_cache sv') = r_get R (query_key E tid' query' ts') (ms_cache sv)"
    if "tid' \<noteq> tid" for tid' query' ts'
    using others_search_memory [OF assms(3,2) that, of query' ts' byp query "int k" ts sv] assms(7) by simp
  ultimately show ?thesis by blast
qed

lemma cached_search_ignores_top_k_witness:
  "\<exists>lat lat' sv' sv2. search_memory True mem_redis sample_mem ''q'' (int 3) None 7 sample_mem_service =
      (Inr ([], False, lat), sv') \<and>
    search_memory False mem_redis sample_mem ''q'' 99 (Some []) 7 sv' = (Inr ([], True, lat'), sv2)"
proof -
  from sample_search obtain lat sv' where miss: "search_memory True mem_redis sample_mem ''q'' (int 3) None 7 sample_mem_service =
      (Inr ([], False, lat), sv')" by blast
  have empty: "r_get mem_redis (query_key sample_mem 7 ''q'' None) (ms_cache sample_mem_service) = None"
    and law: "me_loads sample_mem (me_dumps sample_mem []) = Inr []" and types: "type_strs (Some []) = type_strs None"
    by (simp_all add: mem_redis_def sample_mem_service_def sample_mem_def type_strs_def)
  from cached_search_ignores_top_k [OF mem.redis_kv_axioms sample_mem_ok(3,4,1,2) empty miss law] types miss
  show ?thesis by blast
qed

text \<open>
  Storing invalidates the query cache before its transaction commits. A search that runs in between
  does not see the new item, its results are cached, and after the commit every search of the tenant
  with the same query and types is answered with these results, without the stored item.
\<close>

lemma store_leaves_stale_results:
  assumes "redis_kv R view" and "0 < st_query_ttl (me_settings E)" and "0 < st_embedding_ttl (me_settings E)"
    and "nearest_ok E" and "mem_ok (ms_items sv) (ms_summaries sv)" and "scan_ok view E"
    and "finite (dom (view (ms_cache sv)))"
    and "store_body R E content mt md retention tid (mem_begin byp sv) = (Inr item, q)"
    and "mi_id item \<notin> mi_id ` set (ms_items sv)"
    and "search_memory byp R E query (int k) ts tid (mq_sv q) = (Inr (rs, hit, lat), sv1)"
    and "me_loads E (me_dumps E rs) = Inr rs"
  shows "item \<in> set (ms_items (mem_commit q sv1)) \<and> (\<forall>x \<in> set rs. mi_id (sr_item x) \<noteq> mi_id item) \<and>
    (\<forall>byp' k' ts'. type_strs ts' = type_strs ts \<longrightarrow>
      (\<exists>lat' sv2. search_memory byp' R E query k' ts' tid (mem_commit q sv1) = (Inr (rs, True, lat'), sv2)))"
proof -
  have q: "mq_items q = ms_items sv @ [item]" "ms_items (mq_sv q) = ms_items sv" "ms_summaries (mq_sv q) = ms_summaries sv"
    "r_get R (query_key E tid query ts) (ms_cache (mq_sv q)) = None"
    using wp_result [OF store_body_effect [OF assms(1,3,7,6), of content mt md retention tid byp] assms(8)] by simp_all
  have "mem_ok (ms_items (mq_sv q)) (ms_summaries (mq_sv q))" using assms(5) q by simp
  from wp_result [OF search_memory_miss [OF assms(4) this q(4), of byp k] assms(10)]
  have missed: "missed R E query k ts tid (mq_sv q) rs sv1" by simp
  then have "\<forall>x \<in> set rs. sr_item x \<in> set (ms_items sv)" by (simp add: missed_def own_result_def q)
  then have "\<forall>x \<in> set rs. mi_id (sr_item x) \<noteq> mi_id item" using assms(9) by (metis image_eqI)
  moreover have "item \<in> set (ms_items (mem_commit q sv1))" by (simp add: mem_commit_def q)
  moreover have "\<exists>lat' sv2. search_memory byp' R E query k' ts' tid (mem_commit q sv1) = (Inr (rs, True, lat'), sv2)"
    if "type_strs ts' = type_strs ts" for byp' k' ts'
    using missed_hits [OF assms(1,2,11) missed that, where byp = byp' and k' = k' and items = "mq_items q" and summaries = "mq_summaries q"]
    by (simp add: mem_commit_def)
  ultimately show ?thesis by blast
qed

lemma store_leaves_stale_results_witness:
  "\<exists>item q lat sv1. store_body mem_redis sample_mem ''fact'' SEMANTIC [] ''90d'' 7 (mem_begin True sample_mem_service) = (Inr item, q) \<and>
     item \<in> set (ms_items (mem_commit q sv1)) \<and>
     (\<exists>sv2. search_memory True mem_redis sample_mem ''q'' 5 None 7 (mem_commit q sv1) = (Inr ([], True, lat), sv2))"
proof -
  have "wp (store_body mem_redis sample_mem ''fact'' SEMANTIC [] ''90d'' 7) (\<lambda>_ _. True) (\<lambda>_ _. False) (mem_begin True sample_mem_service)"
    by (simp add: store_body_def embed_def mem_redis_def sample_mem_service_def sample_mem_def mem_begin_def mem_publish_def
        invalidate_query_cache_def default_mem_settings_def registry_embed_def registry_get_def Let_def)
  then obtain item q where store: "store_body mem_redis sample_mem ''fact'' SEMANTIC [] ''90d'' 7 (mem_begin True sample_mem_service) = (Inr item, q)"
    by (auto simp: wp_Inr)
  have fin: "finite (dom (ms_cache sample_mem_service))" and new: "mi_id item \<notin> mi_id ` set (ms_items sample_mem_service)"
    and law: "me_loads sample_mem (me_dumps sample_mem rs) = Inr []" for rs
    by (simp_all add: sample_mem_service_def sample_mem_def)
  have q: "ms_items (mq_sv q) = []" "ms_summaries (mq_sv q) = []"
      "r_get mem_redis (query_key sample_mem 7 ''q'' None) (ms_cache (mq_sv q)) = None"
    using wp_result [OF store_body_effect [OF mem.redis_kv_axioms sample_mem_ok(4) fin sample_mem_ok(5)] store]
    by (simp_all add: sample_mem_service_def)
  have "wp (search_memory True mem_redis sample_mem ''q'' (int 3) None 7) (\<lambda>(rs, hit, lat) _. rs = []) (\<lambda>_ _. False) (mq_sv q)"
    unfolding search_memory_def wp_with_mem_session
    by (simp add: mem_begin_def q run_search_def search_def mem_publish_def select_rows_def Let_def)
  then obtain lat hit sv1 where "search_memory True mem_redis sample_mem ''q'' (int 3) None 7 (mq_sv q) = (Inr ([], hit, lat), sv1)"
    by (auto simp: wp_Inr)
  from store_leaves_stale_results [OF mem.redis_kv_axioms sample_mem_ok(3,4,1,2,5) fin store new this law] store
  show ?thesis by blast
qed

end
