(* ===== verification/Memory_Compress.thy ===== *)
theory Memory_Compress
  imports Memory_Search
begin

text \<open>
  The nightly compression of the memory service: \<open>compression/compressor.py\<close>,
  \<open>compression/archiver.py\<close> and \<open>tasks/compress.py\<close>. The language model's HTTP interface and the
  object store are fields of \<open>comp_env\<close>. The state is the memory service with the objects stored so far.
\<close>

record comp_env =
  ce_llm :: "json \<Rightarrow> exn + json"
  ce_llm_model :: string
  ce_str :: "json \<Rightarrow> string"
  ce_s3_client :: "exn + unit"
  ce_put :: "string \<Rightarrow> json \<Rightarrow> exn option"
  ce_prefix :: string
  ce_year :: "nat \<Rightarrow> nat"
  ce_month :: "nat \<Rightarrow> nat"
  ce_isoformat :: "nat \<Rightarrow> string"

type_synonym archive = "(string \<times> json) list"

type_synonym 'r comp_state = "'r mem_request \<times> archive"

definition on_request :: "('r mem_request, 'a) py \<Rightarrow> ('r comp_state, 'a) py" where
  "on_request m = (\<lambda>(q, arch). case m q of (res, q') \<Rightarrow> (res, (q', arch)))"

section \<open>Summaries\<close>

definition json_key :: "string \<Rightarrow> json \<Rightarrow> exn + json" where
  "json_key k j =
     (case j of
        JObj d \<Rightarrow> (case map_of d k of None \<Rightarrow> Inl (PyKeyError k) | Some v \<Rightarrow> Inr v)
      | _ \<Rightarrow> Inl (PyTypeError ''indices must be integers''))"

definition json_first :: "json \<Rightarrow> exn + json" where
  "json_first j =
     (case j of
        JList [] \<Rightarrow> Inl (LibraryError ''list index out of range'')
      | JList (x # _) \<Rightarrow> Inr x
      | JStr [] \<Rightarrow> Inl (LibraryError ''string index out of range'')
      | JStr (c # _) \<Rightarrow> Inr (JStr [c])
      | JObj _ \<Rightarrow> Inl (PyKeyError ''0'')
      | _ \<Rightarrow> Inl (PyTypeError ''object is not subscriptable''))"

definition llm_request :: "string \<Rightarrow> string \<Rightarrow> json" where
  "llm_request model content = JObj
     [(''model'', JStr model),
      (''messages'', JList
         [JObj [(''role'', JStr ''system''),
                (''content'', JStr ''Summarize the following memories concisely, preserving key facts, decisions, and patterns.'')],
          JObj [(''role'', JStr ''user''), (''content'', JStr content)]]),
      (''max_tokens'', JInt 500)]"

definition summarize :: "comp_env \<Rightarrow> string \<Rightarrow> exn + string" where
  "summarize C content =
     (case ce_llm C (llm_request (ce_llm_model C) content) of
        Inl e \<Rightarrow> Inl e
      | Inr data \<Rightarrow>
          (case json_key ''choices'' data of
             Inl e \<Rightarrow> Inl e
           | Inr choices \<Rightarrow>
               (case json_first choices of
                  Inl e \<Rightarrow> Inl e
                | Inr choice \<Rightarrow>
                    (case json_key ''message'' choice of
                       Inl e \<Rightarrow> Inl e
                     | Inr message \<Rightarrow>
                         (case json_key ''content'' message of
                            Inl e \<Rightarrow> Inl e
                          | Inr (JStr s) \<Rightarrow> Inr s
                          | Inr v \<Rightarrow> Inr (ce_str C v))))))"

section \<open>Archive\<close>

definition two_digits :: "nat \<Rightarrow> string" where
  "two_digits n = (if n < 10 then ''0'' @ str_nat n else str_nat n)"

definition archive_key :: "comp_env \<Rightarrow> nat \<Rightarrow> uuid \<Rightarrow> uuid \<Rightarrow> string" where
  "archive_key C now tid sid =
     ce_prefix C @ ''/'' @ uuid_str tid @ ''/'' @ str_nat (ce_year C now) @ ''/'' @ two_digits (ce_month C now) @
     ''/'' @ uuid_str sid @ ''.json''"

definition archived_item :: "comp_env \<Rightarrow> mem_item \<Rightarrow> json" where
  "archived_item C i = JObj
     [(''id'', JStr (uuid_str (mi_id i))), (''memory_type'', JStr (mi_memory_type i)), (''content'', JStr (mi_content i)),
      (''embedding_model'', JStr (mi_embedding_model i)), (''metadata'', JObj (mi_extra_metadata i)),
      (''created_at'', JStr (ce_isoformat C (mi_created_at i)))]"

definition archive_items ::
  "'r mem_env \<Rightarrow> comp_env \<Rightarrow> uuid \<Rightarrow> uuid \<Rightarrow> mem_item list \<Rightarrow> ('r comp_state, string) py" where
  "archive_items E C tid sid items =
     andthen (on_request (mem_tick (me_now E))) (\<lambda>now.
     let key = archive_key C now tid sid;
         body = JObj [(''summary_id'', JStr (uuid_str sid)), (''tenant_id'', JStr (uuid_str tid)),
                      (''archived_at'', JStr (ce_isoformat C now)), (''items'', JList (map (archived_item C) items))]
     in case ce_put C key body of
          Some e \<Rightarrow> throw e
        | None \<Rightarrow> seq (modify (\<lambda>(q, arch). (q, arch @ [(key, body)]))) (ret key))"

section \<open>Compression\<close>

definition old_item :: "mem_settings \<Rightarrow> nat \<Rightarrow> uuid \<Rightarrow> mem_item \<Rightarrow> bool" where
  "old_item st now tid r \<longleftrightarrow> mi_tenant_id r = tid \<and> \<not> mi_compressed r \<and>
     int (mi_created_at r) < int now - 86400 * int (st_threshold_days st) \<and> mi_retention_policy r \<noteq> ''forever''"

definition old_batch :: "mem_settings \<Rightarrow> nat \<Rightarrow> uuid \<Rightarrow> mem_item list \<Rightarrow> mem_item list" where
  "old_batch st now tid items =
     take (st_batch_size st) (sort_key mi_created_at (filter (old_item st now tid) items))"

definition combined_text :: "mem_item list \<Rightarrow> string" where
  "combined_text items =
     join ([CHR 0x0A, CHR 0x0A] @ ''---'' @ [CHR 0x0A, CHR 0x0A])
       (map (\<lambda>i. ''['' @ mi_memory_type i @ ''] '' @ mi_content i) items)"

definition compress_tenant ::
  "'r redis_ops \<Rightarrow> 'r mem_env \<Rightarrow> comp_env \<Rightarrow> uuid \<Rightarrow> ('r comp_state, nat) py" where
  "compress_tenant R E C tid =
     andthen (on_request (mem_tick (me_now E))) (\<lambda>now.
     andthen (gets (\<lambda>(q, _). old_batch (me_settings E) now tid (mq_items q))) (\<lambda>items.
     if items = [] then ret 0
     else
       andthen (liftsum (summarize C (combined_text items))) (\<lambda>summary_text.
       andthen (on_request (embed R E summary_text (st_default_model (me_settings E)))) (\<lambda>vector.
       andthen (on_request (mem_tick (me_uuid E))) (\<lambda>sid.
       andthen (on_request (mem_tick (me_now E))) (\<lambda>created.
       let summary = \<lparr>sm_id = sid, sm_tenant_id = tid, sm_summary = summary_text,
             sm_original_ids = map mi_id items, sm_embedding = vector,
             sm_embedding_model = st_default_model (me_settings E), sm_created_at = created\<rparr>
       in seq (on_request (modify (\<lambda>q. q\<lparr>mq_summaries := mq_summaries q @ [summary]\<rparr>)))
         (seq (liftsum (ce_s3_client C))
         (seq (tryexcept (seq (archive_items E C tid sid items) (ret ())) (\<lambda>_. ret ()))
         (seq (on_request (modify (\<lambda>q. q\<lparr>mq_items :=
              update_rows (\<lambda>r. mi_id r \<in> mi_id ` set items) (\<lambda>r. r\<lparr>mi_compressed := True\<rparr>) (mq_items q)\<rparr>)))
           (ret (length items)))))))))))"

text \<open>
  The session of one tenant: with \<open>row_security = off\<close> the server refuses a query that a policy
  would restrict. Objects in the store are not rolled back.
\<close>

definition row_security_off :: "bool \<Rightarrow> exn + unit" where
  "row_security_off byp =
     (if byp then Inr () else Inl (LibraryError ''query would be affected by row-level security policy''))"

definition comp_session ::
  "bool \<Rightarrow> ('r comp_state, 'a) py \<Rightarrow> ('r mem_service \<times> archive, 'a) py" where
  "comp_session byp body = (\<lambda>(sv, arch).
     case seq (liftsum (row_security_off byp)) body (mem_begin byp sv, arch) of
       (Inr a, (q, arch')) \<Rightarrow> (Inr a, (mem_commit q (mq_sv q), arch'))
     | (Inl e, (q, arch')) \<Rightarrow> (Inl e, (mq_sv q, arch')))"

fun compress_each ::
  "bool \<Rightarrow> 'r redis_ops \<Rightarrow> 'r mem_env \<Rightarrow> comp_env \<Rightarrow> uuid list \<Rightarrow> ('r mem_service \<times> archive, unit) py" where
  "compress_each byp R E C [] = ret ()"
| "compress_each byp R E C (tid # tids) =
     seq (tryexcept (seq (comp_session byp (compress_tenant R E C tid)) (ret ())) (\<lambda>_. ret ()))
       (compress_each byp R E C tids)"

definition compress_all ::
  "bool \<Rightarrow> 'r redis_ops \<Rightarrow> 'r mem_env \<Rightarrow> comp_env \<Rightarrow> ('r mem_service \<times> archive, unit) py" where
  "compress_all byp R E C =
     andthen (comp_session byp
       (andthen (on_request (mem_tick (me_now E))) (\<lambda>now.
        gets (\<lambda>(q, _). remdups (map mi_tenant_id
          (filter (\<lambda>r. old_item (me_settings E) now (mi_tenant_id r) r) (mq_items q))))))) (\<lambda>tids.
     compress_each byp R E C tids)"

section \<open>What a pass does to a tenant\<close>

lemma wp_on_request [simp]:
  "wp (on_request m) Q X (q, arch) = wp m (\<lambda>a q'. Q a (q', arch)) (\<lambda>e q'. X e (q', arch)) q"
  by (simp add: on_request_def wp_def split: prod.split sum.split)

lemma wp_comp_session:
  "wp (comp_session byp body) Q X (sv, arch) =
     (if byp then wp body (\<lambda>a (q, arch'). Q a (mem_commit q (mq_sv q), arch')) (\<lambda>e (q, arch'). X e (mq_sv q, arch'))
        (mem_begin byp sv, arch)
      else X (LibraryError ''query would be affected by row-level security policy'') (sv, arch))"
  by (simp add: comp_session_def wp_def row_security_off_def mem_begin_def split: prod.split sum.split)

lemma archive_effect:
  "(\<And>arch' q'. reads q q' \<Longrightarrow> Q () (q', arch')) \<Longrightarrow>
   wp (tryexcept (seq (archive_items E C tid sid items) (ret ())) (\<lambda>_. ret ())) Q X (q, arch)"
  by (auto simp: archive_items_def Let_def reads_def split: option.split)

lemma compress_tenant_effect:
  fixes E :: "'r mem_env" and q :: "'r mem_request" and tid :: uuid
  defines "batch \<equiv> old_batch (me_settings E) (me_now E (ms_tick (mq_sv q))) tid (mq_items q)"
  shows "wp (compress_tenant R E C tid)
     (\<lambda>n (q', arch'). n = length batch \<and>
        mq_items q' = update_rows (\<lambda>r. mi_id r \<in> mi_id ` set batch) (\<lambda>r. r\<lparr>mi_compressed := True\<rparr>) (mq_items q) \<and>
        (if batch = [] then mq_summaries q' = mq_summaries q
         else \<exists>s t. mq_summaries q' = mq_summaries q @ [s] \<and> sm_id s = me_uuid E t \<and> sm_tenant_id s = tid \<and>
           sm_original_ids s = map mi_id batch))
     (\<lambda>e (q', _). ms_items (mq_sv q') = ms_items (mq_sv q) \<and> ms_summaries (mq_sv q') = ms_summaries (mq_sv q)) (q, arch)"
proof (cases "batch = []")
  case True
  then show ?thesis
    by (simp add: compress_tenant_def batch_def update_rows_def)
next
  case False
  then show ?thesis
    unfolding compress_tenant_def wp_andthen wp_on_request wp_mem_tick wp_gets prod.case
    apply (simp add: batch_def [symmetric] del: wp_tryexcept split del: if_split)
    apply (cases "summarize C (combined_text batch)"; simp del: wp_tryexcept split del: if_split)
    apply (rule wp_embed)
     apply (cases "ce_s3_client C"; simp add: Let_def del: wp_tryexcept split del: if_split)
      apply (simp add: reads_def)
     apply (rule archive_effect)
     apply (auto simp: reads_def)
    done
qed

section \<open>Properties\<close>

lemma old_batch_mem:
  assumes "r \<in> set (old_batch st now tid items)"
  shows "r \<in> set items \<and> old_item st now tid r"
  using in_set_takeD [OF assms [unfolded old_batch_def]] by simp

lemma comp_session_effect:
  fixes sv :: "'r mem_service" and E :: "'r mem_env" and tid :: uuid
  defines "b \<equiv> old_batch (me_settings E) (me_now E (ms_tick sv)) tid (ms_items sv)"
  assumes "comp_session True (compress_tenant R E C tid) (sv, arch) = (Inr n, (sv', arch'))"
  shows "n = length b"
    and "ms_items sv' = update_rows (\<lambda>r. mi_id r \<in> mi_id ` set b) (\<lambda>r. r\<lparr>mi_compressed := True\<rparr>) (ms_items sv)"
    and "if b = [] then ms_summaries sv' = ms_summaries sv
      else \<exists>s t. ms_summaries sv' = ms_summaries sv @ [s] \<and> sm_id s = me_uuid E t \<and> sm_tenant_id s = tid \<and>
        sm_original_ids s = map mi_id b"
proof -
  have "wp (comp_session True (compress_tenant R E C tid))
      (\<lambda>n (sv', _). n = length b \<and>
        ms_items sv' = update_rows (\<lambda>r. mi_id r \<in> mi_id ` set b) (\<lambda>r. r\<lparr>mi_compressed := True\<rparr>) (ms_items sv) \<and>
        (if b = [] then ms_summaries sv' = ms_summaries sv
         else \<exists>s t. ms_summaries sv' = ms_summaries sv @ [s] \<and> sm_id s = me_uuid E t \<and> sm_tenant_id s = tid \<and>
           sm_original_ids s = map mi_id b))
      (\<lambda>_ _. True) (sv, arch)"
    unfolding wp_comp_session if_True b_def
    by (rule wp_mono [OF compress_tenant_effect]) (auto simp: mem_commit_def mem_begin_def split: if_splits)
  from wp_result [OF this assms(2)] show "n = length b"
    "ms_items sv' = update_rows (\<lambda>r. mi_id r \<in> mi_id ` set b) (\<lambda>r. r\<lparr>mi_compressed := True\<rparr>) (ms_items sv)"
    "if b = [] then ms_summaries sv' = ms_summaries sv
     else \<exists>s t. ms_summaries sv' = ms_summaries sv @ [s] \<and> sm_id s = me_uuid E t \<and> sm_tenant_id s = tid \<and>
       sm_original_ids s = map mi_id b" by (auto split: if_splits)
qed

text \<open>A language model that answers every request with the same summary, and a store that fails.\<close>

definition sample_comp :: comp_env where
  "sample_comp = \<lparr>ce_llm = (\<lambda>_. Inr (JObj [(''choices'', JList [JObj [(''message'', JObj [(''content'', JStr ''s'')])]])])),
     ce_llm_model = ''gpt-4o-mini'', ce_str = (\<lambda>_. []), ce_s3_client = Inr (),
     ce_put = (\<lambda>_ _. Some (LibraryError ''S3'')), ce_prefix = ''memories'', ce_year = id, ce_month = id,
     ce_isoformat = str_nat\<rparr>"

definition sample_item :: mem_item where
  "sample_item = \<lparr>mi_id = 2, mi_tenant_id = 7, mi_memory_type = ''semantic'', mi_content = ''c'', mi_embedding = [1],
     mi_embedding_model = ''text-embedding-3-small'', mi_extra_metadata = [], mi_created_at = 0, mi_accessed_at = 0,
     mi_access_count = 0, mi_retention_policy = ''90d'', mi_compressed = False\<rparr>"



end
