(* ===== verification/Memory_Api.thy ===== *)
theory Memory_Api
  imports Json_Body Memory_Compress Event_Dispatch Core_Middleware
begin

text \<open>
  The surface of the memory service: what \<open>schemas/memory.py\<close> accepts and answers, the tenant
  dependency of \<open>routes/memory.py\<close>, and its routes from the JSON body to the JSON of the response.
  The times in a response are written by \<open>isof\<close>.
\<close>

section \<open>The caller\<close>

definition mem_get_tenant_id :: "string \<Rightarrow> string \<Rightarrow> uuid \<Rightarrow> exn + uuid" where
  "mem_get_tenant_id internal_auth_token x_internal_token x_tenant_id =
     (case verify_internal_token x_internal_token internal_auth_token of
        Inl (InternalAuthError m) \<Rightarrow> Inl (HTTPException 401 m)
      | Inl e \<Rightarrow> Inl e
      | Inr _ \<Rightarrow> Inr x_tenant_id)"

lemma mem_get_tenant_id_same: "mem_get_tenant_id = tenant_id_from_header"
  by (intro ext) (simp add: mem_get_tenant_id_def tenant_id_from_header_def)

section \<open>Request bodies\<close>

fun read_memory_type :: "memory_type reader" where
  "read_memory_type (JStr s) = parse_memory_type s"
| "read_memory_type _ = None"

record item_create =
  ic_content :: string
  ic_memory_type :: memory_type
  ic_extra_metadata :: variables
  ic_retention_policy :: string

definition parse_item_create :: "item_create reader" where
  "parse_item_create body =
     Option.bind (read_dict body) (\<lambda>d.
     Option.bind (field read_str None ''content'' d) (\<lambda>content.
     Option.bind (field read_memory_type None ''memory_type'' d) (\<lambda>mtype.
     Option.bind (field read_dict (Some []) ''extra_metadata'' d) (\<lambda>metadata.
     Option.bind (field read_str (Some ''90d'') ''retention_policy'' d) (\<lambda>retention.
       Some \<lparr>ic_content = content, ic_memory_type = mtype, ic_extra_metadata = metadata,
             ic_retention_policy = retention\<rparr>)))))"

record search_request =
  sq_query :: string
  sq_top_k :: int
  sq_memory_types :: "memory_type list option"

definition parse_search_request :: "(string \<Rightarrow> int option) \<Rightarrow> search_request reader" where
  "parse_search_request num body =
     Option.bind (read_dict body) (\<lambda>d.
     Option.bind (field read_str None ''query'' d) (\<lambda>query.
     Option.bind (field (read_int num) (Some 5) ''top_k'' d) (\<lambda>top_k.
     Option.bind (field (read_optional (read_list read_memory_type)) (Some None) ''memory_types'' d) (\<lambda>types.
       Some \<lparr>sq_query = query, sq_top_k = top_k, sq_memory_types = types\<rparr>))))"

section \<open>Responses\<close>

text \<open>The fields of an item that a client sees: the embedding is not among them.\<close>

definition item_response :: "(nat \<Rightarrow> string) \<Rightarrow> mem_item \<Rightarrow> json" where
  "item_response isof r = JObj
     [(''id'', JStr (uuid_str (mi_id r))), (''tenant_id'', JStr (uuid_str (mi_tenant_id r))),
      (''memory_type'', JStr (mi_memory_type r)), (''content'', JStr (mi_content r)),
      (''embedding_model'', JStr (mi_embedding_model r)), (''extra_metadata'', JObj (mi_extra_metadata r)),
      (''created_at'', JStr (isof (mi_created_at r))), (''accessed_at'', JStr (isof (mi_accessed_at r))),
      (''access_count'', JInt (int (mi_access_count r))), (''retention_policy'', JStr (mi_retention_policy r)),
      (''compressed'', JBool (mi_compressed r))]"

record search_response =
  sp_results :: "(json \<times> real \<times> real) list"
    \<comment> \<open>item, score, similarity\<close>
  sp_cache_hit :: bool
  sp_latency_ms :: nat

definition search_response_of :: "(nat \<Rightarrow> string) \<Rightarrow> search_result list \<times> bool \<times> nat \<Rightarrow> search_response" where
  "search_response_of isof r =
     (case r of (results, hit, latency) \<Rightarrow>
        \<lparr>sp_results = map (\<lambda>x. (item_response isof (sr_item x), sr_score x, sr_similarity x)) results,
         sp_cache_hit = hit, sp_latency_ms = latency\<rparr>)"

section \<open>The routes\<close>

definition post_item ::
  "bool \<Rightarrow> 'r redis_ops \<Rightarrow> 'r mem_env \<Rightarrow> (nat \<Rightarrow> string) \<Rightarrow> exn + uuid \<Rightarrow> json \<Rightarrow> ('r mem_service, json) py" where
  "post_item byp R E isof caller body =
     admitted caller (parse_item_create body) (\<lambda>tid b.
       andthen (store_memory byp R E (ic_content b) (ic_memory_type b) (ic_extra_metadata b) (ic_retention_policy b) tid)
         (\<lambda>item. ret (item_response isof item)))"

definition get_item ::
  "bool \<Rightarrow> (nat \<Rightarrow> string) \<Rightarrow> exn + uuid \<Rightarrow> uuid \<Rightarrow> ('r mem_service, json) py" where
  "get_item byp isof caller item_id =
     admitted caller (Some ()) (\<lambda>tid _.
       andthen (get_memory_item byp item_id tid) (\<lambda>item. ret (item_response isof item)))"

definition delete_item ::
  "bool \<Rightarrow> 'r redis_ops \<Rightarrow> 'r mem_env \<Rightarrow> exn + uuid \<Rightarrow> uuid \<Rightarrow> ('r mem_service, unit) py" where
  "delete_item byp R E caller item_id =
     admitted caller (Some ()) (\<lambda>tid _. forget_memory byp R E item_id tid)"

definition post_search ::
  "bool \<Rightarrow> 'r redis_ops \<Rightarrow> 'r mem_env \<Rightarrow> (nat \<Rightarrow> string) \<Rightarrow> (string \<Rightarrow> int option) \<Rightarrow> exn + uuid \<Rightarrow> json \<Rightarrow>
     ('r mem_service, search_response) py" where
  "post_search byp R E isof num caller body =
     admitted caller (parse_search_request num body) (\<lambda>tid b.
       andthen (search_memory byp R E (sq_query b) (sq_top_k b) (sq_memory_types b) tid)
         (\<lambda>r. ret (search_response_of isof r)))"

section \<open>What reaches the handlers\<close>

lemma mem_get_tenant_id_Inr: "mem_get_tenant_id expected token t = Inr tid \<Longrightarrow> tid = t"
  by (auto simp: mem_get_tenant_id_def split: sum.splits exn.splits)

text \<open>No response carries the embedding.\<close>

lemma response_hides_embedding:
  "json_key ''embedding'' (item_response isof r) = Inl (PyKeyError ''embedding'')"
  "item_response isof (r\<lparr>mi_embedding := v\<rparr>) = item_response isof r"
  by (simp_all add: item_response_def json_key_def)

section \<open>A stored item\<close>

text \<open>What a store that succeeds has committed.\<close>

definition stored_as :: "'r mem_env \<Rightarrow> item_create \<Rightarrow> uuid \<Rightarrow> mem_item \<Rightarrow> bool" where
  "stored_as E c tid item \<longleftrightarrow> mi_tenant_id item = tid \<and> mi_content item = ic_content c \<and>
     mi_memory_type item = memory_type_value (ic_memory_type c) \<and> mi_extra_metadata item = ic_extra_metadata c \<and>
     mi_retention_policy item = ic_retention_policy c \<and> \<not> mi_compressed item \<and> (\<exists>n. mi_id item = me_uuid E n)"

lemma store_memory_effect:
  "wp (store_memory byp R E (ic_content c) (ic_memory_type c) (ic_extra_metadata c) (ic_retention_policy c) tid)
     (\<lambda>item sv'. stored_as E c tid item \<and> ms_items sv' = ms_items sv @ [item]) (\<lambda>_ _. True) sv"
proof -
  let ?q = "(mem_begin byp sv)\<lparr>mq_rls := set_tenant_context tid (mq_rls (mem_begin byp sv))\<rparr>"
  have "wp (embed R E (ic_content c) (st_default_model (me_settings E))) (\<lambda>_ q'. reads ?q q') (\<lambda>_ q'. True) ?q"
    by (rule wp_embed) simp_all
  then show ?thesis
    unfolding store_memory_def wp_with_mem_session store_body_def wp_seq wp_cache_ops wp_andthen
    by (rule wp_mono)
      (auto simp: mem_publish_def invalidate_query_cache_def Let_def reads_def mem_begin_def mem_commit_def stored_as_def)
qed

lemma rows_of_tenant:
  "select_rows (set_tenant_context tid c) mi_tenant_id (\<lambda>r. mi_id r = iid \<and> mi_tenant_id r = tid) rows =
     filter (\<lambda>r. mi_id r = iid \<and> mi_tenant_id r = tid) rows"
  by (auto simp: select_rows_def tenant_isolation_def set_tenant_context_def intro: filter_cong)

definition one_row :: "'a list \<Rightarrow> exn + 'a" where
  "one_row rows =
     (case rows of
        [] \<Rightarrow> Inl (HTTPException 404 ''Memory item not found'')
      | [r] \<Rightarrow> Inr r
      | _ \<Rightarrow> Inl (LibraryError ''MultipleResultsFound''))"

lemma get_memory_item_row:
  "get_memory_item byp iid tid sv = (one_row (filter (\<lambda>r. mi_id r = iid \<and> mi_tenant_id r = tid) (ms_items sv)), sv)"
  by (simp add: get_memory_item_def with_mem_session_def mem_tenant_def find_item_def seq_def andthen_def mem_begin_def
      mem_commit_def rows_of_tenant one_row_def split: list.split)

lemma forget_memory_rows:
  assumes "filter (\<lambda>r. mi_id r = iid \<and> mi_tenant_id r = tid) (ms_items sv) = [item]"
  shows "\<exists>sv'. forget_memory byp R E iid tid sv = (Inr (), sv') \<and>
    ms_items sv' = filter (\<lambda>r. mi_id r \<noteq> iid) (ms_items sv)"
proof -
  have "item \<in> set (filter (\<lambda>r. mi_id r = iid \<and> mi_tenant_id r = tid) (ms_items sv))" using assms by simp
  then have "mi_id item = iid" by simp
  with assms show ?thesis
    by (simp add: forget_memory_def with_mem_session_def mem_tenant_def find_item_def seq_def andthen_def mem_begin_def
        mem_commit_def rows_of_tenant invalidate_query_cache_def Let_def)
qed

text \<open>A search through the API that is not answered from the cache shows rows of the caller only.\<close>

lemma post_search_own_rows:
  assumes "nearest_ok E" and "mem_ok (ms_items sv) (ms_summaries sv)"
    and "parse_search_request num body = Some b" and "sq_top_k b = int k"
    and "r_get R (query_key E tid (sq_query b) (sq_memory_types b)) (ms_cache sv) = None"
    and "post_search byp R E isof num (mem_get_tenant_id expected token tid) body sv = (Inr resp, sv')"
  shows "\<not> sp_cache_hit resp \<and> length (sp_results resp) \<le> k \<and>
    (\<forall>(j, _, _) \<in> set (sp_results resp). json_key ''tenant_id'' j = Inr (JStr (uuid_str tid)))"
proof -
  obtain rs hit lat where "search_memory byp R E (sq_query b) (int k) (sq_memory_types b) tid sv = (Inr (rs, hit, lat), sv')"
      and resp: "resp = search_response_of isof (rs, hit, lat)"
    using assms(3,4,6) by (auto simp: post_search_def admitted_Inr andthen_ret_Inr dest!: mem_get_tenant_id_Inr)
  from wp_result [OF search_memory_miss [OF assms(1,2,5), of byp k] this(1)] show ?thesis
    by (auto simp: resp search_response_of_def missed_def own_result_def item_response_def json_key_def)
qed

section \<open>Properties\<close>

text \<open>
  C30: An item stored through the API is answered with the values of the request's body; its tenant reads
  the same JSON under the answered id, every other tenant gets a 404; deleting it restores the items of
  before the store, and then its own tenant gets a 404 as well.
\<close>

lemma stored_item_is_read_back:
  assumes "post_item byp R E isof (mem_get_tenant_id expected token tid) body sv = (Inr j, sv1)"
    and "\<And>n. me_uuid E n \<notin> mi_id ` set (ms_items sv)" and "tid' \<noteq> tid"
  shows "\<exists>iid c sv2. parse_item_create body = Some c \<and> json_key ''id'' j = Inr (JStr (uuid_str iid)) \<and>
    json_key ''content'' j = Inr (JStr (ic_content c)) \<and>
    json_key ''memory_type'' j = Inr (JStr (memory_type_value (ic_memory_type c))) \<and>
    json_key ''extra_metadata'' j = Inr (JObj (ic_extra_metadata c)) \<and>
    get_item byp isof (mem_get_tenant_id expected token tid) iid sv1 = (Inr j, sv1) \<and>
    fst (get_item byp isof (mem_get_tenant_id expected token tid') iid sv1) = Inl (HTTPException 404 ''Memory item not found'') \<and>
    delete_item byp R E (mem_get_tenant_id expected token tid) iid sv1 = (Inr (), sv2) \<and> ms_items sv2 = ms_items sv \<and>
    fst (get_item byp isof (mem_get_tenant_id expected token tid) iid sv2) = Inl (HTTPException 404 ''Memory item not found'')"
proof -
  obtain c item where c: "parse_item_create body = Some c" "mem_get_tenant_id expected token tid = Inr tid"
      and store: "store_memory byp R E (ic_content c) (ic_memory_type c) (ic_extra_metadata c) (ic_retention_policy c) tid sv
        = (Inr item, sv1)" and j: "j = item_response isof item"
    using assms(1) by (auto simp: post_item_def admitted_Inr andthen_ret_Inr dest: mem_get_tenant_id_Inr)
  have caller: "mem_get_tenant_id expected token t = Inr t" for t
    using c(2) by (auto simp: mem_get_tenant_id_def split: sum.splits exn.splits)
  have s: "stored_as E c tid item" "ms_items sv1 = ms_items sv @ [item]"
    using wp_result [OF store_memory_effect store] by simp_all
  have new: "mi_id r \<noteq> mi_id item" if "r \<in> set (ms_items sv)" for r
    using assms(2) s(1) that by (force simp: stored_as_def)
  have rows: "filter (\<lambda>r. mi_id r = mi_id item \<and> mi_tenant_id r = t) (ms_items sv1) = (if t = tid then [item] else [])" for t
    using s new by (auto simp: stored_as_def filter_empty_conv)
  then obtain sv2 where forgot: "forget_memory byp R E (mi_id item) tid sv1 = (Inr (), sv2)"
      "ms_items sv2 = filter (\<lambda>r. mi_id r \<noteq> mi_id item) (ms_items sv1)"
    using forget_memory_rows [of "mi_id item" tid sv1 item byp R E] by auto
  have restored: "ms_items sv2 = ms_items sv" using forgot(2) s(2) new by (auto simp: filter_id_conv)
  have gone: "filter (\<lambda>r. mi_id r = mi_id item \<and> mi_tenant_id r = tid) (ms_items sv2) = []"
    using restored new by (auto simp: filter_empty_conv)
  have "get_item byp isof (mem_get_tenant_id expected token tid) (mi_id item) sv1 = (Inr j, sv1)"
    "fst (get_item byp isof (mem_get_tenant_id expected token tid') (mi_id item) sv1) = Inl (HTTPException 404 ''Memory item not found'')"
    "fst (get_item byp isof (mem_get_tenant_id expected token tid) (mi_id item) sv2) = Inl (HTTPException 404 ''Memory item not found'')"
    using assms(3) by (simp_all add: get_item_def admitted_apply caller andthen_def get_memory_item_row rows gone one_row_def j)
  moreover have "delete_item byp R E (mem_get_tenant_id expected token tid) (mi_id item) sv1 = (Inr (), sv2)"
    using forgot(1) by (simp add: delete_item_def admitted_apply caller)
  ultimately show ?thesis
    using c(1) s(1) restored by (intro exI [of _ "mi_id item"] exI [of _ c] exI [of _ sv2])
      (simp add: j item_response_def json_key_def stored_as_def)
qed

definition sample_body :: json where
  "sample_body = JObj [(''content'', JStr ''fact''), (''memory_type'', JStr ''semantic'')]"

lemma stored_item_is_read_back_witness:
  "\<exists>j sv1 iid sv2.
    post_item True mem_redis sample_mem (\<lambda>_. ''t'') (mem_get_tenant_id ''k'' ''k'' 7) sample_body sample_mem_service = (Inr j, sv1) \<and>
    json_key ''content'' j = Inr (JStr ''fact'') \<and>
    get_item True (\<lambda>_. ''t'') (mem_get_tenant_id ''k'' ''k'' 7) iid sv1 = (Inr j, sv1) \<and>
    fst (get_item True (\<lambda>_. ''t'') (mem_get_tenant_id ''k'' ''k'' 8) iid sv1) = Inl (HTTPException 404 ''Memory item not found'')"
proof -
  have parsed: "parse_item_create sample_body = Some \<lparr>ic_content = ''fact'', ic_memory_type = SEMANTIC,
      ic_extra_metadata = [], ic_retention_policy = ''90d''\<rparr>"
    by (simp add: parse_item_create_def sample_body_def parse_memory_type_def)
  have "mem_get_tenant_id ''k'' ''k'' 7 = Inr 7"
    by (simp add: mem_get_tenant_id_def verify_internal_token_def compare_digest_def)
  then have "wp (post_item True mem_redis sample_mem (\<lambda>_. ''t'') (mem_get_tenant_id ''k'' ''k'' 7) sample_body) (\<lambda>_ _. True) (\<lambda>_ _. False)
      sample_mem_service"
    by (simp add: post_item_def admitted_def valid_body_def parsed store_memory_def wp_with_mem_session store_body_def embed_def
        mem_redis_def sample_mem_service_def sample_mem_def mem_begin_def mem_publish_def registry_embed_def
        registry_get_def invalidate_query_cache_def default_mem_settings_def Let_def)
  then obtain j sv1 where post:
      "post_item True mem_redis sample_mem (\<lambda>_. ''t'') (mem_get_tenant_id ''k'' ''k'' 7) sample_body sample_mem_service = (Inr j, sv1)"
    by (auto simp: wp_Inr)
  moreover have "me_uuid sample_mem n \<notin> mi_id ` set (ms_items sample_mem_service)" for n
    by (simp add: sample_mem_service_def)
  ultimately show ?thesis
    using stored_item_is_read_back [OF post, where tid' = 8] parsed by fastforce
qed

end
