(* ===== verification/Openai_Embedder.thy ===== *)
theory Openai_Embedder
  imports Memory_Compress
begin

text \<open>
  \<open>sutram_core/embedding/openai.py\<close>: the embedding provider behind the registry of the memory service.
  The HTTP client, with \<open>raise_for_status\<close> and the decoding of the body, is the argument \<open>post\<close>. The
  vectors are the JSON values of the response, which the code does not look into.
\<close>

definition OPENAI_MODEL :: string where
  "OPENAI_MODEL = ''text-embedding-3-small''"

definition OPENAI_DIMENSIONS :: nat where
  "OPENAI_DIMENSIONS = 1536"

definition embeddings_request :: "string list \<Rightarrow> json" where
  "embeddings_request texts = JObj [(''model'', JStr OPENAI_MODEL), (''input'', JList (map JStr texts))]"

text \<open>What a \<open>for\<close> loop yields of a decoded value: a dict its keys, a string its characters.\<close>

fun py_iter :: "json \<Rightarrow> exn + json list" where
  "py_iter (JList xs) = Inr xs"
| "py_iter (JObj d) = Inr (map (JStr \<circ> fst) d)"
| "py_iter (JStr s) = Inr (map (\<lambda>c. JStr [c]) s)"
| "py_iter _ = Inl (PyTypeError ''object is not iterable'')"

fun embeddings_of :: "json list \<Rightarrow> exn + json list" where
  "embeddings_of [] = Inr []"
| "embeddings_of (item # items) =
     (case json_key ''embedding'' item of
        Inl e \<Rightarrow> Inl e
      | Inr v \<Rightarrow> (case embeddings_of items of Inl e \<Rightarrow> Inl e | Inr vs \<Rightarrow> Inr (v # vs)))"

text \<open>The \<open>try\<close> block and its handler; \<open>repr\<close> is the text of the response in the message.\<close>

definition read_embeddings :: "json \<Rightarrow> exn + json list" where
  "read_embeddings data =
     (case json_key ''data'' data of
        Inl e \<Rightarrow> Inl e
      | Inr items \<Rightarrow> (case py_iter items of Inl e \<Rightarrow> Inl e | Inr xs \<Rightarrow> embeddings_of xs))"

definition openai_embed :: "(json \<Rightarrow> string) \<Rightarrow> (json \<Rightarrow> exn + json) \<Rightarrow> string list \<Rightarrow> exn + json list" where
  "openai_embed repr post texts =
     (case post (embeddings_request texts) of
        Inl e \<Rightarrow> Inl e
      | Inr data \<Rightarrow>
          (case read_embeddings data of
             Inr vectors \<Rightarrow> Inr vectors
           | Inl e \<Rightarrow>
               (case e of
                  PyKeyError _ \<Rightarrow> Inl (PyValueError (''Unexpected response structure from OpenAI embeddings API: '' @ repr data))
                | PyTypeError _ \<Rightarrow> Inl (PyValueError (''Unexpected response structure from OpenAI embeddings API: '' @ repr data))
                | _ \<Rightarrow> Inl e)))"

section \<open>What the provider returns\<close>

text \<open>A response of the documented shape with the vectors \<open>vs\<close>.\<close>

definition has_embeddings :: "json \<Rightarrow> json list \<Rightarrow> bool" where
  "has_embeddings data vs \<longleftrightarrow> (\<exists>items. json_key ''data'' data = Inr (JList items) \<and>
     list_all2 (\<lambda>item v. json_key ''embedding'' item = Inr v) items vs)"

lemma embeddings_of_Inr: "embeddings_of items = Inr vs \<longleftrightarrow> list_all2 (\<lambda>item v. json_key ''embedding'' item = Inr v) items vs"
proof (induction items arbitrary: vs)
  case (Cons item items)
  show ?case
    by (auto simp: list_all2_Cons1 Cons.IH [symmetric] split: sum.splits)
qed auto

lemma json_key_raises: "json_key k j = Inl e \<Longrightarrow> (\<exists>m. e = PyKeyError m) \<or> (\<exists>m. e = PyTypeError m)"
  by (auto simp: json_key_def split: json.splits option.splits)

lemma embeddings_of_raises: "embeddings_of items = Inl e \<Longrightarrow> (\<exists>m. e = PyKeyError m) \<or> (\<exists>m. e = PyTypeError m)"
  by (induction items arbitrary: e) (auto split: sum.splits dest: json_key_raises)

lemma read_embeddings_raises: "read_embeddings data = Inl e \<Longrightarrow> (\<exists>m. e = PyKeyError m) \<or> (\<exists>m. e = PyTypeError m)"
  by (auto simp: read_embeddings_def split: sum.splits dest: json_key_raises embeddings_of_raises elim: py_iter.elims)

text \<open>Besides the documented shape only an empty string or dict in the place of the list is accepted.\<close>

lemma embeddings_of_strings: "embeddings_of (map (JStr \<circ> f) xs) = Inr vs \<longleftrightarrow> xs = [] \<and> vs = []"
  by (cases xs) (auto simp: json_key_def)

lemma read_embeddings_Inr:
  "read_embeddings data = Inr vs \<longleftrightarrow>
     has_embeddings data vs \<or> vs = [] \<and> json_key ''data'' data \<in> {Inr (JObj []), Inr (JStr [])}"
proof (cases "json_key ''data'' data")
  case (Inr items)
  then show ?thesis
    using embeddings_of_strings [of fst _ vs] embeddings_of_strings [of "\<lambda>c. [c]" _ vs]
    by (cases items) (auto simp: read_embeddings_def has_embeddings_def embeddings_of_Inr o_def)
qed (simp add: read_embeddings_def has_embeddings_def)

lemma openai_embed_outcome:
  "(\<exists>e. post (embeddings_request texts) = Inl e \<and> openai_embed repr post texts = Inl e) \<or>
   (\<exists>data. post (embeddings_request texts) = Inr data \<and>
      (if \<exists>vs. read_embeddings data = Inr vs then openai_embed repr post texts = read_embeddings data
       else openai_embed repr post texts =
         Inl (PyValueError (''Unexpected response structure from OpenAI embeddings API: '' @ repr data))))"
proof (cases "post (embeddings_request texts)")
  case (Inr data)
  then show ?thesis
    using read_embeddings_raises [of data]
    by (cases "read_embeddings data") (auto simp: openai_embed_def)
qed (simp add: openai_embed_def)

section \<open>Behind the registry\<close>

text \<open>
  The provider as the registry calls it: \<open>vec\<close> reads a vector of the response as numbers. One text is
  embedded by the first vector of the response; a response without vectors makes the embedder fail.
\<close>

definition openai_provider :: "(json \<Rightarrow> string) \<Rightarrow> (json \<Rightarrow> exn + json) \<Rightarrow> (json \<Rightarrow> real list) \<Rightarrow> provider" where
  "openai_provider repr post vec texts =
     (case openai_embed repr post texts of Inl e \<Rightarrow> Inl e | Inr vs \<Rightarrow> Inr (map vec vs))"

lemma embed_with_openai:
  assumes "me_providers E = registry_register OPENAI_MODEL (openai_provider repr post vec) []"
    and "r_get R (embedding_key E OPENAI_MODEL txt) (ms_cache (mq_sv q)) = None"
    and "post (embeddings_request [txt]) = Inr data" and "has_embeddings data vs"
  shows "fst (embed R E txt OPENAI_MODEL q) =
    (case vs of [] \<Rightarrow> Inl (LibraryError ''list index out of range'') | v # _ \<Rightarrow> Inr (vec v))"
proof -
  have "openai_embed repr post [txt] = Inr vs"
    using assms(3,4) read_embeddings_Inr [of data vs] by (simp add: openai_embed_def)
  then have "registry_embed (me_providers E) [txt] OPENAI_MODEL = Inr (map vec vs)"
    by (simp add: assms(1) registry_register_def registry_embed_def registry_get_def openai_provider_def)
  with assms(2) show ?thesis
    by (cases vs) (simp_all add: embed_def cache_get_def cache_setex_def andthen_def seq_def)
qed

lemma unknown_model_raises:
  assumes "me_providers E = registry_register OPENAI_MODEL p []" and "model \<noteq> OPENAI_MODEL"
    and "r_get R (embedding_key E model txt) (ms_cache (mq_sv q)) = None"
  shows "embed R E txt model q = (Inl (PyKeyError (''No embedding provider registered for model: '' @ model)), q)"
  using assms
  by (simp add: embed_def cache_get_def andthen_def registry_register_def registry_embed_def registry_get_def)

end
