(* ===== verification/Observability_Api.thy ===== *)
theory Observability_Api
  imports Observability Core_Middleware "HOL-Library.Multiset"
begin

text \<open>
  The read routes of the observability service: \<open>routes/audit.py\<close>, \<open>routes/metrics_api.py\<close> and
  \<open>routes/traces.py\<close>, over the committed rows of the two tables. Rows with equal sort keys come
  in the order of the table; \<open>isof\<close> is \<open>isoformat\<close>. A request that FastAPI's validation of the
  query refuses is answered with 422.
\<close>

section \<open>The tenant of a request\<close>

definition obs_get_tenant :: "string \<Rightarrow> string \<Rightarrow> uuid \<Rightarrow> exn + uuid" where
  "obs_get_tenant expected x_internal_token x_tenant_id =
     (case verify_internal_token x_internal_token expected of
        Inl (InternalAuthError m) \<Rightarrow> Inl (HTTPException 401 m)
      | Inl e \<Rightarrow> Inl e
      | Inr _ \<Rightarrow> Inr x_tenant_id)"

lemma obs_get_tenant_own: "verify_internal_token token expected = Inr () \<Longrightarrow> obs_get_tenant expected token tid = Inr tid"
  by (simp add: obs_get_tenant_def)

section \<open>Audit logs\<close>

record audit_item =
  ai_id :: string
  ai_tenant_id :: string
  ai_action :: string
  ai_resource_id :: "string option"
  ai_timestamp :: string

record audit_page =
  ap_records :: "audit_item list"
  ap_limit :: int
  ap_offset :: int

definition audit_item_of :: "(nat \<Rightarrow> string) \<Rightarrow> audit_row \<Rightarrow> audit_item" where
  "audit_item_of isof r =
     \<lparr>ai_id = uuid_str (au_id r), ai_tenant_id = uuid_str (au_tenant_id r), ai_action = au_action r,
      ai_resource_id = map_option uuid_str (au_resource_id r), ai_timestamp = isof (au_timestamp r)\<rparr>"

text \<open>The query without its page: the tenant's records, of one action if asked, newest first.\<close>

definition audit_query :: "uuid \<Rightarrow> string option \<Rightarrow> audit_row list \<Rightarrow> audit_row list" where
  "audit_query tenant_id action rows =
     (let mine = filter (\<lambda>r. au_tenant_id r = tenant_id) rows;
          chosen = (if action = None \<or> action = Some [] then mine
                    else filter (\<lambda>r. Some (au_action r) = action) mine)
      in sort_key (\<lambda>r. - int (au_timestamp r)) chosen)"

text \<open>\<open>LIMIT\<close> and \<open>OFFSET\<close> of PostgreSQL.\<close>

definition limit_offset :: "int \<Rightarrow> int \<Rightarrow> 'a list \<Rightarrow> exn + 'a list" where
  "limit_offset l off xs =
     (if l < 0 then Inl (LibraryError ''LIMIT must not be negative'')
      else Inr (take (nat l) (drop (nat off) xs)))"

definition get_audit_logs ::
  "string \<Rightarrow> obs_settings \<Rightarrow> (nat \<Rightarrow> string) \<Rightarrow> string \<Rightarrow> uuid \<Rightarrow> int \<Rightarrow> int \<Rightarrow> string option \<Rightarrow>
     audit_row list \<Rightarrow> exn + audit_page" where
  "get_audit_logs expected cfg isof token x_tenant limt offs action rows =
     (case obs_get_tenant expected token x_tenant of
        Inl e \<Rightarrow> Inl e
      | Inr tenant_id \<Rightarrow>
          if limt > 1000 \<or> offs < 0 then Inl (HTTPException 422 ''Unprocessable Entity'')
          else let effective_limit = min limt (os_audit_log_max_page_size cfg) in
            (case limit_offset effective_limit offs (audit_query tenant_id action rows) of
               Inl e \<Rightarrow> Inl e
             | Inr records \<Rightarrow>
                 Inr \<lparr>ap_records = map (audit_item_of isof) records, ap_limit = effective_limit,
                      ap_offset = offs\<rparr>))"

section \<open>Metrics\<close>

record status_summary =
  su_status :: "string option"
  su_count :: nat
  su_total_cost_usd :: rat
  su_avg_duration_ms :: rat

text \<open>Aggregates skip NULLs; the sum and the average of no value are NULL, which the route writes as 0.\<close>

definition sql_sum :: "rat option list \<Rightarrow> rat" where
  "sql_sum xs = sum_list (List.map_filter id xs)"

definition sql_avg :: "rat option list \<Rightarrow> rat" where
  "sql_avg xs = (let ys = List.map_filter id xs in if ys = [] then 0 else sum_list ys / of_nat (length ys))"

definition get_metrics_summary ::
  "string \<Rightarrow> string \<Rightarrow> uuid \<Rightarrow> trace_row list \<Rightarrow> exn + string \<times> status_summary list" where
  "get_metrics_summary expected token x_tenant rows =
     (case obs_get_tenant expected token x_tenant of
        Inl e \<Rightarrow> Inl e
      | Inr tenant_id \<Rightarrow>
          let mine = filter (\<lambda>r. tr_tenant_id r = tenant_id \<and> tr_event_type r = ''execution.completed'') rows
          in Inr (uuid_str tenant_id,
               map (\<lambda>st. let g = filter (\<lambda>r. tr_status r = st) mine in
                      \<lparr>su_status = st, su_count = length g,
                       su_total_cost_usd = sql_sum (map tr_cost_usd g),
                       su_avg_duration_ms = sql_avg (map (map_option of_int \<circ> tr_duration_ms) g)\<rparr>)
                 (remdups (map tr_status mine))))"

section \<open>Traces\<close>

record span_item =
  si_id :: string
  si_trace_id :: string
  si_event_type :: string
  si_step_name :: "string option"
  si_step_index :: "int option"
  si_duration_ms :: "int option"
  si_cost_usd :: "rat option"
  si_status :: "string option"
  si_error_type :: "string option"
  si_start_time :: string

definition span_item_of :: "(nat \<Rightarrow> string) \<Rightarrow> trace_row \<Rightarrow> span_item" where
  "span_item_of isof s =
     \<lparr>si_id = uuid_str (tr_id s), si_trace_id = uuid_str (tr_trace_id s), si_event_type = tr_event_type s,
      si_step_name = tr_step_name s, si_step_index = tr_step_index s, si_duration_ms = tr_duration_ms s,
      si_cost_usd = tr_cost_usd s, si_status = tr_status s, si_error_type = tr_error_type s,
      si_start_time = isof (tr_start_time s)\<rparr>"

definition get_traces ::
  "string \<Rightarrow> (nat \<Rightarrow> string) \<Rightarrow> string \<Rightarrow> uuid \<Rightarrow> uuid \<Rightarrow> trace_row list \<Rightarrow> exn + string \<times> span_item list" where
  "get_traces expected isof token x_tenant execution_id rows =
     (case obs_get_tenant expected token x_tenant of
        Inl e \<Rightarrow> Inl e
      | Inr tenant_id \<Rightarrow>
          Inr (uuid_str execution_id,
            map (span_item_of isof) (sort_key tr_start_time
              (filter (\<lambda>s. tr_execution_id s = execution_id \<and> tr_tenant_id s = tenant_id) rows))))"

section \<open>Pages\<close>

lemma concat_pages: "concat (map (\<lambda>k. take l (drop (k * l) xs)) [0..<n]) = take (n * l) xs"
proof (induction n)
  case (Suc n)
  have "take (Suc n * l) xs = take (n * l) xs @ take l (drop (n * l) xs)"
    using take_add [of "n * l" l xs] by (simp add: add.commute)
  with Suc show ?case by simp
qed simp

lemma audit_query_mset:
  "mset (audit_query tid act rows) = filter_mset (\<lambda>r. au_tenant_id r = tid \<and>
     (act = None \<or> act = Some [] \<or> Some (au_action r) = act)) (mset rows)"
  by (auto simp: audit_query_def Let_def filter_filter_mset intro: filter_mset_cong)

lemma audit_query_sorted: "sorted_wrt (\<lambda>r r'. au_timestamp r' \<le> au_timestamp r) (audit_query tid act rows)"
proof -
  have "sorted (map (\<lambda>r. - int (au_timestamp r)) (audit_query tid act rows))"
    by (simp add: audit_query_def Let_def)
  then show ?thesis by (simp add: sorted_map)
qed

text \<open>A negative limit passes the validation and is refused by the database.\<close>

lemma negative_limit_fails:
  assumes "verify_internal_token token expected = Inr ()" and "limt < 0" and "0 \<le> offs"
  shows "get_audit_logs expected cfg isof token tid limt offs act rows =
    Inl (LibraryError ''LIMIT must not be negative'')"
  using assms by (auto simp: get_audit_logs_def obs_get_tenant_def limit_offset_def Let_def min_def)

text \<open>Every completion that has a row is counted under its status, once.\<close>

lemma sum_groups:
  assumes "finite A" and "f ` set xs \<subseteq> A"
  shows "(\<Sum>st\<in>A. length (filter (\<lambda>r. f r = st) xs)) = length xs"
  using assms(2)
proof (induction xs)
  case (Cons x xs)
  have "(\<Sum>st\<in>A. length (filter (\<lambda>r. f r = st) (x # xs))) =
      (\<Sum>st\<in>A. (if f x = st then 1 else 0) + length (filter (\<lambda>r. f r = st) xs))"
    by (rule sum.cong) simp_all
  also have "\<dots> = 1 + length xs" using Cons assms(1) by (simp add: sum.distrib)
  finally show ?case by simp
qed simp

lemma metrics_count_completions:
  assumes "get_metrics_summary expected token tid rows = Inr (t, groups)"
  shows "sum_list (map su_count groups) =
    length (filter (\<lambda>r. tr_tenant_id r = tid \<and> tr_event_type r = ''execution.completed'') rows)"
proof -
  let ?mine = "filter (\<lambda>r. tr_tenant_id r = tid \<and> tr_event_type r = ''execution.completed'') rows"
  have "obs_get_tenant expected token tid = Inr tid" and
    "map su_count groups = map (\<lambda>st. length (filter (\<lambda>r. tr_status r = st) ?mine)) (remdups (map tr_status ?mine))"
    using assms by (auto simp: get_metrics_summary_def obs_get_tenant_def Let_def o_def
        split: sum.splits exn.splits)
  then show ?thesis
    using sum_groups [of "set (map tr_status ?mine)" tr_status ?mine]
    by (simp add: sum_list_distinct_conv_sum_set)
qed

section \<open>Properties\<close>


definition sample_audit :: "uuid \<Rightarrow> nat \<Rightarrow> audit_row" where
  "sample_audit tid t =
     \<lparr>au_tenant_id = tid, au_actor_id = None, au_action = ''memory.written'', au_resource_id = None,
      au_extra_metadata = [], au_id = word_of_nat t, au_timestamp = t\<rparr>"


end
