(* ===== verification/Service_Settings.thy ===== *)
theory Service_Settings
  imports Settings Gateway Memory_Search Tail_Sampler Tasks
begin

text \<open>
  The settings of the other services, the logical Redis databases that the services use by default,
  and the two Celery applications (\<open>tasks/celery_app.py\<close> of the workflow and the memory service).
\<close>

section \<open>Settings\<close>

record memory_settings = core_settings +
  my_redis_streams_url :: string
  my_redis_cache_url :: string
  my_celery_broker_url :: string
  my_celery_result_backend :: string
  my_service :: mem_settings
  my_compression_llm_url :: string
  my_compression_llm_model :: string
  my_s3_bucket :: string
  my_s3_region :: string
  my_s3_prefix :: string
  my_s3_endpoint_url :: "string option"

definition default_memory_settings :: memory_settings where
  "default_memory_settings = core_settings.extend default_core_settings
     \<lparr>my_redis_streams_url = ''redis://localhost:6379/1'', my_redis_cache_url = ''redis://localhost:6379/0'',
      my_celery_broker_url = ''redis://localhost:6379/3'', my_celery_result_backend = ''redis://localhost:6379/4'',
      my_service = default_mem_settings,
      my_compression_llm_url = ''https://api.openai.com/v1/chat/completions'',
      my_compression_llm_model = ''gpt-4o-mini'', my_s3_bucket = ''sutram-memory-archive'',
      my_s3_region = ''us-east-1'', my_s3_prefix = ''memories'', my_s3_endpoint_url = None\<rparr>"

record gateway_settings = core_settings +
  gy_workflow_service_url :: string
  gy_memory_service_url :: string
  gy_observability_service_url :: string
  gy_redis_rate_limit_url :: string
  gy_redis_idempotency_url :: string
  gy_requests_per_minute :: nat
  gy_proxy_timeout_seconds :: rat
  gy_stream_timeout_seconds :: "rat option"

definition default_gateway_settings :: gateway_settings where
  "default_gateway_settings = core_settings.extend default_core_settings
     \<lparr>gy_workflow_service_url = ''http://workflow-service:8001'',
      gy_memory_service_url = ''http://memory-service:8002'',
      gy_observability_service_url = ''http://observability-service:8003'',
      gy_redis_rate_limit_url = ''redis://localhost:6379/5'', gy_redis_idempotency_url = ''redis://localhost:6379/6'',
      gy_requests_per_minute = 1000, gy_proxy_timeout_seconds = 30, gy_stream_timeout_seconds = None\<rparr>"

text \<open>What the proxy of \<open>Gateway\<close> reads of them.\<close>

definition gw_settings_of :: "gateway_settings \<Rightarrow> gw_settings" where
  "gw_settings_of s = \<lparr>gs_workflow_url = gy_workflow_service_url s, gs_memory_url = gy_memory_service_url s,
     gs_observability_url = gy_observability_service_url s, gs_internal_token = cs_internal_auth_token s,
     gs_jwt_secret = cs_jwt_secret s, gs_jwt_algorithm = cs_jwt_algorithm s,
     gs_requests_per_minute = gy_requests_per_minute s\<rparr>"

record observability_settings = core_settings +
  oy_redis_streams_url :: string
  oy_redis_buffer_url :: string
  oy_service :: obs_settings

definition default_observability_settings :: "string \<Rightarrow> observability_settings" where
  "default_observability_settings hostname = core_settings.extend default_core_settings
     \<lparr>oy_redis_streams_url = ''redis://localhost:6379/1'', oy_redis_buffer_url = ''redis://localhost:6379/0'',
      oy_service = default_obs_settings hostname\<rparr>"

section \<open>Logical databases\<close>

text \<open>The number behind the last slash of a Redis URL.\<close>

definition logical_db :: "string \<Rightarrow> int option" where
  "logical_db url = int_base10 (rev (takeWhile (\<lambda>c. c \<noteq> CHR ''/'') (rev url)))"

definition default_databases :: "string \<Rightarrow> (string \<times> int option) list" where
  "default_databases hostname = map (\<lambda>(use, url). (use, logical_db url))
     [(''workflow cache'', ws_redis_cache_url default_workflow_settings),
      (''memory cache'', my_redis_cache_url default_memory_settings),
      (''trace buffer'', oy_redis_buffer_url (default_observability_settings hostname)),
      (''workflow streams'', ws_redis_streams_url default_workflow_settings),
      (''memory streams'', my_redis_streams_url default_memory_settings),
      (''observability streams'', oy_redis_streams_url (default_observability_settings hostname)),
      (''locks'', ws_redis_locks_url default_workflow_settings),
      (''workflow broker'', ws_celery_broker_url default_workflow_settings),
      (''memory broker'', my_celery_broker_url default_memory_settings),
      (''workflow results'', ws_celery_result_backend default_workflow_settings),
      (''memory results'', my_celery_result_backend default_memory_settings),
      (''rate limits'', gy_redis_rate_limit_url default_gateway_settings),
      (''idempotency'', gy_redis_idempotency_url default_gateway_settings)]"

lemmas default_settings_defs = default_workflow_settings_def default_memory_settings_def
  default_gateway_settings_def default_observability_settings_def default_core_settings_def core_settings.extend_def

lemma default_databases_eq:
  "map snd (default_databases hostname) = map Some [0, 0, 0, 1, 1, 1, 2, 3, 3, 4, 4, 5, 6]"
proof -
  have "logical_db ''redis://localhost:6379/0'' = Some 0" "logical_db ''redis://localhost:6379/1'' = Some 1"
    "logical_db ''redis://localhost:6379/2'' = Some 2" "logical_db ''redis://localhost:6379/3'' = Some 3"
    "logical_db ''redis://localhost:6379/4'' = Some 4" "logical_db ''redis://localhost:6379/5'' = Some 5"
    "logical_db ''redis://localhost:6379/6'' = Some 6"
    by code_simp+
  then show ?thesis by (simp add: default_databases_def default_settings_defs)
qed

text \<open>The arguments with which the archiver creates its S3 client: an empty endpoint counts as none.\<close>

definition s3_client_kwargs :: "memory_settings \<Rightarrow> (string \<times> string) list" where
  "s3_client_kwargs s = (''region_name'', my_s3_region s) #
     (case my_s3_endpoint_url s of
        None \<Rightarrow> []
      | Some url \<Rightarrow> if url = [] then [] else [(''endpoint_url'', url)])"

section \<open>Celery\<close>

datatype schedule = Every rat | Crontab nat nat
  \<comment> \<open>seconds; hour and minute\<close>

record celery_app =
  ca_main :: string
  ca_broker :: string
  ca_backend :: string
  ca_include :: "string list"
  ca_acks_late :: bool
  ca_reject_on_worker_lost :: bool
  ca_prefetch_multiplier :: nat
  ca_result_expires :: nat
  ca_beat_schedule :: "(string \<times> string \<times> schedule) list"
    \<comment> \<open>entry, task, when\<close>

definition workflow_celery_app :: "workflow_settings \<Rightarrow> celery_app" where
  "workflow_celery_app s =
     \<lparr>ca_main = ''workflow-service'', ca_broker = ws_celery_broker_url s, ca_backend = ws_celery_result_backend s,
      ca_include = [''app.tasks.execute'', ''app.tasks.recover'', ''app.webhooks.tasks''],
      ca_acks_late = True, ca_reject_on_worker_lost = True, ca_prefetch_multiplier = 1, ca_result_expires = 3600,
      ca_beat_schedule = [(''recovery-scan'', ''workflow.recover_stale_executions'', Every 60)]\<rparr>"

definition memory_celery_app :: "memory_settings \<Rightarrow> celery_app" where
  "memory_celery_app s =
     \<lparr>ca_main = ''memory-service'', ca_broker = my_celery_broker_url s, ca_backend = my_celery_result_backend s,
      ca_include = [''app.tasks.compress''],
      ca_acks_late = True, ca_reject_on_worker_lost = False, ca_prefetch_multiplier = 1, ca_result_expires = 3600,
      ca_beat_schedule = [(''compress-old-memories'', ''memory.compress'', Crontab 2 0)]\<rparr>"

text \<open>The task that each module registers when it is imported.\<close>

definition MODULE_TASKS :: "(string \<times> string) list" where
  "MODULE_TASKS = [(''app.tasks.execute'', ''workflow.execute''),
     (''app.tasks.recover'', ''workflow.recover_stale_executions''), (''app.webhooks.tasks'', ''webhook.deliver''),
     (''app.tasks.compress'', ''memory.compress'')]"

definition registered_tasks :: "celery_app \<Rightarrow> string list" where
  "registered_tasks a = map snd (filter (\<lambda>(m, _). m \<in> set (ca_include a)) MODULE_TASKS)"

text \<open>
  No task names a queue, so every message of an app goes to the default queue of its broker, and a
  worker of any app on that broker may take it. \<open>misrouted a b\<close>: the tasks that are sent by \<open>a\<close>
  (called by its routes or by its beat schedule) and that a worker of \<open>b\<close> may take without knowing them.
\<close>

definition sent_tasks :: "celery_app \<Rightarrow> string list" where
  "sent_tasks a = filter (\<lambda>t. t = ''workflow.execute'' \<or> t \<in> set (map (fst \<circ> snd) (ca_beat_schedule a)))
     (registered_tasks a)"

definition misrouted :: "celery_app \<Rightarrow> celery_app \<Rightarrow> string list" where
  "misrouted a b = (if ca_broker a = ca_broker b
     then filter (\<lambda>t. t \<notin> set (registered_tasks b)) (sent_tasks a) else [])"

section \<open>Properties\<close>

lemmas celery_defs = workflow_celery_app_def memory_celery_app_def MODULE_TASKS_def registered_tasks_def
  sent_tasks_def misrouted_def

text \<open>
  With the default settings the workers of the workflow and of the memory service take tasks from
  one queue: every task either service sends may be taken by a worker of the other, which has not
  registered it. Each app registers what it sends, and with different brokers nothing is misrouted.
\<close>

lemma celery_apps_share_a_queue:
  "misrouted (workflow_celery_app default_workflow_settings) (memory_celery_app default_memory_settings) =
      [''workflow.execute'', ''workflow.recover_stale_executions''] \<and>
   misrouted (memory_celery_app default_memory_settings) (workflow_celery_app default_workflow_settings) =
      [''memory.compress''] \<and>
   set (sent_tasks (workflow_celery_app w)) \<subseteq> set (registered_tasks (workflow_celery_app w)) \<and>
   set (sent_tasks (memory_celery_app m)) \<subseteq> set (registered_tasks (memory_celery_app m)) \<and>
   (misrouted (workflow_celery_app w) (memory_celery_app m) = [] \<longleftrightarrow>
      ws_celery_broker_url w \<noteq> my_celery_broker_url m)"
  by (simp add: celery_defs default_settings_defs)

text \<open>
  What SCAN promises besides \<open>scan_ok\<close>: a key it yields matches the pattern.
\<close>

definition scan_exact :: "'r mem_env \<Rightarrow> bool" where
  "scan_exact E \<longleftrightarrow> (\<forall>r p k. k \<in> set (concat (me_scan E (p @ ''*'') r)) \<longrightarrow> prefix p k)"

lemma shared_keys_differ:
  "query_key E tid query ts \<noteq> buffer_key eid" "query_key E tid query ts \<noteq> failure_key eid"
  "embedding_key E model txt \<noteq> buffer_key eid" "embedding_key E model txt \<noteq> failure_key eid"
  "query_key E tid query ts \<noteq> embedding_key E model txt" "buffer_key eid \<noteq> failure_key eid'"
  "\<not> prefix (query_prefix tid) (buffer_key eid)" "\<not> prefix (query_prefix tid) (failure_key eid)"
  "\<not> prefix (query_prefix tid) (embedding_key E model txt)"
  by (simp_all add: query_key_def query_prefix_def embedding_key_def buffer_key_def failure_key_def)

text \<open>
  By default the cache of the memory service and the trace buffer of the observability service are
  the same logical database. Their keys never coincide, and dropping a tenant's cached queries
  deletes neither a buffered trace nor a cached embedding nor the cached queries of another tenant.
\<close>

lemma shared_cache_database:
  assumes "redis_kv R view" and "scan_exact E"
  shows "logical_db (my_redis_cache_url default_memory_settings) =
      logical_db (oy_redis_buffer_url (default_observability_settings hostname)) \<and>
    {query_key E tid query ts, embedding_key E model txt} \<inter> {buffer_key eid, failure_key eid'} = {} \<and>
    (let r' = delete_batches R (me_scan E (query_prefix tid @ ''*'') r) r in
      view r' (buffer_key eid) = view r (buffer_key eid) \<and> view r' (failure_key eid) = view r (failure_key eid) \<and>
      view r' (embedding_key E model txt) = view r (embedding_key E model txt) \<and>
      view r' (query_key E tid2 query ts) =
        (if tid2 = tid \<and> query_key E tid query ts \<in> set (concat (me_scan E (query_prefix tid @ ''*'') r))
         then None else view r (query_key E tid2 query ts)))"
proof -
  have kept: "view (delete_batches R (me_scan E (query_prefix tid @ ''*'') r) r) k = view r k"
    if "\<not> prefix (query_prefix tid) k" for k
    using assms(2) that by (auto simp: redis_kv.view_delete_batches [OF assms(1)] scan_exact_def)
  have "view (delete_batches R (me_scan E (query_prefix tid @ ''*'') r) r) (query_key E tid2 query ts) =
      (if tid2 = tid \<and> query_key E tid query ts \<in> set (concat (me_scan E (query_prefix tid @ ''*'') r))
       then None else view r (query_key E tid2 query ts))"
  proof (cases "tid2 = tid")
    case False
    then show ?thesis using kept query_prefix_inj [of tid E tid2 query ts] by auto
  qed (simp add: redis_kv.view_delete_batches [OF assms(1)])
  moreover have "my_redis_cache_url default_memory_settings =
      oy_redis_buffer_url (default_observability_settings hostname)"
    by (simp add: default_settings_defs)
  ultimately show ?thesis by (simp add: Let_def kept shared_keys_differ)
qed

lemma sample_scan_exact: "scan_exact sample_mem"
  unfolding scan_exact_def
proof (intro allI impI)
  fix r :: keyspace and p k
  assume k: "k \<in> set (concat (me_scan sample_mem (p @ ''*'') r))"
  have "me_scan sample_mem (p @ ''*'') r = [sorted_list_of_set {k \<in> dom r. prefix p k}]" by (simp add: sample_mem_def)
  with k have "k \<in> set (sorted_list_of_set {k \<in> dom r. prefix p k})" by simp
  then show "prefix p k" by (cases "finite {k \<in> dom r. prefix p k}") auto
qed

lemma shared_cache_database_witness:
  "delete_batches mem_redis (me_scan sample_mem (query_prefix 7 @ ''*'') [buffer_key 1 \<mapsto> (''x'', None)])
     [buffer_key 1 \<mapsto> (''x'', None)] (buffer_key 1) = Some (''x'', None)"
proof -
  let ?r = "[buffer_key 1 \<mapsto> (''x'', None)]"
  have "delete_batches mem_redis (me_scan sample_mem (query_prefix 7 @ ''*'') ?r) ?r (buffer_key 1) = ?r (buffer_key 1)"
    using shared_cache_database [OF mem.redis_kv_axioms sample_scan_exact, of _ 7 "''q''" None "''m''" "''t''" 1 1 ?r 8]
    unfolding Let_def by blast
  then show ?thesis by simp
qed

end
