(* ===== verification/Service_Clients.thy ===== *)
theory Service_Clients
  imports Db_Session Service_Settings Stream_Consumer
begin

text \<open>
  The life of a service process: the module globals of \<open>app/dependencies.py\<close> with their init, close
  and get functions, the \<open>lifespan\<close> and the health check of \<open>app/main.py\<close>, for the four services.
  A client is a handle of an open connection pool; the process knows the handles that are open. What
  the client libraries raise is the environment. An engine with a NullPool holds no connection.
  The messages of the RuntimeErrors are given up to their dash.
\<close>

section \<open>Clients\<close>

record client_env =
  cl_from_url :: "string \<Rightarrow> exn option"
  cl_aclose :: "nat \<Rightarrow> exn option"
  cl_ping :: "nat \<Rightarrow> exn option"
  cl_select :: "session_factory \<Rightarrow> exn option"
    \<comment> \<open>what opening a session, \<open>SELECT 1\<close> and the commit raise\<close>

record process =
  pr_next :: nat
  pr_open :: "nat list"

definition new_handle :: "('a process_scheme, nat) py" where
  "new_handle = (\<lambda>p. (Inr (pr_next p), p\<lparr>pr_next := Suc (pr_next p), pr_open := pr_open p @ [pr_next p]\<rparr>))"

definition from_url :: "client_env \<Rightarrow> string \<Rightarrow> ('a process_scheme, nat) py" where
  "from_url C url = (case cl_from_url C url of Some e \<Rightarrow> throw e | None \<Rightarrow> new_handle)"

definition aclose :: "client_env \<Rightarrow> nat \<Rightarrow> ('a process_scheme, unit) py" where
  "aclose C h =
     (case cl_aclose C h of
        Some e \<Rightarrow> throw e
      | None \<Rightarrow> modify (\<lambda>p. p\<lparr>pr_open := filter (\<lambda>x. x \<noteq> h) (pr_open p)\<rparr>))"

text \<open>\<open>if x is not None: await x.aclose(); x = None\<close> for a global \<open>x\<close>.\<close>

definition close_global ::
  "client_env \<Rightarrow> ('a process_scheme \<Rightarrow> nat option) \<Rightarrow> ('a process_scheme \<Rightarrow> 'a process_scheme) \<Rightarrow>
     ('a process_scheme, unit) py" where
  "close_global C x reset = andthen (gets x) (\<lambda>h.
     case h of None \<Rightarrow> ret () | Some n \<Rightarrow> seq (aclose C n) (modify reset))"

text \<open>\<open>if x is None: raise RuntimeError(m)\<close>, else \<open>x\<close>.\<close>

definition get_global :: "('s \<Rightarrow> 'x option) \<Rightarrow> string \<Rightarrow> ('s, 'x) py" where
  "get_global x m = andthen (gets x) (\<lambda>v. case v of None \<Rightarrow> throw (PyRuntimeError m) | Some y \<Rightarrow> ret y)"

text \<open>The health check of the services with a database.\<close>

definition service_health :: "client_env \<Rightarrow> nat option \<Rightarrow> session_factory option \<Rightarrow> nat \<times> (string \<times> string) list" where
  "service_health C redis factory =
     (let errors =
        (case redis of
           None \<Rightarrow> [(''redis'', ''unreachable'')]
         | Some h \<Rightarrow> (case cl_ping C h of Some _ \<Rightarrow> [(''redis'', ''unreachable'')] | None \<Rightarrow> [])) @
        (case factory of
           None \<Rightarrow> [(''db'', ''unreachable'')]
         | Some f \<Rightarrow> (case cl_select C f of Some _ \<Rightarrow> [(''db'', ''unreachable'')] | None \<Rightarrow> []))
      in if errors \<noteq> [] then (503, (''status'', ''degraded'') # errors) else (200, [(''status'', ''ok'')]))"

section \<open>The workflow service\<close>

record workflow_process = process +
  wg_session_factory :: "session_factory option"
  wg_redis_streams :: "nat option"
  wg_redis_locks :: "nat option"

definition wf_init_db :: "workflow_settings \<Rightarrow> (workflow_process, unit) py" where
  "wf_init_db s = modify (\<lambda>p. p\<lparr>wg_session_factory :=
     Some (create_session_factory (create_engine (cs_database_url s) True))\<rparr>)"

definition wf_init_redis :: "client_env \<Rightarrow> workflow_settings \<Rightarrow> (workflow_process, unit) py" where
  "wf_init_redis C s =
     andthen (from_url C (ws_redis_streams_url s)) (\<lambda>h.
     seq (modify (\<lambda>p. p\<lparr>wg_redis_streams := Some h\<rparr>))
    (andthen (from_url C (ws_redis_locks_url s)) (\<lambda>h.
     modify (\<lambda>p. p\<lparr>wg_redis_locks := Some h\<rparr>))))"

definition wf_close_redis :: "client_env \<Rightarrow> (workflow_process, unit) py" where
  "wf_close_redis C =
     seq (close_global C wg_redis_streams (\<lambda>p. p\<lparr>wg_redis_streams := None\<rparr>))
         (close_global C wg_redis_locks (\<lambda>p. p\<lparr>wg_redis_locks := None\<rparr>))"

definition get_redis_lock :: "(workflow_process, nat) py" where
  "get_redis_lock = get_global wg_redis_locks ''Redis not initialised''"

definition get_stream_producers :: "(workflow_process, nat \<times> nat) py" where
  "get_stream_producers = andthen (get_global wg_redis_streams ''Redis not initialised'') (\<lambda>h. ret (h, h))"

definition get_redis_streams_for_sse :: "(workflow_process, nat) py" where
  "get_redis_streams_for_sse = get_global wg_redis_streams ''Redis not initialized''"

definition wf_startup :: "client_env \<Rightarrow> workflow_settings \<Rightarrow> (workflow_process, unit) py" where
  "wf_startup C s = seq (wf_init_db s) (wf_init_redis C s)"

definition wf_lifespan ::
  "client_env \<Rightarrow> workflow_settings \<Rightarrow> (workflow_process, unit) py \<Rightarrow> (workflow_process, unit) py" where
  "wf_lifespan C s serve = seq (wf_startup C s) (seq serve (wf_close_redis C))"

definition wf_health :: "client_env \<Rightarrow> workflow_process \<Rightarrow> nat \<times> (string \<times> string) list" where
  "wf_health C p = service_health C (wg_redis_streams p) (wg_session_factory p)"

section \<open>The memory service\<close>

record embedder =
  eb_models :: "string list"
  eb_redis :: nat
  eb_cache_ttl :: nat

record memory_process = process +
  mg_session_factory :: "session_factory option"
  mg_redis_streams :: "nat option"
  mg_redis_cache :: "nat option"
  mg_registry :: "string list option"
  mg_openai_embedder :: "nat option"
  mg_embedder :: "embedder option"

definition mem_init_db :: "memory_settings \<Rightarrow> (memory_process, unit) py" where
  "mem_init_db s = modify (\<lambda>p. p\<lparr>mg_session_factory :=
     Some (create_session_factory (create_engine (cs_database_url s) True))\<rparr>)"

definition mem_init_redis :: "client_env \<Rightarrow> memory_settings \<Rightarrow> (memory_process, unit) py" where
  "mem_init_redis C s =
     andthen (from_url C (my_redis_streams_url s)) (\<lambda>h.
     seq (modify (\<lambda>p. p\<lparr>mg_redis_streams := Some h\<rparr>))
    (andthen (from_url C (my_redis_cache_url s)) (\<lambda>h.
     modify (\<lambda>p. p\<lparr>mg_redis_cache := Some h\<rparr>))))"

text \<open>The registry gets the one provider, which is registered under its model name.\<close>

definition mem_init_embedding :: "memory_settings \<Rightarrow> (memory_process, unit) py" where
  "mem_init_embedding s =
     andthen (get_global mg_redis_cache ''Redis must be initialized before embedding'') (\<lambda>redis.
     andthen new_handle (\<lambda>http.
     modify (\<lambda>p. p
       \<lparr>mg_registry := Some [''text-embedding-3-small''], mg_openai_embedder := Some http,
        mg_embedder := Some \<lparr>eb_models = [''text-embedding-3-small''], eb_redis = redis,
          eb_cache_ttl = st_embedding_ttl (my_service s)\<rparr>\<rparr>)))"

definition mem_close_redis :: "client_env \<Rightarrow> (memory_process, unit) py" where
  "mem_close_redis C =
     seq (close_global C mg_redis_streams (\<lambda>p. p\<lparr>mg_redis_streams := None\<rparr>))
         (close_global C mg_redis_cache (\<lambda>p. p\<lparr>mg_redis_cache := None\<rparr>))"

definition mem_close_embedding :: "client_env \<Rightarrow> (memory_process, unit) py" where
  "mem_close_embedding C = close_global C mg_openai_embedder (\<lambda>p. p\<lparr>mg_openai_embedder := None\<rparr>)"

definition get_embedder :: "(memory_process, embedder) py" where
  "get_embedder = get_global mg_embedder ''Embedding not initialized''"

text \<open>A searcher: its embedder, the candidate limit and the half-life.\<close>

definition get_searcher :: "memory_settings \<Rightarrow> (memory_process, embedder \<times> nat \<times> real) py" where
  "get_searcher s = andthen get_embedder (\<lambda>e.
     ret (e, st_candidate_limit (my_service s), st_half_life (my_service s)))"

definition mem_get_stream_producer :: "(memory_process, nat) py" where
  "mem_get_stream_producer = get_global mg_redis_streams ''Redis not initialized''"

definition get_redis_cache :: "(memory_process, nat) py" where
  "get_redis_cache = get_global mg_redis_cache ''Redis not initialized''"

definition mem_startup :: "client_env \<Rightarrow> memory_settings \<Rightarrow> (memory_process, unit) py" where
  "mem_startup C s = seq (mem_init_db s) (seq (mem_init_redis C s) (mem_init_embedding s))"

definition mem_shutdown :: "client_env \<Rightarrow> (memory_process, unit) py" where
  "mem_shutdown C = seq (mem_close_embedding C) (mem_close_redis C)"

definition mem_lifespan ::
  "client_env \<Rightarrow> memory_settings \<Rightarrow> (memory_process, unit) py \<Rightarrow> (memory_process, unit) py" where
  "mem_lifespan C s serve = seq (mem_startup C s) (seq serve (mem_shutdown C))"

definition mem_health :: "client_env \<Rightarrow> memory_process \<Rightarrow> nat \<times> (string \<times> string) list" where
  "mem_health C p = service_health C (mg_redis_streams p) (mg_session_factory p)"

section \<open>The observability service\<close>

text \<open>The task of the consumer loop: still running, or ended by an exception.\<close>

datatype consumer_task = Consuming | Died exn

record observability_process = process +
  og_session_factory :: "session_factory option"
  og_redis_streams :: "nat option"
  og_redis_buffer :: "nat option"
  og_consumer_task :: "consumer_task option"

definition obs_init_db :: "observability_settings \<Rightarrow> (observability_process, unit) py" where
  "obs_init_db s = modify (\<lambda>p. p\<lparr>og_session_factory :=
     Some (create_session_factory (create_engine (cs_database_url s) True))\<rparr>)"

definition obs_init_redis :: "client_env \<Rightarrow> observability_settings \<Rightarrow> (observability_process, unit) py" where
  "obs_init_redis C s =
     andthen (from_url C (oy_redis_streams_url s)) (\<lambda>h.
     seq (modify (\<lambda>p. p\<lparr>og_redis_streams := Some h\<rparr>))
    (andthen (from_url C (oy_redis_buffer_url s)) (\<lambda>h.
     modify (\<lambda>p. p\<lparr>og_redis_buffer := Some h\<rparr>))))"

definition obs_close_redis :: "client_env \<Rightarrow> (observability_process, unit) py" where
  "obs_close_redis C =
     seq (close_global C og_redis_streams (\<lambda>p. p\<lparr>og_redis_streams := None\<rparr>))
         (close_global C og_redis_buffer (\<lambda>p. p\<lparr>og_redis_buffer := None\<rparr>))"

definition get_redis_streams :: "(observability_process, nat) py" where
  "get_redis_streams = get_global og_redis_streams ''Redis streams not initialized''"

definition get_redis_buffer :: "(observability_process, nat) py" where
  "get_redis_buffer = get_global og_redis_buffer ''Redis buffer not initialized''"

definition get_consumer_group :: "(observability_process, nat) py" where
  "get_consumer_group = get_redis_streams"

definition obs_startup :: "client_env \<Rightarrow> observability_settings \<Rightarrow> (observability_process, unit) py" where
  "obs_startup C s =
     seq (obs_init_db s)
    (seq (obs_init_redis C s)
    (seq get_redis_streams
         (modify (\<lambda>p. p\<lparr>og_consumer_task := Some Consuming\<rparr>))))"

text \<open>A cancelled loop raises CancelledError, which is suppressed; one that has died raises what ended it.\<close>

definition obs_shutdown :: "client_env \<Rightarrow> (observability_process, unit) py" where
  "obs_shutdown C =
     andthen (gets og_consumer_task) (\<lambda>task.
     seq (case task of Some (Died e) \<Rightarrow> throw e | _ \<Rightarrow> ret ())
         (obs_close_redis C))"

definition obs_lifespan ::
  "client_env \<Rightarrow> observability_settings \<Rightarrow> (observability_process, unit) py \<Rightarrow> (observability_process, unit) py" where
  "obs_lifespan C s serve = seq (obs_startup C s) (seq serve (obs_shutdown C))"

definition obs_health :: "client_env \<Rightarrow> observability_process \<Rightarrow> nat \<times> (string \<times> string) list" where
  "obs_health C p = service_health C (og_redis_streams p) (og_session_factory p)"

section \<open>The gateway\<close>

record gateway_process = process +
  gg_http_client :: "nat option"
  gg_redis_rate_limit :: "nat option"
  gg_redis_idempotency :: "nat option"
  gg_rate_limiter :: "(nat \<times> nat) option"
    \<comment> \<open>its Redis client and the requests per minute\<close>
  gg_idempotency_store :: "nat option"

definition init_clients :: "client_env \<Rightarrow> gateway_settings \<Rightarrow> (gateway_process, unit) py" where
  "init_clients C s =
     andthen (gets gg_http_client) (\<lambda>http.
     if http \<noteq> None then throw (PyRuntimeError ''init_clients() called twice'')
     else
       andthen new_handle (\<lambda>c.
       seq (modify (\<lambda>p. p\<lparr>gg_http_client := Some c\<rparr>))
      (andthen (from_url C (gy_redis_rate_limit_url s)) (\<lambda>rl.
       seq (modify (\<lambda>p. p\<lparr>gg_redis_rate_limit := Some rl\<rparr>))
      (andthen (from_url C (gy_redis_idempotency_url s)) (\<lambda>im.
       modify (\<lambda>p. p\<lparr>gg_redis_idempotency := Some im, gg_rate_limiter := Some (rl, gy_requests_per_minute s),
                      gg_idempotency_store := Some im\<rparr>)))))))"

definition close_clients :: "client_env \<Rightarrow> (gateway_process, unit) py" where
  "close_clients C =
     seq (close_global C gg_http_client (\<lambda>p. p\<lparr>gg_http_client := None\<rparr>))
    (seq (close_global C gg_redis_rate_limit (\<lambda>p. p\<lparr>gg_redis_rate_limit := None\<rparr>))
    (seq (close_global C gg_redis_idempotency (\<lambda>p. p\<lparr>gg_redis_idempotency := None\<rparr>))
         (modify (\<lambda>p. p\<lparr>gg_rate_limiter := None, gg_idempotency_store := None\<rparr>))))"

definition get_http_client :: "(gateway_process, nat) py" where
  "get_http_client = get_global gg_http_client ''HTTP client not initialized''"

definition get_rate_limiter :: "(gateway_process, nat \<times> nat) py" where
  "get_rate_limiter = get_global gg_rate_limiter ''Rate limiter not initialized''"

definition get_idempotency_store :: "(gateway_process, nat) py" where
  "get_idempotency_store = get_global gg_idempotency_store ''Idempotency store not initialized''"

definition gw_lifespan ::
  "client_env \<Rightarrow> gateway_settings \<Rightarrow> (gateway_process, unit) py \<Rightarrow> (gateway_process, unit) py" where
  "gw_lifespan C s serve = seq (init_clients C s) (seq serve (close_clients C))"

definition pings :: "client_env \<Rightarrow> nat option \<Rightarrow> bool" where
  "pings C h = (case h of None \<Rightarrow> False | Some n \<Rightarrow> cl_ping C n = None)"

definition gw_health_check :: "client_env \<Rightarrow> gateway_process \<Rightarrow> nat \<times> (string \<times> string) list" where
  "gw_health_check C p = gw_health (pings C (map_option fst (gg_rate_limiter p))) (pings C (gg_idempotency_store p))"

section \<open>Start and stop\<close>

definition calm_clients :: "client_env \<Rightarrow> bool" where
  "calm_clients C \<longleftrightarrow> (\<forall>u. cl_from_url C u = None) \<and> (\<forall>h. cl_aclose C h = None)"

text \<open>The handles of a process are older than its next one.\<close>

definition handles_ok :: "'a process_scheme \<Rightarrow> bool" where
  "handles_ok p \<longleftrightarrow> (\<forall>h \<in> set (pr_open p). h < pr_next p)"

lemma wp_new_handle [simp]:
  "wp new_handle Q X p = Q (pr_next p) (p\<lparr>pr_next := Suc (pr_next p), pr_open := pr_open p @ [pr_next p]\<rparr>)"
  by (simp add: wp_def new_handle_def)

lemma wp_from_url [simp]:
  "wp (from_url C u) Q X p =
     (case cl_from_url C u of
        Some e \<Rightarrow> X e p
      | None \<Rightarrow> Q (pr_next p) (p\<lparr>pr_next := Suc (pr_next p), pr_open := pr_open p @ [pr_next p]\<rparr>))"
  by (simp add: from_url_def split: option.split)

lemma wp_close_global [simp]:
  "wp (close_global C x reset) Q X p =
     (case x p of
        None \<Rightarrow> Q () p
      | Some h \<Rightarrow> (case cl_aclose C h of
          Some e \<Rightarrow> X e p
        | None \<Rightarrow> Q () (reset (p\<lparr>pr_open := filter (\<lambda>y. y \<noteq> h) (pr_open p)\<rparr>))))"
  by (simp add: close_global_def aclose_def split: option.split)

lemma wp_get_global [simp]:
  "wp (get_global x m) Q X p = (case x p of None \<Rightarrow> X (PyRuntimeError m) p | Some y \<Rightarrow> Q y p)"
  by (simp add: get_global_def split: option.split)

lemma filter_older:
  fixes n :: nat
  shows "\<forall>h \<in> set xs. h < n \<Longrightarrow> n \<le> k \<Longrightarrow> filter (\<lambda>h. h \<noteq> k) xs = xs"
  by (rule filter_True) (metis leD)

lemma filter_newest:
  assumes "handles_ok p"
  shows "filter (\<lambda>h. h \<noteq> k) (pr_open p) = (if k < pr_next p then filter (\<lambda>h. h \<noteq> k) (pr_open p) else pr_open p)"
  using filter_older [of "pr_open p" "pr_next p" k] assms by (simp add: handles_ok_def)

text \<open>What the requests do to the globals: nothing.\<close>

definition serves :: "('s, unit) py \<Rightarrow> bool" where
  "serves m \<longleftrightarrow> (\<forall>p. m p = (Inr (), p))"

lemma wp_serves: "serves m \<Longrightarrow> wp m Q X p = Q () p"
  by (simp add: serves_def wp_def)

lemma wf_lifespan_effect:
  assumes "calm_clients C" and "handles_ok p" and "serves m"
  shows "wp (wf_lifespan C s m) (\<lambda>_ p'. pr_open p' = pr_open p \<and> wg_redis_streams p' = None \<and> wg_redis_locks p' = None)
    (\<lambda>_ _. False) p"
  using assms
  by (simp add: wf_lifespan_def wf_startup_def wf_init_db_def wf_init_redis_def wf_close_redis_def calm_clients_def
      wp_serves filter_newest)

lemma mem_lifespan_effect:
  assumes "calm_clients C" and "handles_ok p" and "serves m"
  shows "wp (mem_lifespan C s m) (\<lambda>_ p'. pr_open p' = pr_open p \<and> mg_redis_streams p' = None \<and>
      mg_redis_cache p' = None \<and> mg_openai_embedder p' = None \<and>
      (\<exists>e. mg_embedder p' = Some e \<and> eb_redis e \<notin> set (pr_open p')))
    (\<lambda>_ _. False) p"
  using assms
  by (auto simp: mem_lifespan_def mem_startup_def mem_shutdown_def mem_init_db_def mem_init_redis_def
      mem_init_embedding_def mem_close_redis_def mem_close_embedding_def calm_clients_def wp_serves filter_newest)
    (auto simp: handles_ok_def)

lemma obs_lifespan_effect:
  assumes "calm_clients C" and "handles_ok p" and "serves m"
  shows "wp (obs_lifespan C s m) (\<lambda>_ p'. pr_open p' = pr_open p \<and> og_redis_streams p' = None \<and> og_redis_buffer p' = None)
    (\<lambda>_ _. False) p"
  using assms
  by (simp add: obs_lifespan_def obs_startup_def obs_shutdown_def obs_init_db_def obs_init_redis_def obs_close_redis_def
      get_redis_streams_def calm_clients_def wp_serves filter_newest)

lemma gw_lifespan_effect:
  assumes "calm_clients C" and "handles_ok p" and "serves m" and "gg_http_client p = None"
  shows "wp (gw_lifespan C s m) (\<lambda>_ p'. pr_open p' = pr_open p \<and> gg_http_client p' = None \<and> gg_rate_limiter p' = None \<and>
      gg_idempotency_store p' = None)
    (\<lambda>_ _. False) p"
  using assms
  by (simp add: gw_lifespan_def init_clients_def close_clients_def calm_clients_def wp_serves filter_newest)

section \<open>A consumer that has died\<close>

lemma rounds_return: "\<exists>w'. consumer_rounds S R H E n w = (Inr (), w')"
proof (induction n arbitrary: w)
  case (Suc n)
  obtain w1 where "consumer_round S R H E w = (Inr (), w1)"
    by (cases "consumer_round S R H E w") (auto simp: consumer_round_def tryexcept_def split: prod.splits sum.splits)
  with Suc.IH show ?case by simp
qed simp

text \<open>What the task of the loop is after \<open>n\<close> iterations from \<open>w\<close>.\<close>

definition task_after ::
  "'q stream_ops \<Rightarrow> 'r redis_ops \<Rightarrow> 'r hash_ops \<Rightarrow> obs_env \<Rightarrow> nat \<Rightarrow> ('q, 'r) obs \<Rightarrow> consumer_task" where
  "task_after S R H E n w = (case fst (run_consumer_loop S R H E n w) of Inl e \<Rightarrow> Died e | Inr _ \<Rightarrow> Consuming)"

text \<open>The loop ends only if a group cannot be created, and then before it has read anything.\<close>

lemma loop_outcome:
  "run_consumer_loop S R H E n w = (Inl e, w') \<longleftrightarrow> ensure_consumer_groups S E w = (Inl e, w')"
proof -
  obtain res w1 where e: "ensure_consumer_groups S E w = (res, w1)" by fastforce
  obtain w2 where "consumer_rounds S R H E n (w1\<lparr>os_processed := 0\<rparr>) = (Inr (), w2)"
    using rounds_return by blast
  with e show ?thesis by (cases res) (auto simp: run_consumer_loop_def)
qed

lemma task_after_iff: "task_after S R H E n w = Died e \<longleftrightarrow> fst (ensure_consumer_groups S E w) = Inl e"
proof (cases "ensure_consumer_groups S E w")
  case (Pair res w1)
  show ?thesis
  proof (cases res)
    case (Inl e1)
    with Pair loop_outcome [of S R H E n w e1 w1] show ?thesis by (simp add: task_after_def)
  next
    case (Inr u)
    with Pair loop_outcome [of S R H E n w] show ?thesis
      by (cases "run_consumer_loop S R H E n w") (auto simp: task_after_def split: sum.splits)
  qed
qed

definition obs_tables :: "('q, 'r) obs \<Rightarrow> trace_row list \<times> audit_row list \<times> obs_metrics" where
  "obs_tables w = (os_traces w, os_audit w, os_metrics w)"

lemma create_groups_tables:
  "wp (create_groups S grp ss) (\<lambda>_ w'. obs_tables w' = obs_tables w) (\<lambda>_ w'. obs_tables w' = obs_tables w) w"
proof (induction ss arbitrary: w)
  case (Cons s ss)
  have same: "obs_tables (w\<lparr>os_streams := q\<rparr>) = obs_tables w" for q by (simp add: obs_tables_def)
  have rest: "wp (create_groups S grp ss) (\<lambda>_ w'. obs_tables w' = obs_tables w) (\<lambda>_ w'. obs_tables w' = obs_tables w)
      (w\<lparr>os_streams := q\<rparr>)" for q
    using Cons.IH [of "w\<lparr>os_streams := q\<rparr>"] by (simp only: same)
  show ?case
    by (auto simp: same rest split: prod.split sum.split exn.split)
qed simp

section \<open>Properties\<close>

text \<open>
  Each service, started and stopped, releases every client it opened, and its getters raise again.
  The memory service alone keeps its embedder, whose Redis client is closed.
\<close>

lemma clients_are_released:
  assumes "calm_clients C" and "serves m1" and "serves m2" and "serves m3" and "serves m4"
    and "handles_ok p1" and "handles_ok p2" and "handles_ok p3" and "handles_ok p4" and "gg_http_client p4 = None"
  shows "(\<exists>q. wf_lifespan C s1 m1 p1 = (Inr (), q) \<and> pr_open q = pr_open p1 \<and>
      fst (get_redis_lock q) = Inl (PyRuntimeError ''Redis not initialised'')) \<and>
    (\<exists>q e. mem_lifespan C s2 m2 p2 = (Inr (), q) \<and> pr_open q = pr_open p2 \<and>
      fst (get_redis_cache q) = Inl (PyRuntimeError ''Redis not initialized'') \<and>
      fst (get_embedder q) = Inr e \<and> eb_redis e \<notin> set (pr_open q)) \<and>
    (\<exists>q. obs_lifespan C s3 m3 p3 = (Inr (), q) \<and> pr_open q = pr_open p3 \<and>
      fst (get_redis_buffer q) = Inl (PyRuntimeError ''Redis buffer not initialized'')) \<and>
    (\<exists>q. gw_lifespan C s4 m4 p4 = (Inr (), q) \<and> pr_open q = pr_open p4 \<and>
      fst (get_rate_limiter q) = Inl (PyRuntimeError ''Rate limiter not initialized''))"
  using wf_lifespan_effect [OF assms(1,6,2), of s1] mem_lifespan_effect [OF assms(1,7,3), of s2]
    obs_lifespan_effect [OF assms(1,8,4), of s3] gw_lifespan_effect [OF assms(1,9,5,10), of s4]
  unfolding wp_Inr get_redis_lock_def get_redis_cache_def get_embedder_def get_redis_buffer_def get_rate_limiter_def
  by (fastforce simp: get_global_def)

text \<open>
  Initialising the gateway twice is refused and changes nothing; the other services accept it and
  lose the clients of the first time, which no shutdown closes any more. A close that raises leaves
  the clients behind it open.
\<close>

lemma repeated_start:
  assumes "calm_clients C" and "handles_ok p" and "serves m" and "gg_http_client g = None"
  shows "(\<exists>g1. init_clients C s4 g = (Inr (), g1) \<and>
      init_clients C s4 g1 = (Inl (PyRuntimeError ''init_clients() called twice''), g1)) \<and>
    (\<exists>q. seq (wf_startup C s1) (wf_lifespan C s1 m) p = (Inr (), q) \<and>
      pr_open q = pr_open p @ [pr_next p, Suc (pr_next p)]) \<and>
    (\<exists>q. wf_lifespan (C\<lparr>cl_aclose := (\<lambda>h. if h = pr_next p then Some e else None)\<rparr>) s1 m p = (Inl e, q) \<and>
      pr_open q = pr_open p @ [pr_next p, Suc (pr_next p)])"
proof (intro conjI)
  have "wp (init_clients C s4) (\<lambda>_ g1. gg_http_client g1 \<noteq> None) (\<lambda>_ _. False) g"
    using assms(1,4) by (simp add: init_clients_def calm_clients_def)
  then obtain g1 where g1: "init_clients C s4 g = (Inr (), g1)" "gg_http_client g1 \<noteq> None" by (auto simp: wp_Inr)
  then show "\<exists>g1. init_clients C s4 g = (Inr (), g1) \<and>
      init_clients C s4 g1 = (Inl (PyRuntimeError ''init_clients() called twice''), g1)"
    by (auto simp: init_clients_def andthen_def)
next
  have "wp (seq (wf_startup C s1) (wf_lifespan C s1 m))
      (\<lambda>_ q. pr_open q = pr_open p @ [pr_next p, Suc (pr_next p)]) (\<lambda>_ _. False) p"
    using assms
    by (simp add: wf_lifespan_def wf_startup_def wf_init_db_def wf_init_redis_def wf_close_redis_def calm_clients_def
        wp_serves filter_newest)
  then show "\<exists>q. seq (wf_startup C s1) (wf_lifespan C s1 m) p = (Inr (), q) \<and>
      pr_open q = pr_open p @ [pr_next p, Suc (pr_next p)]"
    by (auto simp: wp_Inr)
next
  have "wp (wf_lifespan (C\<lparr>cl_aclose := (\<lambda>h. if h = pr_next p then Some e else None)\<rparr>) s1 m) (\<lambda>_ _. False)
      (\<lambda>e' q. e' = e \<and> pr_open q = pr_open p @ [pr_next p, Suc (pr_next p)]) p"
    using assms
    by (simp add: wf_lifespan_def wf_startup_def wf_init_db_def wf_init_redis_def wf_close_redis_def calm_clients_def
        wp_serves)
  then show "\<exists>q. wf_lifespan (C\<lparr>cl_aclose := (\<lambda>h. if h = pr_next p then Some e else None)\<rparr>) s1 m p = (Inl e, q) \<and>
      pr_open q = pr_open p @ [pr_next p, Suc (pr_next p)]"
    by (auto simp: wp_Inl)
qed

definition sample_clients :: client_env where
  "sample_clients = \<lparr>cl_from_url = (\<lambda>_. None), cl_aclose = (\<lambda>_. None), cl_ping = (\<lambda>_. None), cl_select = (\<lambda>_. None)\<rparr>"

definition fresh_workflow :: workflow_process where
  "fresh_workflow = \<lparr>pr_next = 0, pr_open = [], wg_session_factory = None, wg_redis_streams = None, wg_redis_locks = None\<rparr>"

definition fresh_memory :: memory_process where
  "fresh_memory = \<lparr>pr_next = 0, pr_open = [], mg_session_factory = None, mg_redis_streams = None, mg_redis_cache = None,
     mg_registry = None, mg_openai_embedder = None, mg_embedder = None\<rparr>"

definition fresh_observability :: observability_process where
  "fresh_observability = \<lparr>pr_next = 0, pr_open = [], og_session_factory = None, og_redis_streams = None,
     og_redis_buffer = None, og_consumer_task = None\<rparr>"

definition fresh_gateway :: gateway_process where
  "fresh_gateway = \<lparr>pr_next = 0, pr_open = [], gg_http_client = None, gg_redis_rate_limit = None,
     gg_redis_idempotency = None, gg_rate_limiter = None, gg_idempotency_store = None\<rparr>"

lemma fresh_processes [simp]:
  "calm_clients sample_clients" "serves (ret ())" "handles_ok fresh_workflow" "handles_ok fresh_memory"
  "handles_ok fresh_observability" "handles_ok fresh_gateway" "gg_http_client fresh_gateway = None"
  by (simp_all add: calm_clients_def sample_clients_def serves_def handles_ok_def fresh_workflow_def fresh_memory_def
      fresh_observability_def fresh_gateway_def)

lemma clients_are_released_witness:
  "(\<exists>q. wf_lifespan sample_clients default_workflow_settings (ret ()) fresh_workflow = (Inr (), q) \<and> pr_open q = []) \<and>
   (\<exists>q e. mem_lifespan sample_clients default_memory_settings (ret ()) fresh_memory = (Inr (), q) \<and>
      fst (get_embedder q) = Inr e \<and> eb_redis e \<notin> set (pr_open q))"
proof -
  have "pr_open fresh_workflow = []" by (simp add: fresh_workflow_def)
  then show ?thesis
    using clients_are_released [of sample_clients "ret ()" "ret ()" "ret ()" "ret ()" fresh_workflow fresh_memory
        fresh_observability fresh_gateway default_workflow_settings default_memory_settings
        "default_observability_settings ''h''" default_gateway_settings] by fastforce
qed

lemma repeated_start_witness:
  "(\<exists>q. seq (wf_startup sample_clients default_workflow_settings)
      (wf_lifespan sample_clients default_workflow_settings (ret ())) fresh_workflow = (Inr (), q) \<and> pr_open q = [0, 1]) \<and>
   (\<exists>g1. init_clients sample_clients default_gateway_settings g1 =
      (Inl (PyRuntimeError ''init_clients() called twice''), g1))"
proof -
  have "pr_open fresh_workflow = []" "pr_next fresh_workflow = 0" by (simp_all add: fresh_workflow_def)
  then show ?thesis
    using repeated_start [of sample_clients fresh_workflow "ret ()" fresh_gateway default_gateway_settings
        default_workflow_settings "LibraryError []"] by auto
qed

text \<open>
  C40: When a consumer group cannot be created at startup, the task of the consumer dies with that
  exception before it has read a message. The service goes on serving and its health check answers
  200 as long as Redis and the database answer; stopping it raises the exception and leaves both
  Redis clients open.
\<close>

lemma dead_consumer_goes_unnoticed:
  assumes "fst (ensure_consumer_groups S E w) = Inl e"
    and "og_consumer_task p = Some (task_after S R H E n w)"
    and "og_redis_streams p = Some h" and "cl_ping C h = None"
    and "og_session_factory p = Some f" and "cl_select C f = None"
  shows "obs_tables (snd (run_consumer_loop S R H E n w)) = obs_tables w \<and>
    obs_health C p = (200, [(''status'', ''ok'')]) \<and> obs_shutdown C p = (Inl e, p)"
proof -
  obtain w' where g: "ensure_consumer_groups S E w = (Inl e, w')" using assms(1) by (metis prod.collapse)
  then have run: "run_consumer_loop S R H E n w = (Inl e, w')" by (simp add: loop_outcome)
  have "obs_tables w' = obs_tables w"
    using create_groups_tables [of S "os_consumer_group (oe_settings E)" "stream_names (oe_settings E)" w] g
    by (simp add: wp_state ensure_consumer_groups_def)
  moreover have "task_after S R H E n w = Died e" using assms(1) by (simp add: task_after_iff)
  ultimately show ?thesis
    using assms(2-6) run by (simp add: obs_health_def service_health_def obs_shutdown_def andthen_def seq_def)
qed

definition refusing_streams :: "mem_streams stream_ops" where
  "refusing_streams = mem_stream_ops\<lparr>q_create := (\<lambda>s g q. (Inl (LibraryError ''ConnectionError''), q))\<rparr>"

definition sample_observability :: observability_process where
  "sample_observability = \<lparr>pr_next = 2, pr_open = [0, 1],
     og_session_factory = Some (create_session_factory (create_engine [] True)), og_redis_streams = Some 0,
     og_redis_buffer = Some 1, og_consumer_task = Some (Died (LibraryError ''ConnectionError''))\<rparr>"

lemma dead_consumer_goes_unnoticed_witness:
  "obs_health sample_clients sample_observability = (200, [(''status'', ''ok'')]) \<and>
   obs_shutdown sample_clients sample_observability = (Inl (LibraryError ''ConnectionError''), sample_observability)"
proof -
  let ?w = "sample_obs (sample_streams sample_started) (\<lambda>_. None, \<lambda>_. None)"
  have dead: "fst (ensure_consumer_groups refusing_streams sample_obs_env ?w) = Inl (LibraryError ''ConnectionError'')"
    by (simp add: ensure_consumer_groups_def stream_names_def seq_def andthen_def tryexcept_def stream_call_def
        refusing_streams_def)
  then have "og_consumer_task sample_observability =
      Some (task_after refusing_streams (lift_redis mem_redis) mem_hash sample_obs_env 0 ?w)"
    by (simp add: sample_observability_def task_after_iff [THEN iffD2])
  from dead_consumer_goes_unnoticed [OF dead this, of 0 sample_clients] show ?thesis
    by (simp add: sample_observability_def sample_clients_def)
qed

end
