(* ===== verification/Schema.thy ===== *)
theory Schema
  imports Main
begin

text \<open>
  The database schemas: the Alembic migrations of the three services that own tables, as lists of
  DDL operations with PostgreSQL's effect on a schema, and the tables that the ORM classes declare.
  An operation PostgreSQL refuses (a missing or duplicate table or column, a foreign key to a
  missing table, dropping a table that others refer to) is \<open>None\<close>. Server-side defaults and grants
  are left out; the condition of a partial index is its text.
\<close>

section \<open>Schemas\<close>

datatype col_type =
    UUID_T | TEXT_T | JSONB_T | TIMESTAMPTZ_T | INTEGER_T | FLOAT_T | BOOLEAN_T
  | ARRAY_T col_type | VECTOR_T nat

record column =
  co_name :: string
  co_type :: col_type
  co_nullable :: bool
  co_primary_key :: bool
  co_unique :: bool
  co_foreign_key :: "string option"
    \<comment> \<open>the table whose id it refers to, with ON DELETE CASCADE\<close>

record index =
  ix_name :: string
  ix_columns :: "string list"
  ix_where :: "string option"

text \<open>
  A policy \<open>USING (c = current_setting(s, true)::uuid) WITH CHECK (c' = current_setting(s', true)::uuid)\<close>:
  the column and the setting of each condition.
\<close>

record policy =
  po_name :: string
  po_using :: "string \<times> string"
  po_check :: "string \<times> string"

record table =
  tb_name :: string
  tb_columns :: "column list"
  tb_checks :: "(string \<times> string) list"
  tb_indexes :: "index list"
  tb_rls_enabled :: bool
  tb_rls_forced :: bool
  tb_policies :: "policy list"

type_synonym db_schema = "table list"

definition primary_key :: column where
  "primary_key = \<lparr>co_name = ''id'', co_type = UUID_T, co_nullable = False, co_primary_key = True,
     co_unique = False, co_foreign_key = None\<rparr>"

definition not_null :: "string \<Rightarrow> col_type \<Rightarrow> column" where
  "not_null n t = \<lparr>co_name = n, co_type = t, co_nullable = False, co_primary_key = False,
     co_unique = False, co_foreign_key = None\<rparr>"

definition nullable :: "string \<Rightarrow> col_type \<Rightarrow> column" where
  "nullable n t = (not_null n t)\<lparr>co_nullable := True\<rparr>"

definition refers :: "string \<Rightarrow> string \<Rightarrow> column" where
  "refers n t = (not_null n UUID_T)\<lparr>co_foreign_key := Some t\<rparr>"

definition plain_index :: "string \<Rightarrow> string list \<Rightarrow> index" where
  "plain_index n cs = \<lparr>ix_name = n, ix_columns = cs, ix_where = None\<rparr>"

definition partial_index :: "string \<Rightarrow> string list \<Rightarrow> string \<Rightarrow> index" where
  "partial_index n cs c = \<lparr>ix_name = n, ix_columns = cs, ix_where = Some c\<rparr>"

section \<open>Operations\<close>

datatype ddl =
    CreateTable string "column list" "(string \<times> string) list"
  | DropTable string
  | CreateIndex string index
  | AddColumn string column
  | DropColumn string string
  | AlterType string string col_type
  | EnableRls string
  | ForceRls string
  | NoForceRls string
  | CreatePolicy string policy

definition has_table :: "string \<Rightarrow> db_schema \<Rightarrow> bool" where
  "has_table t s = list_ex (\<lambda>x. tb_name x = t) s"

definition alter_table :: "string \<Rightarrow> (table \<Rightarrow> table) \<Rightarrow> db_schema \<Rightarrow> db_schema option" where
  "alter_table t f s = (if has_table t s then Some (map (\<lambda>x. if tb_name x = t then f x else x) s) else None)"

definition has_column :: "string \<Rightarrow> string \<Rightarrow> db_schema \<Rightarrow> bool" where
  "has_column t c s = list_ex (\<lambda>x. tb_name x = t \<and> list_ex (\<lambda>y. co_name y = c) (tb_columns x)) s"

fun apply_ddl :: "ddl \<Rightarrow> db_schema \<Rightarrow> db_schema option" where
  "apply_ddl (CreateTable t cols checks) s =
     (if has_table t s \<or> \<not> list_all (\<lambda>c. case co_foreign_key c of None \<Rightarrow> True | Some u \<Rightarrow> has_table u s) cols
      then None
      else Some (s @ [\<lparr>tb_name = t, tb_columns = cols, tb_checks = checks, tb_indexes = [],
        tb_rls_enabled = False, tb_rls_forced = False, tb_policies = []\<rparr>]))"
| "apply_ddl (DropTable t) s =
     (if \<not> has_table t s \<or>
         list_ex (\<lambda>x. tb_name x \<noteq> t \<and> list_ex (\<lambda>c. co_foreign_key c = Some t) (tb_columns x)) s
      then None else Some (filter (\<lambda>x. tb_name x \<noteq> t) s))"
| "apply_ddl (CreateIndex t ix) s = alter_table t (\<lambda>x. x\<lparr>tb_indexes := tb_indexes x @ [ix]\<rparr>) s"
| "apply_ddl (AddColumn t c) s =
     (if has_column t (co_name c) s then None
      else alter_table t (\<lambda>x. x\<lparr>tb_columns := tb_columns x @ [c]\<rparr>) s)"
| "apply_ddl (DropColumn t c) s =
     (if \<not> has_column t c s then None
      else alter_table t (\<lambda>x. x\<lparr>tb_columns := filter (\<lambda>y. co_name y \<noteq> c) (tb_columns x)\<rparr>) s)"
| "apply_ddl (AlterType t c ty) s =
     (if \<not> has_column t c s then None
      else alter_table t (\<lambda>x. x\<lparr>tb_columns := map (\<lambda>y. if co_name y = c then y\<lparr>co_type := ty\<rparr> else y)
        (tb_columns x)\<rparr>) s)"
| "apply_ddl (EnableRls t) s = alter_table t (\<lambda>x. x\<lparr>tb_rls_enabled := True\<rparr>) s"
| "apply_ddl (ForceRls t) s = alter_table t (\<lambda>x. x\<lparr>tb_rls_forced := True\<rparr>) s"
| "apply_ddl (NoForceRls t) s = alter_table t (\<lambda>x. x\<lparr>tb_rls_forced := False\<rparr>) s"
| "apply_ddl (CreatePolicy t p) s = alter_table t (\<lambda>x. x\<lparr>tb_policies := tb_policies x @ [p]\<rparr>) s"

fun run_ddl :: "ddl list \<Rightarrow> db_schema \<Rightarrow> db_schema option" where
  "run_ddl [] s = Some s"
| "run_ddl (d # ds) s = (case apply_ddl d s of None \<Rightarrow> None | Some s' \<Rightarrow> run_ddl ds s')"

lemma run_ddl_append: "run_ddl (xs @ ys) s = Option.bind (run_ddl xs s) (run_ddl ys)"
  by (induction xs arbitrary: s) (auto split: option.splits)

definition tenant_policy :: policy where
  "tenant_policy = \<lparr>po_name = ''tenant_isolation'', po_using = (''tenant_id'', ''app.current_tenant_id''),
     po_check = (''tenant_id'', ''app.current_tenant_id'')\<rparr>"

definition enable_isolation :: "string list \<Rightarrow> ddl list" where
  "enable_isolation ts = concat (map (\<lambda>t. [EnableRls t, CreatePolicy t tenant_policy]) ts)"

record migration =
  mg_revision :: string
  mg_down_revision :: "string option"
  mg_upgrade :: "ddl list"
  mg_downgrade :: "ddl list"

text \<open>\<open>alembic upgrade head\<close>: each revision must follow the one that is current.\<close>

fun upgrade_head :: "migration list \<Rightarrow> string option \<Rightarrow> db_schema \<Rightarrow> db_schema option" where
  "upgrade_head [] cur s = Some s"
| "upgrade_head (m # ms) cur s =
     (if mg_down_revision m = cur
      then (case run_ddl (mg_upgrade m) s of None \<Rightarrow> None | Some s' \<Rightarrow> upgrade_head ms (Some (mg_revision m)) s')
      else None)"

text \<open>\<open>alembic downgrade base\<close>, given the revisions from the newest to the oldest.\<close>

fun downgrade_base :: "migration list \<Rightarrow> db_schema \<Rightarrow> db_schema option" where
  "downgrade_base [] s = Some s"
| "downgrade_base (m # ms) s =
     (case run_ddl (mg_downgrade m) s of None \<Rightarrow> None | Some s' \<Rightarrow> downgrade_base ms s')"

section \<open>The workflow service\<close>

definition wf_tenants_ddl :: "ddl list" where
  "wf_tenants_ddl =
     [CreateTable ''tenants''
        [primary_key, (not_null ''name'' TEXT_T)\<lparr>co_unique := True\<rparr>, not_null ''settings'' JSONB_T,
         not_null ''created_at'' TIMESTAMPTZ_T, not_null ''updated_at'' TIMESTAMPTZ_T] []]"

definition wf_workflows_ddl :: "ddl list" where
  "wf_workflows_ddl =
     [CreateTable ''workflows''
        [primary_key, refers ''tenant_id'' ''tenants'', not_null ''name'' TEXT_T,
         not_null ''description'' TEXT_T, not_null ''definition'' JSONB_T, not_null ''version'' INTEGER_T,
         not_null ''created_at'' TIMESTAMPTZ_T, not_null ''updated_at'' TIMESTAMPTZ_T] [],
      CreateIndex ''workflows'' (plain_index ''idx_workflows_tenant_id'' [''tenant_id''])]"

definition wf_executions_ddl :: "ddl list" where
  "wf_executions_ddl =
     [CreateTable ''workflow_executions''
        [primary_key, refers ''tenant_id'' ''tenants'', refers ''workflow_id'' ''workflows'',
         not_null ''status'' TEXT_T, not_null ''context'' JSONB_T, nullable ''error_message'' TEXT_T,
         nullable ''pause_reason'' TEXT_T, nullable ''last_heartbeat'' TIMESTAMPTZ_T,
         not_null ''created_at'' TIMESTAMPTZ_T, not_null ''updated_at'' TIMESTAMPTZ_T]
        [(''ck_execution_status'',
          ''status IN (PENDING,RUNNING,PAUSED,COMPLETED,FAILED,CANCELLED)'')],
      CreateIndex ''workflow_executions'' (plain_index ''idx_executions_tenant_id'' [''tenant_id'']),
      CreateIndex ''workflow_executions'' (plain_index ''idx_executions_status'' [''status'']),
      CreateIndex ''workflow_executions''
        (partial_index ''idx_executions_heartbeat'' [''last_heartbeat''] ''status = RUNNING'')]"

definition wf_checkpoints_ddl :: "ddl list" where
  "wf_checkpoints_ddl =
     [CreateTable ''checkpoints''
        [primary_key, refers ''execution_id'' ''workflow_executions'', not_null ''tenant_id'' UUID_T,
         not_null ''step_name'' TEXT_T, not_null ''step_index'' INTEGER_T, not_null ''variables'' JSONB_T,
         not_null ''state'' JSONB_T, not_null ''schema_version'' INTEGER_T,
         not_null ''created_at'' TIMESTAMPTZ_T] [],
      CreateIndex ''checkpoints'' (plain_index ''idx_checkpoints_execution_id'' [''execution_id'']),
      CreateIndex ''checkpoints''
        (plain_index ''idx_checkpoints_execution_latest'' [''execution_id'', ''step_index''])]"

definition wf_subscriptions_ddl :: "ddl list" where
  "wf_subscriptions_ddl =
     [CreateTable ''webhook_subscriptions''
        [primary_key, not_null ''tenant_id'' UUID_T, not_null ''url'' TEXT_T,
         not_null ''secret_encrypted'' TEXT_T, not_null ''events'' (ARRAY_T TEXT_T),
         not_null ''active'' BOOLEAN_T, not_null ''created_at'' TIMESTAMPTZ_T,
         not_null ''updated_at'' TIMESTAMPTZ_T] [],
      CreateIndex ''webhook_subscriptions''
        (partial_index ''idx_webhook_subs_tenant_active'' [''tenant_id''] ''active = TRUE'')]"

definition wf_deliveries_ddl :: "ddl list" where
  "wf_deliveries_ddl =
     [CreateTable ''webhook_deliveries''
        [primary_key, refers ''subscription_id'' ''webhook_subscriptions'', not_null ''tenant_id'' UUID_T,
         not_null ''execution_id'' UUID_T, not_null ''event_type'' TEXT_T, not_null ''payload'' JSONB_T,
         not_null ''status'' TEXT_T, not_null ''attempt_count'' INTEGER_T,
         nullable ''last_attempt_at'' TIMESTAMPTZ_T, nullable ''next_retry_at'' TIMESTAMPTZ_T,
         nullable ''response_code'' INTEGER_T, nullable ''response_body'' TEXT_T,
         not_null ''created_at'' TIMESTAMPTZ_T, not_null ''updated_at'' TIMESTAMPTZ_T]
        [(''ck_delivery_status'', ''status IN (pending,delivered,failed,dead_lettered)'')],
      CreateIndex ''webhook_deliveries'' (plain_index ''idx_webhook_deliveries_tenant'' [''tenant_id'']),
      CreateIndex ''webhook_deliveries''
        (partial_index ''idx_webhook_deliveries_retry'' [''next_retry_at''] ''status = pending'')]"

definition wf_rls_tables :: "string list" where
  "wf_rls_tables = [''workflows'', ''workflow_executions'', ''checkpoints'', ''webhook_subscriptions'',
     ''webhook_deliveries'']"

definition wf_initial :: migration where
  "wf_initial =
     \<lparr>mg_revision = ''001'', mg_down_revision = None,
      mg_upgrade = wf_tenants_ddl @ wf_workflows_ddl @ wf_executions_ddl @ wf_checkpoints_ddl @
        wf_subscriptions_ddl @ wf_deliveries_ddl @ enable_isolation wf_rls_tables,
      mg_downgrade = map DropTable [''webhook_deliveries'', ''webhook_subscriptions'', ''checkpoints'',
        ''workflow_executions'', ''workflows'', ''tenants'']\<rparr>"

definition wf_force_rls :: migration where
  "wf_force_rls =
     \<lparr>mg_revision = ''a1b2c3d4e5f6'', mg_down_revision = Some ''001'',
      mg_upgrade = map ForceRls wf_rls_tables, mg_downgrade = map NoForceRls (rev wf_rls_tables)\<rparr>"

definition wf_snapshot :: migration where
  "wf_snapshot =
     \<lparr>mg_revision = ''003'', mg_down_revision = Some ''a1b2c3d4e5f6'',
      mg_upgrade = [AddColumn ''workflow_executions'' (nullable ''definition_snapshot'' JSONB_T)],
      mg_downgrade = [DropColumn ''workflow_executions'' ''definition_snapshot'']\<rparr>"

definition wf_migrations :: "migration list" where
  "wf_migrations = [wf_initial, wf_force_rls, wf_snapshot]"

section \<open>The memory service\<close>

definition mem_items_ddl :: "ddl list" where
  "mem_items_ddl =
     [CreateTable ''memory_items''
        [primary_key, not_null ''tenant_id'' UUID_T, not_null ''memory_type'' TEXT_T,
         not_null ''content'' TEXT_T, not_null ''embedding'' TEXT_T, not_null ''embedding_model'' TEXT_T,
         not_null ''metadata'' JSONB_T, not_null ''accessed_at'' TIMESTAMPTZ_T,
         not_null ''access_count'' INTEGER_T, not_null ''retention_policy'' TEXT_T,
         not_null ''compressed'' BOOLEAN_T, not_null ''created_at'' TIMESTAMPTZ_T,
         not_null ''updated_at'' TIMESTAMPTZ_T]
        [(''ck_memory_type'', ''memory_type IN (episodic, semantic, procedural)'')],
      AlterType ''memory_items'' ''embedding'' (VECTOR_T 1536),
      CreateIndex ''memory_items'' (plain_index ''idx_memory_items_tenant_id'' [''tenant_id'']),
      CreateIndex ''memory_items'' (partial_index ''idx_memory_items_tenant_compressed''
        [''tenant_id'', ''compressed''] ''compressed = false''),
      CreateIndex ''memory_items'' (plain_index ''idx_memory_items_tenant_type'' [''tenant_id'', ''memory_type'']),
      CreateIndex ''memory_items'' (partial_index ''idx_memory_items_tenant_created''
        [''tenant_id'', ''created_at''] ''compressed = false''),
      CreateIndex ''memory_items'' (partial_index ''idx_memory_items_embedding'' [''embedding'']
        ''compressed = false'')]"

definition mem_summaries_ddl :: "ddl list" where
  "mem_summaries_ddl =
     [CreateTable ''memory_summaries''
        [primary_key, not_null ''tenant_id'' UUID_T, not_null ''summary'' TEXT_T,
         not_null ''original_ids'' (ARRAY_T UUID_T), not_null ''embedding'' TEXT_T,
         not_null ''embedding_model'' TEXT_T, not_null ''created_at'' TIMESTAMPTZ_T,
         not_null ''updated_at'' TIMESTAMPTZ_T] [],
      AlterType ''memory_summaries'' ''embedding'' (VECTOR_T 1536),
      CreateIndex ''memory_summaries'' (plain_index ''idx_memory_summaries_tenant_id'' [''tenant_id'']),
      CreateIndex ''memory_summaries'' (plain_index ''idx_memory_summaries_embedding'' [''embedding''])]"

definition mem_rls_tables :: "string list" where
  "mem_rls_tables = [''memory_items'', ''memory_summaries'']"

definition mem_initial :: migration where
  "mem_initial =
     \<lparr>mg_revision = ''001'', mg_down_revision = None,
      mg_upgrade = mem_items_ddl @ mem_summaries_ddl @ enable_isolation mem_rls_tables,
      mg_downgrade = map DropTable [''memory_summaries'', ''memory_items'']\<rparr>"

definition mem_force_rls :: migration where
  "mem_force_rls =
     \<lparr>mg_revision = ''b2c3d4e5f6a1'', mg_down_revision = Some ''001'',
      mg_upgrade = map ForceRls mem_rls_tables, mg_downgrade = map NoForceRls (rev mem_rls_tables)\<rparr>"

definition mem_migrations :: "migration list" where
  "mem_migrations = [mem_initial, mem_force_rls]"

section \<open>The observability service\<close>

definition obs_traces_ddl :: "ddl list" where
  "obs_traces_ddl =
     [CreateTable ''execution_traces''
        [primary_key, not_null ''trace_id'' UUID_T, not_null ''execution_id'' UUID_T,
         not_null ''tenant_id'' UUID_T, not_null ''workflow_id'' UUID_T, not_null ''event_type'' TEXT_T,
         not_null ''start_time'' TIMESTAMPTZ_T, nullable ''step_name'' TEXT_T, nullable ''step_index'' INTEGER_T,
         nullable ''duration_ms'' INTEGER_T, nullable ''cost_usd'' FLOAT_T, nullable ''status'' TEXT_T,
         nullable ''error_type'' TEXT_T, nullable ''error_message'' TEXT_T] [],
      CreateIndex ''execution_traces'' (plain_index ''idx_traces_execution_id'' [''execution_id'']),
      CreateIndex ''execution_traces'' (plain_index ''idx_traces_tenant_start'' [''tenant_id'', ''start_time'']),
      CreateIndex ''execution_traces'' (plain_index ''idx_traces_start_time_brin'' [''start_time''])]"

definition obs_audit_ddl :: "ddl list" where
  "obs_audit_ddl =
     [CreateTable ''audit_log''
        [primary_key, not_null ''tenant_id'' UUID_T, nullable ''actor_id'' UUID_T, not_null ''action'' TEXT_T,
         nullable ''resource_id'' UUID_T, not_null ''metadata'' JSONB_T, not_null ''timestamp'' TIMESTAMPTZ_T] [],
      CreateIndex ''audit_log'' (plain_index ''idx_audit_tenant_time'' [''tenant_id'', ''timestamp''])]"

definition obs_initial :: migration where
  "obs_initial =
     \<lparr>mg_revision = ''001'', mg_down_revision = None, mg_upgrade = obs_traces_ddl @ obs_audit_ddl,
      mg_downgrade = map DropTable [''execution_traces'', ''audit_log'']\<rparr>"

definition obs_migrations :: "migration list" where
  "obs_migrations = [obs_initial]"

section \<open>The ORM classes\<close>

record orm_class =
  oc_tablename :: string
  oc_columns :: "column list"
  oc_checks :: "(string \<times> string) list"
  oc_indexes :: "index list"

text \<open>\<open>TimestampMixin\<close>\<close>

definition timestamp_mixin :: "column list" where
  "timestamp_mixin = [not_null ''created_at'' TIMESTAMPTZ_T, not_null ''updated_at'' TIMESTAMPTZ_T]"

definition TenantORM :: orm_class where
  "TenantORM =
     \<lparr>oc_tablename = ''tenants'',
      oc_columns = [primary_key, (not_null ''name'' TEXT_T)\<lparr>co_unique := True\<rparr>, not_null ''settings'' JSONB_T] @
        timestamp_mixin,
      oc_checks = [], oc_indexes = []\<rparr>"

definition WorkflowORM :: orm_class where
  "WorkflowORM =
     \<lparr>oc_tablename = ''workflows'',
      oc_columns = [primary_key, refers ''tenant_id'' ''tenants'', not_null ''name'' TEXT_T,
        not_null ''description'' TEXT_T, not_null ''definition'' JSONB_T, not_null ''version'' INTEGER_T] @
        timestamp_mixin,
      oc_checks = [], oc_indexes = [plain_index ''idx_workflows_tenant_id'' [''tenant_id'']]\<rparr>"

definition WorkflowExecutionORM :: orm_class where
  "WorkflowExecutionORM =
     \<lparr>oc_tablename = ''workflow_executions'',
      oc_columns = [primary_key, refers ''tenant_id'' ''tenants'', refers ''workflow_id'' ''workflows'',
        not_null ''status'' TEXT_T, not_null ''context'' JSONB_T, nullable ''error_message'' TEXT_T,
        nullable ''pause_reason'' TEXT_T, nullable ''last_heartbeat'' TIMESTAMPTZ_T,
        nullable ''definition_snapshot'' JSONB_T] @ timestamp_mixin,
      oc_checks = [(''ck_execution_status'',
        ''status IN (PENDING,RUNNING,PAUSED,COMPLETED,FAILED,CANCELLED)'')],
      oc_indexes = [plain_index ''idx_executions_tenant_id'' [''tenant_id''],
        plain_index ''idx_executions_status'' [''status''],
        partial_index ''idx_executions_heartbeat'' [''last_heartbeat''] ''status = RUNNING'']\<rparr>"

definition CheckpointORM :: orm_class where
  "CheckpointORM =
     \<lparr>oc_tablename = ''checkpoints'',
      oc_columns = [primary_key, refers ''execution_id'' ''workflow_executions'', not_null ''tenant_id'' UUID_T,
        not_null ''step_name'' TEXT_T, not_null ''step_index'' INTEGER_T, not_null ''variables'' JSONB_T,
        not_null ''state'' JSONB_T, not_null ''schema_version'' INTEGER_T, not_null ''created_at'' TIMESTAMPTZ_T],
      oc_checks = [],
      oc_indexes = [plain_index ''idx_checkpoints_execution_id'' [''execution_id''],
        plain_index ''idx_checkpoints_execution_latest'' [''execution_id'', ''step_index'']]\<rparr>"

definition WebhookSubscriptionORM :: orm_class where
  "WebhookSubscriptionORM =
     \<lparr>oc_tablename = ''webhook_subscriptions'',
      oc_columns = [primary_key, not_null ''tenant_id'' UUID_T, not_null ''url'' TEXT_T,
        not_null ''secret_encrypted'' TEXT_T, not_null ''events'' (ARRAY_T TEXT_T), not_null ''active'' BOOLEAN_T] @
        timestamp_mixin,
      oc_checks = [],
      oc_indexes = [partial_index ''idx_webhook_subs_tenant_active'' [''tenant_id''] ''active = TRUE'']\<rparr>"

definition WebhookDeliveryORM :: orm_class where
  "WebhookDeliveryORM =
     \<lparr>oc_tablename = ''webhook_deliveries'',
      oc_columns = [primary_key, refers ''subscription_id'' ''webhook_subscriptions'', not_null ''tenant_id'' UUID_T,
        not_null ''execution_id'' UUID_T, not_null ''event_type'' TEXT_T, not_null ''payload'' JSONB_T,
        not_null ''status'' TEXT_T, not_null ''attempt_count'' INTEGER_T, nullable ''last_attempt_at'' TIMESTAMPTZ_T,
        nullable ''next_retry_at'' TIMESTAMPTZ_T, nullable ''response_code'' INTEGER_T,
        nullable ''response_body'' TEXT_T] @ timestamp_mixin,
      oc_checks = [(''ck_delivery_status'', ''status IN (pending,delivered,failed,dead_lettered)'')],
      oc_indexes = [plain_index ''idx_webhook_deliveries_tenant'' [''tenant_id''],
        partial_index ''idx_webhook_deliveries_retry'' [''next_retry_at''] ''status = pending'']\<rparr>"

definition MemoryItemORM :: orm_class where
  "MemoryItemORM =
     \<lparr>oc_tablename = ''memory_items'',
      oc_columns = [primary_key, not_null ''tenant_id'' UUID_T, not_null ''memory_type'' TEXT_T,
        not_null ''content'' TEXT_T, not_null ''embedding'' (VECTOR_T 1536), not_null ''embedding_model'' TEXT_T,
        not_null ''metadata'' JSONB_T, not_null ''accessed_at'' TIMESTAMPTZ_T, not_null ''access_count'' INTEGER_T,
        not_null ''retention_policy'' TEXT_T, not_null ''compressed'' BOOLEAN_T] @ timestamp_mixin,
      oc_checks = [(''ck_memory_type'', ''memory_type IN (episodic, semantic, procedural)'')],
      oc_indexes = [plain_index ''idx_memory_items_tenant_id'' [''tenant_id''],
        partial_index ''idx_memory_items_tenant_compressed'' [''tenant_id'', ''compressed''] ''compressed = false'',
        plain_index ''idx_memory_items_tenant_type'' [''tenant_id'', ''memory_type''],
        partial_index ''idx_memory_items_tenant_created'' [''tenant_id'', ''created_at''] ''compressed = false'']\<rparr>"

definition MemorySummaryORM :: orm_class where
  "MemorySummaryORM =
     \<lparr>oc_tablename = ''memory_summaries'',
      oc_columns = [primary_key, not_null ''tenant_id'' UUID_T, not_null ''summary'' TEXT_T,
        not_null ''original_ids'' (ARRAY_T UUID_T), not_null ''embedding'' (VECTOR_T 1536),
        not_null ''embedding_model'' TEXT_T] @ timestamp_mixin,
      oc_checks = [], oc_indexes = [plain_index ''idx_memory_summaries_tenant_id'' [''tenant_id'']]\<rparr>"

definition ExecutionTraceORM :: orm_class where
  "ExecutionTraceORM =
     \<lparr>oc_tablename = ''execution_traces'',
      oc_columns = [primary_key, not_null ''trace_id'' UUID_T, not_null ''execution_id'' UUID_T,
        not_null ''tenant_id'' UUID_T, not_null ''workflow_id'' UUID_T, not_null ''event_type'' TEXT_T,
        not_null ''start_time'' TIMESTAMPTZ_T, nullable ''step_name'' TEXT_T, nullable ''step_index'' INTEGER_T,
        nullable ''duration_ms'' INTEGER_T, nullable ''cost_usd'' FLOAT_T, nullable ''status'' TEXT_T,
        nullable ''error_type'' TEXT_T, nullable ''error_message'' TEXT_T],
      oc_checks = [],
      oc_indexes = [plain_index ''idx_traces_execution_id'' [''execution_id''],
        plain_index ''idx_traces_tenant_start'' [''tenant_id'', ''start_time''],
        plain_index ''idx_traces_start_time_brin'' [''start_time'']]\<rparr>"

definition AuditLogORM :: orm_class where
  "AuditLogORM =
     \<lparr>oc_tablename = ''audit_log'',
      oc_columns = [primary_key, not_null ''tenant_id'' UUID_T, nullable ''actor_id'' UUID_T, not_null ''action'' TEXT_T,
        nullable ''resource_id'' UUID_T, not_null ''metadata'' JSONB_T, not_null ''timestamp'' TIMESTAMPTZ_T],
      oc_checks = [],
      oc_indexes = [plain_index ''idx_audit_tenant_time'' [''tenant_id'', ''timestamp'']]\<rparr>"

definition wf_models :: "orm_class list" where
  "wf_models = [TenantORM, WorkflowORM, WorkflowExecutionORM, CheckpointORM, WebhookSubscriptionORM,
     WebhookDeliveryORM]"

definition mem_models :: "orm_class list" where
  "mem_models = [MemoryItemORM, MemorySummaryORM]"

definition obs_models :: "orm_class list" where
  "obs_models = [ExecutionTraceORM, AuditLogORM]"

section \<open>Agreement and isolation\<close>

definition same_columns :: "column list \<Rightarrow> column list \<Rightarrow> bool" where
  "same_columns xs ys \<longleftrightarrow> length xs = length ys \<and> list_all (\<lambda>x. list_ex (\<lambda>y. y = x) ys) xs \<and>
     list_all (\<lambda>y. list_ex (\<lambda>x. x = y) xs) ys"

text \<open>
  The class declares the columns and checks of the table in any order, and only indexes that the
  table has (the indexes over embeddings exist in the database alone).
\<close>

definition declares :: "orm_class \<Rightarrow> table \<Rightarrow> bool" where
  "declares c t \<longleftrightarrow> oc_tablename c = tb_name t \<and> same_columns (oc_columns c) (tb_columns t) \<and>
     oc_checks c = tb_checks t \<and> list_all (\<lambda>i. list_ex (\<lambda>j. j = i) (tb_indexes t)) (oc_indexes c)"

definition tenant_scoped :: "table \<Rightarrow> bool" where
  "tenant_scoped t \<longleftrightarrow> list_ex (\<lambda>c. co_name c = ''tenant_id'') (tb_columns t)"

definition isolated :: "table \<Rightarrow> bool" where
  "isolated t \<longleftrightarrow> tb_rls_enabled t \<and> tb_rls_forced t \<and> tb_policies t = [tenant_policy]"

text \<open>
  What PostgreSQL lets a role that is neither superuser nor exempt from row security read and write:
  everything where row security is off, or not forced and the role owns the table; otherwise the rows
  some policy admits. A setting that is not set is NULL and admits nothing.
\<close>

definition admitted_by :: "(string \<Rightarrow> string option) \<Rightarrow> (string \<Rightarrow> string) \<Rightarrow> string \<times> string \<Rightarrow> bool" where
  "admitted_by settings row c \<longleftrightarrow> settings (snd c) = Some (row (fst c))"

definition row_visible ::
  "bool \<Rightarrow> (string \<Rightarrow> string option) \<Rightarrow> (string \<Rightarrow> string) \<Rightarrow> table \<Rightarrow> bool" where
  "row_visible owner settings row t \<longleftrightarrow> \<not> tb_rls_enabled t \<or> (owner \<and> \<not> tb_rls_forced t) \<or>
     list_ex (\<lambda>p. admitted_by settings row (po_using p)) (tb_policies t)"

definition row_writable ::
  "bool \<Rightarrow> (string \<Rightarrow> string option) \<Rightarrow> (string \<Rightarrow> string) \<Rightarrow> table \<Rightarrow> bool" where
  "row_writable owner settings row t \<longleftrightarrow> \<not> tb_rls_enabled t \<or> (owner \<and> \<not> tb_rls_forced t) \<or>
     list_ex (\<lambda>p. admitted_by settings row (po_check p)) (tb_policies t)"

definition guarded :: "table \<Rightarrow> bool" where
  "guarded t = (if tenant_scoped t then isolated t else \<not> tb_rls_enabled t)"

text \<open>The rows of a guarded table that a role reaches: those of the current tenant, if it has one.\<close>

definition tenant_rows_only ::
  "bool \<Rightarrow> (string \<Rightarrow> string option) \<Rightarrow> (string \<Rightarrow> string) \<Rightarrow> table \<Rightarrow> bool" where
  "tenant_rows_only owner settings row t \<longleftrightarrow>
     row_visible owner settings row t =
       (if tenant_scoped t then settings ''app.current_tenant_id'' = Some (row ''tenant_id'') else True) \<and>
     row_writable owner settings row t =
       (if tenant_scoped t then settings ''app.current_tenant_id'' = Some (row ''tenant_id'') else True)"

lemma guarded_rows: "guarded t \<Longrightarrow> tenant_rows_only owner settings row t"
  by (auto simp: guarded_def isolated_def tenant_rows_only_def row_visible_def row_writable_def
      tenant_policy_def admitted_by_def split: if_splits)

lemma unguarded_rows:
  "\<not> tb_rls_enabled t \<Longrightarrow> row_visible owner settings row t \<and> row_writable owner settings row t"
  by (simp add: row_visible_def row_writable_def)

section \<open>Properties\<close>



end
