(* ===== verification/Migration_Env.thy ===== *)
theory Migration_Env
  imports Schema Prelude
begin

text \<open>
  \<open>alembic/env.py\<close> of the three services that own tables, and \<open>make migrate\<close>, which runs them one after
  the other. A database is its tables and the revision in its table \<open>alembic_version\<close>; no service names a
  version table of its own, and every \<open>alembic.ini\<close> has the same URL. A run is one transaction: what
  fails leaves the database as it was.
\<close>

section \<open>Running migrations\<close>

record database =
  da_tables :: db_schema
  da_version :: "string option"

definition empty_database :: database where
  "empty_database = \<lparr>da_tables = [], da_version = None\<rparr>"

text \<open>The revisions that are still to be applied; the current one has to be known to the service.\<close>

definition pending :: "migration list \<Rightarrow> string option \<Rightarrow> exn + migration list" where
  "pending ms version =
     (case version of
        None \<Rightarrow> Inr ms
      | Some v \<Rightarrow>
          if v \<in> set (map mg_revision ms) then Inr (tl (dropWhile (\<lambda>m. mg_revision m \<noteq> v) ms))
          else Inl (LibraryError (''Can't locate revision identified by '' @ v)))"

definition do_run_migrations :: "migration list \<Rightarrow> (database, unit) py" where
  "do_run_migrations ms = (\<lambda>d.
     case pending ms (da_version d) of
       Inl e \<Rightarrow> (Inl e, d)
     | Inr ps \<Rightarrow>
         (case upgrade_head ps (da_version d) (da_tables d) of
            None \<Rightarrow> (Inl (LibraryError ''ProgrammingError''), d)
          | Some s \<Rightarrow> (Inr (), \<lparr>da_tables = s,
              da_version = (if ps = [] then da_version d else Some (mg_revision (last ps)))\<rparr>)))"

definition run_migrations_online :: "(string \<Rightarrow> exn option) \<Rightarrow> string \<Rightarrow> migration list \<Rightarrow> (database, unit) py" where
  "run_migrations_online connect url ms =
     seq (liftsum (case connect url of Some e \<Rightarrow> Inl e | None \<Rightarrow> Inr ())) (do_run_migrations ms)"

text \<open>Without a connection the statements of all revisions are written out.\<close>

definition run_migrations_offline :: "migration list \<Rightarrow> ddl list" where
  "run_migrations_offline ms = concat (map mg_upgrade ms)"

text \<open>\<open>make migrate\<close>: the services in turn, up to the first that fails.\<close>

definition service_migrations :: "(string \<times> migration list) list" where
  "service_migrations = [(''workflow-service'', wf_migrations), (''memory-service'', mem_migrations),
     (''observability-service'', obs_migrations)]"

fun migrate :: "(string \<times> migration list) list \<Rightarrow> (database, unit) py" where
  "migrate [] = ret ()"
| "migrate ((_, ms) # rest) = seq (do_run_migrations ms) (migrate rest)"

section \<open>What a run does\<close>

text \<open>Each revision names the one before it.\<close>

fun linked :: "string option \<Rightarrow> migration list \<Rightarrow> bool" where
  "linked cur [] \<longleftrightarrow> True"
| "linked cur (m # ms) \<longleftrightarrow> mg_down_revision m = cur \<and> linked (Some (mg_revision m)) ms"

text \<open>The script of an offline run does what an online run does.\<close>

lemma upgrade_is_script: "linked cur ms \<Longrightarrow> upgrade_head ms cur s = run_ddl (run_migrations_offline ms) s"
  by (induction ms arbitrary: cur s) (auto simp: run_migrations_offline_def run_ddl_append split: option.split)

lemma services_linked: "linked None wf_migrations" "linked None mem_migrations" "linked None obs_migrations"
  by (simp_all add: wf_migrations_def wf_initial_def wf_force_rls_def wf_snapshot_def mem_migrations_def mem_initial_def
      mem_force_rls_def obs_migrations_def obs_initial_def)

text \<open>A failed run leaves the database alone; a second run after one that succeeded has nothing to do.\<close>

lemma failed_run: "do_run_migrations ms d = (Inl e, d') \<Longrightarrow> d' = d"
  by (auto simp: do_run_migrations_def split: sum.splits option.splits)

lemma pending_at_head:
  assumes "ms \<noteq> []" and "distinct (map mg_revision ms)"
  shows "pending ms (Some (mg_revision (last ms))) = Inr []"
proof -
  obtain xs x where ms: "ms = xs @ [x]" using assms(1) by (metis append_butlast_last_id)
  then have "dropWhile (\<lambda>m. mg_revision m \<noteq> mg_revision x) ms = [x]"
    using assms(2) by (subst ms, subst dropWhile_append2) (auto simp: image_iff)
  with ms show ?thesis by (simp add: pending_def)
qed

lemma run_again:
  assumes "do_run_migrations ms empty_database = (Inr (), d)" and "distinct (map mg_revision ms)"
  shows "do_run_migrations ms d = (Inr (), d)"
proof (cases "ms = []")
  case False
  from assms(1) have "da_version d = Some (mg_revision (last ms))"
    using False by (auto simp: do_run_migrations_def pending_def empty_database_def split: option.splits)
  with pending_at_head [OF False assms(2)] show ?thesis by (simp add: do_run_migrations_def)
qed (use assms in \<open>auto simp: do_run_migrations_def pending_def empty_database_def split: option.splits\<close>)

section \<open>Properties\<close>


end
