(* ===== verification/Spec2Isabelle.thy ===== *)
theory Spec2Isabelle
  imports Workflow_System Workflow_Schemas Execution_Watch Run_Observed Gateway Webhook_Api Memory_Api Openai_Embedder
    Observability_Api Service_Clients Migration_Env
begin

text \<open>
  A verification development of Sutram, a multi-tenant platform that runs workflows of language
  models. The program is four services over a shared core, \<open>packages/core/sutram_core\<close>: the API
  gateway (\<open>services/api-gateway\<close>), the workflow service with its Celery workers
  (\<open>services/workflow-service\<close>), the memory service (\<open>services/memory-service\<close>) and the
  observability service (\<open>services/observability-service\<close>). A request enters through the gateway,
  which authenticates it, limits its rate, detects repetitions and forwards it with the tenant in a
  header. The workflow service stores an execution and enqueues a task; a worker takes the task,
  locks the execution in Redis, runs its steps, writes checkpoints and publishes events on Redis
  streams; a recovery task enqueues executions whose worker has stopped. The observability service
  consumes the events into an audit log and sampled traces. The memory service stores, searches and
  compresses memories.

  \<^bold>\<open>Reading the model.\<close> A Python routine is a computation \<open>('s, 'a) py\<close> (Prelude): it maps a state to
  a result or an exception and to the state it leaves, so every raise, \<open>except\<close> and early return is a
  branch. \<open>wp\<close> is its weakest precondition, with an equation for every combinator. Pydantic and ORM
  classes are records, enumerations are datatypes, tables are lists of rows, a dict is an
  association list or a map, UUIDs are words of 128 bits, strings are character lists (ASCII).
  Everything outside the process is a parameter: Redis is a record of commands with the laws of the
  locale \<open>redis_kv\<close> (extended by \<open>redis_hash\<close> for hashes, and \<open>stream_group\<close> for streams),
  interpreted by in-memory servers; the clocks, \<open>uuid4\<close>, \<open>random\<close>, failures and what other
  sessions commit are functions of a tick that every interaction advances.

  \<^bold>\<open>Theories, in the order of the imports.\<close>

  \<^item> Prelude: exceptions, computations, text forms of numbers and UUIDs, tables. Py_Text: the string
    functions, \<open>int\<close>, \<open>repr\<close> and \<open>uuid.UUID\<close> of Python's library.
  \<^item> Core_Models, Events: \<open>models/\<close> and \<open>events/\<close> of the core; checkpoint migration ends and reaches a
    version to which no migrator applies.
  \<^item> State_Machine, Cost_Tracker: \<open>engine/state_machine.py\<close> and \<open>engine/cost_tracker.py\<close>. No
    sequence of triggers leaves a terminal status; the limits are never exceeded.
  \<^item> Redis, Redis_Lock, Lock_Protocol: \<open>locking/redis_lock.py\<close>. The locale \<open>lock_provider\<close> is the
    contract of a lock, \<open>redis_kv\<close> provides it. Lock_Protocol is the transition system of any number
    of workers with their heartbeats and the passing of time: mutual exclusion while heartbeats are
    on time, and its failure when a worker stalls.
  \<^item> Workflow_Db: the tables of \<open>models/orm.py\<close> with row-level security; a session sees the rows of
    its tenant, all rows if its role bypasses the policies, and none without a tenant.
  \<^item> Executor, Executor_Props, Samples, Executor_Runs: \<open>engine/executor.py\<close> and
    \<open>engine/checkpoint.py\<close>, with the ORM instance, the open transaction and what other sessions
    write. Executor_Props computes what each part of a run does; Executor_Runs composes it: a run
    with nothing interfering completes (\<open>quiet\<close>), reports its steps once and in order in every
    environment, ends in few outcomes whatever publish fails (\<open>alone\<close>), gives the lock back, and
    overwrites a cancellation or skips a checkpointed step in the cases that are stated.
  \<^item> Tasks: \<open>tasks/execute.py\<close>, \<open>tasks/recover.py\<close>, \<open>engine/recovery.py\<close>. What a recovery pass
    enqueues, and that it never gets an execution going again.
  \<^item> Db_Session: \<open>db/session.py\<close> of the core, the engine's pool and the session; the locale
    \<open>session_provider\<close> states what a session does to the database, and the sessions of the workflow and
    the observability service are interpretations of it: a session that raises has stored nothing.
  \<^item> Workflow_Api, Workflow_System: the routes of the workflow service with their sessions, and the
    service as a transition system of requests, task deliveries and recovery passes of all tenants,
    whose database stays well-formed: keys are unique, references hold, checkpoints are of their
    execution's steps.
  \<^item> Event_Stream: \<open>stream_execution\<close> on its stream server, with any number of clients. The locale
    \<open>group_log\<close> (extended by \<open>calm_group\<close>) states what the consumer group of an execution does; the
    clients share it, so they split the messages between them.
  \<^item> Run_Events, Execution_Watch: the two ends of that stream together. What a run puts on it in every
    environment (\<open>run_types\<close>), and that a client which connects first gets all of it, in whatever
    batches it arrives.
  \<^item> Json_Body, Workflow_Schemas: reading JSON as pydantic does; the request bodies, the responses and
    the stored JSON of the workflow service. What is created through the API is read back.
  \<^item> Ip_Address, Webhook_Url, Webhooks, Webhook_Api: \<open>webhooks/\<close> and \<open>routes/webhooks.py\<close>. Which URLs
    are accepted, in terms of the addresses they resolve to; the schedule of a delivery; the secret,
    which signs the deliveries and is in no response but that of the registration.
  \<^item> Core_Middleware, Gateway: \<open>middleware/\<close> of the core and the gateway's \<open>routes/proxy.py\<close>. The
    limiter and the idempotency store are equivalent to counting and remembering; what is
    forwarded, under which tenant, and what is not.
  \<^item> Memory_Ranking, Memory_Service, Memory_Search, Memory_Compress, Memory_Api, Openai_Embedder:
    \<open>retrieval/\<close>, \<open>embedding/\<close>, \<open>routes/memory.py\<close>, \<open>schemas/memory.py\<close> and \<open>compression/\<close> of the memory
    service, with the provider of the core's \<open>embedding/openai.py\<close>. Scores are over the reals.
    Searches are confined to the tenant; the query cache and compression are characterised; a stored
    item is read back as it was answered.
  \<^item> Event_Dispatch, Observability, Tail_Sampler, Event_Handler, Trace_Sampling, Stream_Consumer,
    Observability_Api: the observability service. \<open>consumer/dispatcher.py\<close> with the validation that
    follows from the fields of the event classes (locale \<open>pydantic_laws\<close>: each conversion reads what
    the producer wrote); tables, session and metrics; \<open>sampling/tail_sampler.py\<close>;
    \<open>consumer/handler.py\<close>; what the sampler keeps, as a refinement of a map from span keys to
    messages; \<open>consumer/loop.py\<close> with the invariant that an entry is acknowledged only when its audit
    record is committed; the read routes.
  \<^item> Run_Observed: from the executor to the consumer. A completed run is not recorded as completed when
    its events are read as one batch; the locale \<open>consumer_feed\<close> states what the consumer's group gives it.
  \<^item> Schema, Migration_Env: the Alembic migrations of the three services that own tables, as DDL operations on a
    schema, and the tables the ORM classes declare: they agree, and row-level security covers the
    tenant tables of the workflow and the memory service. \<open>alembic/env.py\<close> and \<open>make migrate\<close>: the three
    services cannot migrate one database. Settings, Service_Settings: the defaults of
    every service, the check of the secrets of the workflow service, the logical Redis databases and
    the Celery applications. The two applications share a broker and its queue
    (\<open>celery_apps_share_a_queue\<close>); the keys in the database that two services share are disjoint.
  \<^item> Service_Clients: \<open>app/dependencies.py\<close> and \<open>app/main.py\<close> of the four services: the clients a process
    opens, hands out and closes, its lifespan and its health check, and what they do with a consumer
    that has died.
  \<^item> This theory: from the request that starts an execution to the worker that completes it.

  \<^bold>\<open>Bounds.\<close> No model uses fuel to cut a computation short. \<open>consumer_rounds\<close>, \<open>run_forever_rounds\<close>
  and the event stream are endless loops of the source; their definitions run any given number of
  iterations, and the theorems hold for every number; a client that is to have read everything gets as
  many rounds as its messages need, at ten a round (\<open>Execution_Watch\<close>). The deliveries of a webhook end after at most
  five attempts, the migration loop after as many steps as there are versions; both are proved.

  \<^bold>\<open>Assumptions.\<close> They are hypotheses of the theorems, each with a witness: the laws of Redis; \<open>quiet\<close>,
  \<open>alone\<close> and \<open>calm\<close> environments where nothing else writes or fails; the uniqueness of fresh UUIDs
  where it matters; texts that JSON reads back. A Python float is a rational or real number, so
  rounding, infinities and NaN are left out (Cost_Tracker needs no arithmetic law and covers them).
  The time to live of Redis keys passes only in explicit steps. Streams are not trimmed while
  entries are unacknowledged. Integer columns are unbounded.

  \<^bold>\<open>Not modelled.\<close> The construction of the FastAPI applications from their routers, reading settings
  from the environment, the internals of Alembic, logging (no state of the program's
  own); server-side defaults and grants of the tables; the language model, the embedding API, the
  vector index, the object store, the JWT library, cryptography, name resolution and the HTTP client,
  which are parameters where code depends on their results; concurrency inside one handler beyond what
  other sessions commit between its database accesses; tests, scripts and infrastructure.
\<close>

section \<open>From the API to the worker\<close>

lemma put_execution_mem:
  "\<exists>r \<in> set (db_executions db). ex_id r = ex_id ex \<Longrightarrow> ex \<in> set (db_executions (put_execution ex db))"
  by (auto simp: put_execution_def update_rows_def image_iff)

text \<open>
  C2: An execution started through the API for a tenant's own workflow is enqueued, and when a worker
  that sees the database takes it, with its lock free and no other party interfering, it ends
  COMPLETED and reports every step of the workflow's definition once, in order.
\<close>

lemma submitted_execution_completes:
  assumes "redis_kv R view" and "quiet E" and "wf_db_ok (sv_db sv)" and "w \<in> set (db_workflows (sv_db sv))"
    and "wf_tenant_id w = tid" and "tid \<in> set (map tn_id (db_tenants (sv_db sv)))" and "\<And>e. bk e = None"
    and "ee_uuid E (sv_tick sv) \<notin> ex_id ` set (db_executions (sv_db sv))"
    and "ee_uuid E (sv_tick sv) \<notin> ck_execution_id ` set (db_checkpoints (sv_db sv))"
    and "lock_free R (sv_locks sv) (ee_uuid E (sv_tick sv))"
  shows "\<exists>ex sv1 sv2. execute_workflow byp E bk (wf_id w) inputs tid sv = (Inr ex, sv1) \<and>
    ex_id ex \<in> set (sv_queue sv1) \<and> execute_run R E superuser (ex_id ex) sv1 = (Inr (), sv2) \<and>
    (\<exists>r \<in> set (db_executions (sv_db sv2)). ex_id r = ex_id ex \<and> ex_tenant_id r = tid \<and> ex_status r = COMPLETED) \<and>
    completed_steps (sv_sent sv2) =
      completed_steps (sv_sent sv) @ map step_label (enumerate 0 (wd_steps (wf_definition w)))"
proof -
  let ?eid = "ee_uuid E (sv_tick sv)" and ?d = "wf_definition w"
  let ?ex = "new_execution ?eid tid w inputs"
  let ?sv1 = "sv\<lparr>sv_tick := Suc (sv_tick sv),
    sv_db := (sv_db sv)\<lparr>db_executions := db_executions (sv_db sv) @ [?ex]\<rparr>, sv_queue := sv_queue sv @ [?eid]\<rparr>"
  have ex: "ex_id ?ex = ?eid" "ex_tenant_id ?ex = tid" "ex_status ?ex = PENDING"
    "ex_definition_snapshot ?ex = Some ?d" by (simp_all add: new_execution_def)
  have submit: "execute_workflow byp E bk (wf_id w) inputs tid sv = (Inr ?ex, ?sv1)"
    using assms(5,7) by (subst execute_workflow_visible [OF assms(3,4) _ assms(6)]) (simp_all add: Let_def ex(1))
  have ok: "wf_db_ok (sv_db ?sv1)" and mem: "?ex \<in> set (db_executions (sv_db ?sv1))"
    using assms(3,8) by (simp_all add: wf_db_ok_def ex(1))
  let ?w = "world_of ?ex ?sv1"
  have start: "fresh ?w" "ex_status (xw_row ?w) = PENDING" by (simp_all add: fresh_def world_of_def ex(3))
  have free: "lock_owner R (xw_locks ?w) (lock_key (ex_id (xw_row ?w))) = None"
    using assms(10) by (simp add: world_of_def lock_free_def ex(1))
  have "get_latest ?eid (db_checkpoints (sv_db sv)) = None"
    using assms(9) by (force simp: get_latest_None)
  then have steps: "steps_to_run ?d ?w = enumerate 0 (wd_steps ?d)"
    by (simp add: steps_to_run_def resume_point_def world_of_def ex(1))
  obtain w' where run: "run R E ?d ?w = (Inr (), w')" "ex_status (xw_disk w') = COMPLETED"
      "same_identity ?ex (xw_disk w')" "idle w'"
      "completed_steps (xw_sent w') = completed_steps (sv_sent sv) @ map step_label (enumerate 0 (wd_steps ?d))"
    using run_to_completion [OF assms(1) free assms(2) start, of ?d] steps by (auto simp: world_of_def)
  have task: "execute_run R E superuser ?eid ?sv1 = (Inr (), service_of w' ?sv1)"
    using execute_run_unfold [OF ok mem superuser_sees ex(4)] run(1,4)
    by (simp add: ex(1,3) TERMINAL_STATUSES_def in_session_def commit_idle)
  have "xw_disk w' \<in> set (db_executions (put_execution (xw_disk w') (sv_db ?sv1)))"
    using mem run(3) by (intro put_execution_mem) (auto simp: same_identity_def)
  then have "\<exists>r \<in> set (db_executions (sv_db (service_of w' ?sv1))). ex_id r = ?eid \<and> ex_tenant_id r = tid \<and> ex_status r = COMPLETED"
    using run(2,3) ex(1,2) by (auto simp: service_of_def same_identity_def)
  with submit task run(5) ex(1) show ?thesis
    by (intro exI [of _ ?ex] exI [of _ ?sv1] exI [of _ "service_of w' ?sv1"]) (simp add: service_of_def)
qed

lemma submitted_execution_completes_witness:
  "\<exists>ex sv1 sv2. execute_workflow True sample_env (\<lambda>_. None) 9 [] 8 sample_tenants = (Inr ex, sv1) \<and>
    execute_run mem_redis sample_env superuser (ex_id ex) sv1 = (Inr (), sv2) \<and>
    completed_steps (sv_sent sv2) = [(0, ''a''), (1, ''b''), (2, ''c'')]"
proof -
  have "lock_free mem_redis (sv_locks sample_tenants) (ee_uuid sample_env (sv_tick sample_tenants))"
    and "sv_sent sample_tenants = []" and "db_checkpoints (sv_db sample_tenants) = []"
    by (simp_all add: lock_free_def sample_tenants_def sample_service_def)
  moreover have "ee_uuid sample_env (sv_tick sample_tenants) \<noteq> 1" by (simp add: sample_env_def)
  moreover have "map step_label (enumerate 0 (wd_steps (wf_definition sample_workflow))) = [(0, ''a''), (1, ''b''), (2, ''c'')]"
    by (simp add: sample_workflow_def step_label_def sample_defs)
  ultimately show ?thesis
    using submitted_execution_completes [OF mem.redis_kv_axioms sample_quiet, of sample_tenants sample_workflow 8
        "\<lambda>_. None" True "[]"] by fastforce
qed

end
